(* ===== verification/Go_Prelude.thy ===== *)
theory Go_Prelude
  imports Main "HOL-Library.Char_ord" "HOL-Library.List_Lexorder" "HOL-Library.Product_Lexorder"
begin

text \<open>
  What the components share: the Go values the service computes with and the lemmas
  about them.

  A Go string is its bytes, so it is a \<open>string\<close> (a list of 8-bit characters) and
  \<open>length\<close> is \<open>len\<close>.  The functions of package \<open>strings\<close> the service
  calls are defined here on bytes, the white space of \<open>TrimSpace\<close> with the UTF-8
  encodings of all of Unicode's \<open>White_Space\<close> characters.  A \<open>time.Time\<close> is
  the number of nanoseconds since Go's zero time, a \<open>time.Duration\<close> a number of
  nanoseconds; both are \<open>int\<close>, with the 64-bit wrap-around of Go's integer
  arithmetic written out as \<open>wrap64\<close> where the code computes with caller-supplied
  numbers.
\<close>

section \<open>Shared collections\<close>

named_theorems go_simps \<open>evaluation of the Go library functions\<close>
named_theorems model_defs \<open>definitions of the model that proofs unfold together\<close>
named_theorems frame_rules \<open>what an operation leaves unchanged\<close>

type_synonym time = int
type_synonym duration = int

section \<open>Integers\<close>

definition wrap64 :: "int \<Rightarrow> int" where
  "wrap64 x = (x + 2 ^ 63) mod 2 ^ 64 - 2 ^ 63"

lemma wrap64_id [go_simps]: "- (2 ^ 63) \<le> x \<Longrightarrow> x < 2 ^ 63 \<Longrightarrow> wrap64 x = x"
  by (simp add: wrap64_def)

lemma wrap64_lower: "- (2 ^ 63) \<le> wrap64 x"
  by (simp add: wrap64_def)

lemma wrap64_upper: "wrap64 x < 2 ^ 63"
  by (simp add: wrap64_def)

text \<open>\<open>time.Time.Sub\<close> saturates at the ends of \<open>time.Duration\<close>.\<close>

definition time_sub :: "time \<Rightarrow> time \<Rightarrow> duration" where
  "time_sub t u = max (- (2 ^ 63)) (min (2 ^ 63 - 1) (t - u))"

definition is_zero :: "time \<Rightarrow> bool" where
  "is_zero t \<longleftrightarrow> t = 0"

definition second :: duration where
  "second = 1000000000"

definition hour :: duration where
  "hour = 3600 * second"

fun show_nat :: "nat \<Rightarrow> string" where
  "show_nat n = (if n < 10 then [char_of (48 + n)] else show_nat (n div 10) @ [char_of (48 + n mod 10)])"

declare show_nat.simps [simp del]

definition show_int :: "int \<Rightarrow> string" where
  "show_int i = (if i < 0 then CHR ''-'' # show_nat (nat (- i)) else show_nat (nat i))"

section \<open>Strings\<close>

fun join :: "string \<Rightarrow> string list \<Rightarrow> string" where
  "join sep [] = []"
| "join sep [x] = x"
| "join sep (x # y # ys) = x @ sep @ join sep (y # ys)"

definition has_prefix :: "string \<Rightarrow> string \<Rightarrow> bool" where
  "has_prefix s p \<longleftrightarrow> take (length p) s = p"

definition has_suffix :: "string \<Rightarrow> string \<Rightarrow> bool" where
  "has_suffix s p \<longleftrightarrow> has_prefix (rev s) (rev p)"

lemma has_prefix_append [simp]: "has_prefix (p @ s) p"
  by (simp add: has_prefix_def)

lemma has_prefix_iff: "has_prefix s p \<longleftrightarrow> (\<exists>r. s = p @ r)"
  by (metis append_take_drop_id has_prefix_append has_prefix_def)

text \<open>\<open>strings.Cut\<close> with a separator of one byte: before, after, found.\<close>

definition cut :: "char \<Rightarrow> string \<Rightarrow> string \<times> string \<times> bool" where
  "cut c s = (if c \<in> set s
     then (takeWhile (\<lambda>x. x \<noteq> c) s, drop 1 (dropWhile (\<lambda>x. x \<noteq> c) s), True)
     else (s, [], False))"

lemma cut_append [simp]: "c \<notin> set a \<Longrightarrow> cut c (a @ c # b) = (a, b, True)"
  by (induction a) (auto simp: cut_def)

lemma cut_Some: "cut c s = (a, b, True) \<Longrightarrow> s = a @ c # b \<and> c \<notin> set a"
proof -
  assume h: "cut c s = (a, b, True)"
  then have "c \<in> set s" by (auto simp: cut_def split: if_splits)
  then obtain u v where "s = u @ c # v" and "c \<notin> set u"
    by (meson split_list_first)
  with h show ?thesis by simp
qed

text \<open>\<open>strings.Split\<close> with a separator of one byte.\<close>

fun split_on :: "char \<Rightarrow> string \<Rightarrow> string list" where
  "split_on c [] = [[]]"
| "split_on c (x # xs) =
     (if x = c then [] # split_on c xs
      else (case split_on c xs of [] \<Rightarrow> [[x]] | y # ys \<Rightarrow> (x # y) # ys))"

lemma split_on_nonempty [simp]: "split_on c s \<noteq> []"
  by (induction c s rule: split_on.induct) (auto split: list.splits)

text \<open>
  White space of \<open>unicode.IsSpace\<close>, each character by its UTF-8 bytes: the six ASCII
  ones, then U+0085, U+00A0, U+1680, U+2000 to U+200A, U+2028, U+2029, U+202F, U+205F and
  U+3000.
\<close>

definition white_spaces :: "string list" where
  "white_spaces =
     [[CHR 0x20], [CHR 0x09], [CHR 0x0A], [CHR 0x0B], [CHR 0x0C], [CHR 0x0D],
      [CHR 0xC2, CHR 0x85], [CHR 0xC2, CHR 0xA0], [CHR 0xE1, CHR 0x9A, CHR 0x80],
      [CHR 0xE2, CHR 0x80, CHR 0x80], [CHR 0xE2, CHR 0x80, CHR 0x81],
      [CHR 0xE2, CHR 0x80, CHR 0x82], [CHR 0xE2, CHR 0x80, CHR 0x83],
      [CHR 0xE2, CHR 0x80, CHR 0x84], [CHR 0xE2, CHR 0x80, CHR 0x85],
      [CHR 0xE2, CHR 0x80, CHR 0x86], [CHR 0xE2, CHR 0x80, CHR 0x87],
      [CHR 0xE2, CHR 0x80, CHR 0x88], [CHR 0xE2, CHR 0x80, CHR 0x89],
      [CHR 0xE2, CHR 0x80, CHR 0x8A], [CHR 0xE2, CHR 0x80, CHR 0xA8],
      [CHR 0xE2, CHR 0x80, CHR 0xA9], [CHR 0xE2, CHR 0x80, CHR 0xAF],
      [CHR 0xE2, CHR 0x81, CHR 0x9F], [CHR 0xE3, CHR 0x80, CHR 0x80]]"

text \<open>Remove one token of a list from the front, if one is there.\<close>

fun strip_token :: "string \<Rightarrow> string \<Rightarrow> string option" where
  "strip_token [] s = None"
| "strip_token [c] (x # xs) = (if x = c then Some xs else None)"
| "strip_token (c # d # cs) (x # xs) = (if x = c then strip_token (d # cs) xs else None)"
| "strip_token (c # cs) [] = None"

lemma strip_token_length: "strip_token t s = Some r \<Longrightarrow> length r < length s"
  by (induction t s rule: strip_token.induct) (auto split: if_splits)

lemma strip_token_append: "strip_token t s = Some r \<Longrightarrow> strip_token t (s @ u) = Some (r @ u)"
  by (induction t s rule: strip_token.induct) (auto split: if_splits)

fun strip_first :: "string list \<Rightarrow> string \<Rightarrow> string option" where
  "strip_first [] s = None"
| "strip_first (t # ts) s = (case strip_token t s of Some r \<Rightarrow> Some r | None \<Rightarrow> strip_first ts s)"

lemma strip_first_length: "strip_first ts s = Some r \<Longrightarrow> length r < length s"
  by (induction ts) (auto split: option.splits dest: strip_token_length)

lemma strip_first_append: "strip_first ts (s @ u) = None \<Longrightarrow> strip_first ts s = None"
proof (induction ts)
  case (Cons t ts)
  then have "strip_token t (s @ u) = None" by (auto split: option.splits)
  then have "strip_token t s = None" by (metis not_None_eq strip_token_append)
  with Cons show ?case by (auto split: option.splits)
qed simp

function trim_left :: "string list \<Rightarrow> string \<Rightarrow> string" where
  "trim_left ts s = (case strip_first ts s of None \<Rightarrow> s | Some r \<Rightarrow> trim_left ts r)"
  by pat_completeness auto
termination
  by (relation "measure (\<lambda>(ts, s). length s)") (auto dest: strip_first_length)

declare trim_left.simps [simp del]

lemma trim_left_none: "strip_first ts (trim_left ts s) = None"
  by (induction ts s rule: trim_left.induct) (subst trim_left.simps, auto split: option.splits)

lemma trim_left_fix: "strip_first ts s = None \<Longrightarrow> trim_left ts s = s"
  by (subst trim_left.simps) simp

lemma strip_token_suffix: "strip_token t s = Some r \<Longrightarrow> \<exists>u. s = u @ r"
proof (induction t s rule: strip_token.induct)
  case (3 c d cs x xs)
  then obtain u where "xs = u @ r" by (auto split: if_splits)
  then have "x # xs = (x # u) @ r" by simp
  then show ?case by blast
qed (auto split: if_splits)

lemma strip_first_suffix: "strip_first ts s = Some r \<Longrightarrow> \<exists>u. s = u @ r"
  by (induction ts) (auto split: option.splits dest: strip_token_suffix)

lemma trim_left_suffix: "\<exists>u. s = u @ trim_left ts s"
proof (induction ts s rule: trim_left.induct)
  case (1 ts s)
  show ?case
  proof (cases "strip_first ts s")
    case None
    then show ?thesis by (simp add: trim_left_fix)
  next
    case (Some r)
    then obtain u where u: "s = u @ r" using strip_first_suffix by blast
    obtain v where "r = v @ trim_left ts r" using "1.IH" Some by blast
    with u have "s = (u @ v) @ trim_left ts r" by simp
    moreover have "trim_left ts s = trim_left ts r" using Some by (subst trim_left.simps) simp
    ultimately show ?thesis by metis
  qed
qed

text \<open>\<open>strings.TrimSpace\<close>.\<close>

definition trim_space :: "string \<Rightarrow> string" where
  "trim_space s = rev (trim_left (map rev white_spaces) (rev (trim_left white_spaces s)))"

lemma trim_space_idem [simp]: "trim_space (trim_space s) = trim_space s"
proof -
  let ?ws = white_spaces and ?wr = "map rev white_spaces"
  let ?l = "trim_left ?ws s"
  let ?r = "trim_left ?wr (rev ?l)"
  obtain u where "rev ?l = u @ ?r" using trim_left_suffix by blast
  then have "?l = rev ?r @ rev u" by (metis rev_append rev_rev_ident)
  then have "strip_first ?ws (rev ?r) = None"
    by (metis strip_first_append trim_left_none)
  then have "trim_left ?ws (rev ?r) = rev ?r" by (rule trim_left_fix)
  moreover have "trim_left ?wr ?r = ?r" by (rule trim_left_fix) (rule trim_left_none)
  ultimately show ?thesis by (simp add: trim_space_def)
qed

lemma trim_space_Nil [simp]: "trim_space [] = []"
  by code_simp

text \<open>
  \<open>strings.ToLower\<close>: byte-wise on an ASCII string; beyond ASCII it consults Unicode's
  case tables, which are the argument \<open>uni\<close>.
\<close>

definition char_between :: "char \<Rightarrow> char \<Rightarrow> char \<Rightarrow> bool" where
  "char_between lo hi c \<longleftrightarrow> lo \<le> c \<and> c \<le> hi"

definition lower_byte :: "char \<Rightarrow> char" where
  "lower_byte c = (if CHR ''A'' \<le> c \<and> c \<le> CHR ''Z'' then char_of (of_char c + 32 :: nat) else c)"

definition is_ascii :: "string \<Rightarrow> bool" where
  "is_ascii s \<longleftrightarrow> list_all (\<lambda>c. of_char c < (128 :: nat)) s"

definition to_lower :: "(string \<Rightarrow> string) \<Rightarrow> string \<Rightarrow> string" where
  "to_lower uni s = (if is_ascii s then map lower_byte s else uni s)"

text \<open>
  \<open>strings.EqualFold s t\<close> for an ASCII \<open>t\<close>: Unicode's simple folding maps two
  characters beyond ASCII to ASCII letters, U+017F to \<open>s\<close> and U+212A to \<open>k\<close>;
  every other one stays beyond ASCII and matches nothing in \<open>t\<close>.
\<close>

fun fold_bytes :: "string \<Rightarrow> string" where
  "fold_bytes [] = []"
| "fold_bytes (c # s) =
     (case s of
        d # s' \<Rightarrow>
          if c = CHR 0xC5 \<and> d = CHR 0xBF then CHR ''s'' # fold_bytes s'
          else (case s' of
                  e # s'' \<Rightarrow> if c = CHR 0xE2 \<and> d = CHR 0x84 \<and> e = CHR 0xAA
                             then CHR ''k'' # fold_bytes s'' else lower_byte c # fold_bytes s
                | [] \<Rightarrow> lower_byte c # fold_bytes s)
      | [] \<Rightarrow> [lower_byte c])"

definition equal_fold :: "string \<Rightarrow> string \<Rightarrow> bool" where
  "equal_fold s t \<longleftrightarrow> fold_bytes s = map lower_byte t"

section \<open>Checks in order\<close>

text \<open>
  A validator that returns at the first failing check is a list of pairs (the check fails,
  what is reported), read in the order of the source.
\<close>

fun first_error :: "(bool \<times> 'e) list \<Rightarrow> 'e option" where
  "first_error [] = None"
| "first_error ((failed, e) # rest) = (if failed then Some e else first_error rest)"

lemma first_error_None [simp]:
  "first_error xs = None \<longleftrightarrow> (\<forall>x \<in> set xs. \<not> fst x)"
  by (induction xs rule: first_error.induct) auto

lemma first_error_append:
  "first_error (xs @ ys) = (case first_error xs of Some e \<Rightarrow> Some e | None \<Rightarrow> first_error ys)"
  by (induction xs rule: first_error.induct) auto

lemma first_error_Some: "first_error xs = Some e \<Longrightarrow> (True, e) \<in> set xs"
  by (induction xs rule: first_error.induct) (auto split: if_splits)

text \<open>A run, from its result.\<close>

lemma run_result: "fst p = a \<Longrightarrow> p = (a, snd p)"
  by (simp add: prod_eq_iff)

section \<open>Lists as tables\<close>

lemma filter_id_conv_all: "(\<And>x. x \<in> set xs \<Longrightarrow> P x) \<Longrightarrow> filter P xs = xs"
  by (simp add: filter_id_conv)

lemma take_drop_pages:
  "take m (drop k xs) @ take n (drop (k + m) xs) = take (m + n) (drop k xs)"
  by (simp add: take_add add.commute)

lemma distinct_map_filter_single:
  "distinct (map f xs) \<Longrightarrow> x \<in> set xs \<Longrightarrow> filter (\<lambda>y. f y = f x) xs = [x]"
proof (induction xs)
  case (Cons a xs)
  then show ?case by (auto simp: filter_empty_conv) (metis (mono_tags, lifting) image_eqI)
qed simp

end
