(* ===== verification/App_Error.thy ===== *)
theory App_Error
  imports Go_Prelude
begin

text \<open>
  Go errors and \<open>internal/apperror/error.go\<close>.

  An \<open>error\<close> value is a package variable (compared by identity, here by name), a text
  made on the spot, a driver's error with its code, a \<open>fmt.Errorf\<close> wrapper, or the
  application's \<open>*apperror.Error\<close>.  \<open>errors.Is\<close> and \<open>errors.As\<close> walk the
  chain of \<open>Unwrap\<close>.  The application error codes are the constants of
  \<open>error.go\<close>; their numbers belong to the platform library, and the service only
  compares them, so they are the constructors of a datatype.
\<close>

section \<open>Error values\<close>

datatype errcode =
    CodeOK
  | CodeInvalidArgument
  | CodeNotFound
  | CodeRequestTimeout
  | CodeTooManyRequests
  | CodeUnauthorized
  | CodeForbidden
  | CodeConflict
  | CodeRequestInProgress
  | CodeStaleVersion
  | CodeInternal
  | CodeDependencyUnavailable

datatype goerr =
    ErrVar string
  | ErrText string
  | MySQLError nat string
  | PgError string string
  | ErrWrap string goerr
  | AppErr errcode string nat "goerr option"

text \<open>\<open>Unwrap\<close>, repeated.\<close>

fun err_chain :: "goerr \<Rightarrow> goerr list" where
  "err_chain (ErrWrap m e) = ErrWrap m e # err_chain e"
| "err_chain (AppErr c m s (Some e)) = AppErr c m s (Some e) # err_chain e"
| "err_chain (AppErr c m s None) = [AppErr c m s None]"
| "err_chain e = [e]"

lemma err_chain_hd: "\<exists>es. err_chain e = e # es"
  by (cases e rule: err_chain.cases) auto

definition errors_is :: "goerr \<Rightarrow> goerr \<Rightarrow> bool" where
  "errors_is e target \<longleftrightarrow> target \<in> set (err_chain e)"

fun is_app_err :: "goerr \<Rightarrow> bool" where
  "is_app_err (AppErr _ _ _ _) = True"
| "is_app_err _ = False"

definition errors_as_app :: "goerr \<Rightarrow> goerr option" where
  "errors_as_app e = List.find is_app_err (err_chain e)"

lemma errors_is_refl [simp]: "errors_is e e"
  using err_chain_hd [of e] by (auto simp: errors_is_def)

lemma errors_is_wrap [simp]: "errors_is (ErrWrap m e) (ErrVar v) \<longleftrightarrow> errors_is e (ErrVar v)"
  by (simp add: errors_is_def)

lemma errors_is_var [simp]: "errors_is (ErrVar u) (ErrVar v) \<longleftrightarrow> u = v"
  by (auto simp: errors_is_def)

lemma errors_is_leaf [simp]:
  "\<not> errors_is (ErrText t) (ErrVar v)" "\<not> errors_is (MySQLError n t) (ErrVar v)"
  "\<not> errors_is (PgError c t) (ErrVar v)"
  by (simp_all add: errors_is_def)

lemma errors_is_app [simp]:
  "errors_is (AppErr c m s None) (ErrVar v) \<longleftrightarrow> False"
  "errors_is (AppErr c m s (Some e)) (ErrVar v) \<longleftrightarrow> errors_is e (ErrVar v)"
  by (simp_all add: errors_is_def)

lemma errors_as_app_self [simp]: "errors_as_app (AppErr c m s i) = Some (AppErr c m s i)"
  by (cases i) (simp_all add: errors_as_app_def)

lemma errors_as_app_wrap [simp]: "errors_as_app (ErrWrap m e) = errors_as_app e"
  by (simp add: errors_as_app_def)

lemma errors_as_app_SomeD:
  assumes "errors_as_app e = Some a"
  obtains c m s i where "a = AppErr c m s i"
proof -
  have "is_app_err a" using assms by (auto simp: errors_as_app_def find_Some_iff)
  then show thesis using that by (cases a) auto
qed

text \<open>\<open>Error()\<close>: an application error shows its inner error when it has one.\<close>

fun err_text :: "goerr \<Rightarrow> string" where
  "err_text (ErrVar v) = v"
| "err_text (ErrText t) = t"
| "err_text (MySQLError n t) = t"
| "err_text (PgError c t) = t"
| "err_text (ErrWrap m e) = m @ '': '' @ err_text e"
| "err_text (AppErr c m s (Some e)) = err_text e"
| "err_text (AppErr c m s None) = m"

section \<open>The constructors of apperror\<close>

definition app_new :: "errcode \<Rightarrow> string \<Rightarrow> nat \<Rightarrow> goerr option \<Rightarrow> goerr" where
  "app_new code message status err = AppErr code message status err"

definition app_invalid :: "string \<Rightarrow> goerr option \<Rightarrow> goerr" where
  "app_invalid message err = app_new CodeInvalidArgument message 400 err"

definition app_not_found :: "string \<Rightarrow> goerr" where
  "app_not_found message = app_new CodeNotFound message 404 None"

definition app_conflict :: "string \<Rightarrow> goerr option \<Rightarrow> goerr" where
  "app_conflict message err = app_new CodeConflict message 409 err"

definition app_stale_version :: "goerr option \<Rightarrow> goerr" where
  "app_stale_version err = app_new CodeStaleVersion ''resource version is stale'' 409 err"

definition app_request_in_progress :: goerr where
  "app_request_in_progress =
     app_new CodeRequestInProgress ''request is already processing'' 409 None"

definition app_unauthorized :: "string \<Rightarrow> goerr" where
  "app_unauthorized message = app_new CodeUnauthorized message 401 None"

definition app_forbidden :: "string \<Rightarrow> goerr" where
  "app_forbidden message = app_new CodeForbidden message 403 None"

definition app_too_many_requests :: goerr where
  "app_too_many_requests = app_new CodeTooManyRequests ''too many requests'' 429 None"

definition app_request_timeout :: goerr where
  "app_request_timeout = app_new CodeRequestTimeout ''request timeout'' 504 None"

definition app_unavailable :: "string \<Rightarrow> goerr option \<Rightarrow> goerr" where
  "app_unavailable message err = app_new CodeDependencyUnavailable message 503 err"

definition app_internal :: "goerr option \<Rightarrow> goerr" where
  "app_internal err = app_new CodeInternal ''internal server error'' 500 err"

lemmas app_error_defs = app_new_def app_invalid_def app_not_found_def app_conflict_def
  app_stale_version_def app_request_in_progress_def app_unauthorized_def app_forbidden_def
  app_too_many_requests_def app_request_timeout_def app_unavailable_def app_internal_def

text \<open>The HTTP status the constructors give to each code.\<close>

fun code_status :: "errcode \<Rightarrow> nat" where
  "code_status CodeOK = 200"
| "code_status CodeInvalidArgument = 400"
| "code_status CodeNotFound = 404"
| "code_status CodeRequestTimeout = 504"
| "code_status CodeTooManyRequests = 429"
| "code_status CodeUnauthorized = 401"
| "code_status CodeForbidden = 403"
| "code_status CodeConflict = 409"
| "code_status CodeRequestInProgress = 409"
| "code_status CodeStaleVersion = 409"
| "code_status CodeInternal = 500"
| "code_status CodeDependencyUnavailable = 503"

text \<open>
  An error the constructors made carries the status of its code: what both transports rely
  on when they map it.
\<close>

definition app_wf :: "goerr \<Rightarrow> bool" where
  "app_wf e \<longleftrightarrow> (\<exists>c m i. e = AppErr c m (code_status c) i \<and> c \<noteq> CodeOK)"

lemma app_wf_intros [simp]:
  "app_wf (app_invalid m i)" "app_wf (app_not_found m)" "app_wf (app_conflict m i)"
  "app_wf (app_stale_version i)" "app_wf app_request_in_progress" "app_wf (app_unauthorized m)"
  "app_wf (app_forbidden m)" "app_wf app_too_many_requests" "app_wf app_request_timeout"
  "app_wf (app_unavailable m i)" "app_wf (app_internal i)"
  by (auto simp: app_wf_def app_error_defs)

text \<open>What an error answers with: the parts of its application error, else those of an internal one.\<close>

definition err_code :: "goerr \<Rightarrow> errcode" where
  "err_code e = (case errors_as_app e of Some (AppErr c _ _ _) \<Rightarrow> c | _ \<Rightarrow> CodeInternal)"

definition err_status :: "goerr \<Rightarrow> nat" where
  "err_status e = (case errors_as_app e of Some (AppErr _ _ s _) \<Rightarrow> s | _ \<Rightarrow> 500)"

definition err_message :: "goerr \<Rightarrow> string" where
  "err_message e = (case errors_as_app e of Some (AppErr _ m _ _) \<Rightarrow> m | _ \<Rightarrow> ''internal server error'')"

lemma err_code_app [simp]: "err_code (AppErr c m s i) = c"
  by (simp add: err_code_def)

lemma err_code_wrap [simp]: "err_code (ErrWrap m e) = err_code e"
  by (simp add: err_code_def)

lemma err_answer_app [simp]: "err_status (AppErr c m s i) = s" "err_message (AppErr c m s i) = m"
  by (simp_all add: err_status_def err_message_def)

lemma err_answer_wrap [simp]: "err_status (ErrWrap t e) = err_status e" "err_message (ErrWrap t e) = err_message e"
  by (simp_all add: err_status_def err_message_def)

lemma err_code_constructors [simp]:
  "err_code (app_invalid m i) = CodeInvalidArgument"
  "err_code (app_not_found m) = CodeNotFound"
  "err_code (app_conflict m i) = CodeConflict"
  "err_code (app_unauthorized m) = CodeUnauthorized"
  "err_code (app_forbidden m) = CodeForbidden"
  "err_code (app_unavailable m i) = CodeDependencyUnavailable"
  "err_code (app_internal i) = CodeInternal"
  by (simp_all add: app_error_defs)

end
