(* ===== verification/Sql_Database.thy ===== *)
theory Sql_Database
  imports App_Error
begin

text \<open>
  The database as the service sees it, and \<open>internal/database/transaction.go\<close>.

  The tables are a value of any type.  A statement reads and replaces them, or is refused
  by a constraint or a trigger.  What the code does not control is a script the database
  consumes one step per statement: the time that passes, what other sessions have committed
  meanwhile (seen by a statement outside a transaction and by the start of one), and whether
  the statement succeeds, fails before it has an effect, or has its effect while the reply is
  lost.  An exhausted script is a database that behaves well.  Theorems are stated for every
  script, so for every placement of failures and of other writers.
\<close>

section \<open>Sessions and statements\<close>

datatype outcome = Fine | Fails goerr | Lost goerr

record 't db_step =
  st_elapsed :: nat
  st_others :: "'t \<Rightarrow> 't"
  st_outcome :: outcome

record session =
  ss_actor :: "string option"
  ss_now :: time

record 't db =
  db_tables :: 't
  db_session :: session
  db_script :: "'t db_step list"

type_synonym ('t, 'a) stmt = "session \<Rightarrow> 't \<Rightarrow> goerr + 't \<times> 'a"

definition quiet :: "'t db_step" where
  "quiet = \<lparr>st_elapsed = 0, st_others = (\<lambda>t. t), st_outcome = Fine\<rparr>"

definition next_step :: "'t db \<Rightarrow> 't db_step \<times> 't db" where
  "next_step s = (case db_script s of
      [] \<Rightarrow> (quiet, s)
    | x # xs \<Rightarrow> (x, s\<lparr>db_script := xs,
         db_session := (db_session s)\<lparr>ss_now := ss_now (db_session s) + int (st_elapsed x)\<rparr>\<rparr>))"

definition run_stmt :: "('t, 'a) stmt \<Rightarrow> outcome \<Rightarrow> 't db \<Rightarrow> (goerr + 'a) \<times> 't db" where
  "run_stmt stmt out s = (case out of
      Fails e \<Rightarrow> (Inl e, s)
    | Fine \<Rightarrow> (case stmt (db_session s) (db_tables s) of
          Inl e \<Rightarrow> (Inl e, s)
        | Inr (t, x) \<Rightarrow> (Inr x, s\<lparr>db_tables := t\<rparr>))
    | Lost e \<Rightarrow> (case stmt (db_session s) (db_tables s) of
          Inl e' \<Rightarrow> (Inl e', s)
        | Inr (t, x) \<Rightarrow> (Inl e, s\<lparr>db_tables := t\<rparr>)))"

text \<open>A statement inside a transaction, and one outside, which first sees the others' commits.\<close>

definition exec_tx :: "('t, 'a) stmt \<Rightarrow> 't db \<Rightarrow> (goerr + 'a) \<times> 't db" where
  "exec_tx stmt s = (let (x, s1) = next_step s in run_stmt stmt (st_outcome x) s1)"

definition exec_db :: "('t, 'a) stmt \<Rightarrow> 't db \<Rightarrow> (goerr + 'a) \<times> 't db" where
  "exec_db stmt s = (let (x, s1) = next_step s in
     run_stmt stmt (st_outcome x) (s1\<lparr>db_tables := st_others x (db_tables s1)\<rparr>))"

text \<open>A statement that only reads.\<close>

definition reads :: "(session \<Rightarrow> 't \<Rightarrow> goerr + 'a) \<Rightarrow> ('t, 'a) stmt" where
  "reads q ss t = map_sum id (\<lambda>x. (t, x)) (q ss t)"

text \<open>
  What the database and \<open>database/sql\<close> report to the code: no row, a unique index violated, and
  what the triggers of the migrations raise when a row is written in a session without an actor.
\<close>

definition ErrNoRows :: goerr where
  "ErrNoRows = ErrVar ''sql: no rows in result set''"

definition missing_actor :: goerr where
  "missing_actor = PgError ''P0001'' ''app.actor_id must be set for audited writes''"

definition audit_actor :: "session \<Rightarrow> goerr + string" where
  "audit_actor ss = (case ss_actor ss of
      Some (c # cs) \<Rightarrow> Inr (c # cs)
    | _ \<Rightarrow> Inl missing_actor)"

definition unique_error :: goerr where
  "unique_error = PgError ''23505'' ''duplicate key value violates unique constraint''"

section \<open>Principals\<close>

text \<open>
  What the code uses of the platform's \<open>principal.Principal\<close>.  The code compares its type
  with \<open>TypeUser\<close>, sets \<open>TypeServiceAccount\<close>, and writes it into \<open>actor_type\<close>;
  \<open>TypeSystem\<close> is the type \<open>SystemContext\<close> gives, \<open>TypeOther\<close> any further one.
\<close>

datatype ptype = TypeUser | TypeServiceAccount | TypeSystem | TypeOther string

record principal =
  p_ID :: string
  p_Type :: ptype
  p_TenantID :: string

text \<open>\<open>principal.SystemContext\<close>: the context of a background actor.\<close>

definition system_principal :: "string \<Rightarrow> principal" where
  "system_principal actor = \<lparr>p_ID = actor, p_Type = TypeSystem, p_TenantID = []\<rparr>"

section \<open>Transactions\<close>

definition ErrMissingAuditActor :: goerr where
  "ErrMissingAuditActor = ErrVar ''database transaction requires an audit actor in context''"

text \<open>
  \<open>BeginTxx\<close>: the transaction starts from what is committed, with no audit actor.  The
  snapshot is what a rollback restores.
\<close>

definition begin_tx :: "'t db \<Rightarrow> (goerr + 't) \<times> 't db" where
  "begin_tx s = (let (x, s1) = next_step s;
       s2 = s1\<lparr>db_tables := st_others x (db_tables s1),
               db_session := (db_session s1)\<lparr>ss_actor := None\<rparr>\<rparr>
     in (case st_outcome x of
           Fine \<Rightarrow> (Inr (db_tables s2), s2)
         | Fails e \<Rightarrow> (Inl e, s2)
         | Lost e \<Rightarrow> (Inl e, s2)))"

definition end_session :: "'t db \<Rightarrow> 't db" where
  "end_session s = s\<lparr>db_session := (db_session s)\<lparr>ss_actor := None\<rparr>\<rparr>"

text \<open>\<open>Rollback\<close>: whatever it reports, the transaction's changes are gone.\<close>

definition rollback_tx :: "'t \<Rightarrow> 't db \<Rightarrow> goerr option \<times> 't db" where
  "rollback_tx saved s = (let (x, s1) = next_step s; s2 = end_session (s1\<lparr>db_tables := saved\<rparr>)
     in (case st_outcome x of Fine \<Rightarrow> (None, s2) | Fails e \<Rightarrow> (Some e, s2) | Lost e \<Rightarrow> (Some e, s2)))"

text \<open>\<open>Commit\<close>: a failed one leaves nothing, one whose reply is lost has committed.\<close>

definition commit_tx :: "'t \<Rightarrow> 't db \<Rightarrow> goerr option \<times> 't db" where
  "commit_tx saved s = (let (x, s1) = next_step s in
     (case st_outcome x of
        Fine \<Rightarrow> (None, end_session s1)
      | Fails e \<Rightarrow> (Some e, end_session (s1\<lparr>db_tables := saved\<rparr>))
      | Lost e \<Rightarrow> (Some e, end_session s1)))"

definition set_actor_stmt :: "string \<Rightarrow> 't db \<Rightarrow> (goerr + unit) \<times> 't db" where
  "set_actor_stmt actor s = (let (x, s1) = next_step s;
       s2 = s1\<lparr>db_session := (db_session s1)\<lparr>ss_actor := Some actor\<rparr>\<rparr>
     in (case st_outcome x of Fine \<Rightarrow> (Inr (), s2) | Fails e \<Rightarrow> (Inl e, s1) | Lost e \<Rightarrow> (Inl e, s2)))"

text \<open>\<open>setAuditActor\<close>; the driver names it does not know get no actor.\<close>

definition set_audit_actor :: "principal option \<Rightarrow> string \<Rightarrow> 't db \<Rightarrow> goerr option \<times> 't db" where
  "set_audit_actor ctx driver s = (case ctx of
      None \<Rightarrow> (Some ErrMissingAuditActor, s)
    | Some actor \<Rightarrow>
        if trim_space (p_ID actor) = [] then (Some ErrMissingAuditActor, s)
        else if driver \<in> {''mysql'', ''pgx'', ''postgres'', ''kingbase''} then
          (case set_actor_stmt (p_ID actor) s of
             (Inl e, s1) \<Rightarrow> (Some (ErrWrap ''set transaction audit actor'' e), s1)
           | (Inr _, s1) \<Rightarrow> (None, s1))
        else (None, s))"

text \<open>
  \<open>Transactor.Within\<close>.  The transactor's \<open>db\<close> is nil when the database is disabled;
  otherwise its driver name is what the code reads of it.
\<close>

definition within :: "string option \<Rightarrow> principal option \<Rightarrow> ('t db \<Rightarrow> goerr option \<times> 't db)
    \<Rightarrow> 't db \<Rightarrow> goerr option \<times> 't db" where
  "within tdb ctx fn s = (case tdb of
      None \<Rightarrow> (Some (ErrText ''begin transaction: database is disabled''), s)
    | Some driver \<Rightarrow>
        (case begin_tx s of
           (Inl e, s1) \<Rightarrow> (Some (ErrWrap ''begin transaction'' e), s1)
         | (Inr saved, s1) \<Rightarrow>
             (case set_audit_actor ctx driver s1 of
                (Some e, s2) \<Rightarrow> (Some e, snd (rollback_tx saved s2))
              | (None, s2) \<Rightarrow>
                  (case fn s2 of
                     (Some e, s3) \<Rightarrow>
                       (case rollback_tx saved s3 of
                          (Some r, s4) \<Rightarrow>
                            (Some (ErrWrap (''rollback transaction after '' @ err_text e) r), s4)
                        | (None, s4) \<Rightarrow> (Some e, s4))
                   | (None, s3) \<Rightarrow>
                       (case commit_tx saved s3 of
                          (Some e, s4) \<Rightarrow> (Some (ErrWrap ''commit transaction'' e), s4)
                        | (None, s4) \<Rightarrow> (None, s4))))))"

section \<open>What every transaction keeps\<close>

text \<open>The script only gets shorter.\<close>

lemma next_step_script: "next_step s = (x, s1) \<Longrightarrow> set (db_script s1) \<subseteq> set (db_script s)"
  by (auto simp: next_step_def split: list.splits)

lemma next_step_scriptD:
  "next_step s = (x, s1) \<Longrightarrow> y \<in> set (db_script s1) \<Longrightarrow> y \<in> set (db_script s)"
  using next_step_script by blast

lemma next_step_tables: "next_step s = (x, s1) \<Longrightarrow> db_tables s1 = db_tables s"
  by (auto simp: next_step_def split: list.splits)

lemma next_step_in: "next_step s = (x, s1) \<Longrightarrow> x = quiet \<or> x \<in> set (db_script s)"
  by (auto simp: next_step_def split: list.splits)

lemma next_step_actor: "next_step s = (x, s1) \<Longrightarrow> ss_actor (db_session s1) = ss_actor (db_session s)"
  by (auto simp: next_step_def split: list.splits)

lemma next_step_now: "next_step s = (x, s1) \<Longrightarrow> ss_now (db_session s) \<le> ss_now (db_session s1)"
  by (auto simp: next_step_def split: list.splits)

lemma next_step_quiet [simp]: "db_script s = [] \<Longrightarrow> next_step s = (quiet, s)"
  by (simp add: next_step_def)

lemma quiet_simps [simp]: "st_others quiet t = t" "st_outcome quiet = Fine" "st_elapsed quiet = 0"
  by (simp_all add: quiet_def)

lemma run_stmt_script: "run_stmt stmt out s = (r, s1) \<Longrightarrow> db_script s1 = db_script s"
  by (auto simp: run_stmt_def split: outcome.splits sum.splits prod.splits)

lemma run_stmt_session: "run_stmt stmt out s = (r, s1) \<Longrightarrow> db_session s1 = db_session s"
  by (auto simp: run_stmt_def split: outcome.splits sum.splits prod.splits)

lemma run_stmt_effect:
  assumes "run_stmt stmt out s = (r, s1)"
  shows "db_tables s1 = db_tables s \<or>
    (\<exists>x. stmt (db_session s) (db_tables s) = Inr (db_tables s1, x) \<and> (r = Inr x \<or> (\<exists>e. out = Lost e \<and> r = Inl e)))"
  using assms by (auto simp: run_stmt_def split: outcome.splits sum.splits prod.splits)

lemma run_stmt_ok:
  assumes "run_stmt stmt out s = (Inr x, s1)"
  shows "out = Fine" "stmt (db_session s) (db_tables s) = Inr (db_tables s1, x)"
  using assms by (auto simp: run_stmt_def split: outcome.splits sum.splits prod.splits)

lemma reads_same: "reads q ss t = Inr (t', x) \<Longrightarrow> t' = t \<and> q ss t = Inr x"
  by (auto simp: reads_def map_sum_def split: sum.splits)

lemma end_session_tables [simp]:
  "db_tables (end_session s) = db_tables s" "db_script (end_session s) = db_script s"
  by (simp_all add: end_session_def)

lemma rollback_tx_tables: "rollback_tx saved s = (r, s1) \<Longrightarrow> db_tables s1 = saved"
  by (auto simp: rollback_tx_def Let_def split: prod.splits outcome.splits)

lemma rollback_tx_script: "rollback_tx saved s = (r, s1) \<Longrightarrow> set (db_script s1) \<subseteq> set (db_script s)"
  by (auto simp: rollback_tx_def Let_def split: prod.splits outcome.splits dest: next_step_scriptD)

lemma rollback_tx_snd [simp]: "db_tables (snd (rollback_tx saved s)) = saved"
  by (rule rollback_tx_tables [OF prod.collapse [symmetric]])

lemma rollback_tx_snd_script:
  "x \<in> set (db_script (snd (rollback_tx saved s))) \<Longrightarrow> x \<in> set (db_script s)"
  by (rule subsetD [OF rollback_tx_script [OF prod.collapse [symmetric]]])

lemma commit_tx_tables:
  "commit_tx saved s = (r, s1) \<Longrightarrow>
     (r = None \<and> db_tables s1 = db_tables s) \<or> (r \<noteq> None \<and> db_tables s1 \<in> {saved, db_tables s})"
  by (auto simp: commit_tx_def Let_def next_step_tables split: prod.splits outcome.splits)

lemma commit_tx_script: "commit_tx saved s = (r, s1) \<Longrightarrow> set (db_script s1) \<subseteq> set (db_script s)"
  by (auto simp: commit_tx_def Let_def split: prod.splits outcome.splits dest: next_step_scriptD)

lemma begin_tx_tables:
  "begin_tx s = (r, s1) \<Longrightarrow> db_tables s1 = st_others (fst (next_step s)) (db_tables s)"
  by (auto simp: begin_tx_def Let_def next_step_tables split: prod.splits outcome.splits)

lemma begin_tx_saved: "begin_tx s = (Inr saved, s1) \<Longrightarrow> saved = db_tables s1"
  by (auto simp: begin_tx_def Let_def split: prod.splits outcome.splits)

lemma begin_tx_script: "begin_tx s = (r, s1) \<Longrightarrow> set (db_script s1) \<subseteq> set (db_script s)"
  by (auto simp: begin_tx_def Let_def split: prod.splits outcome.splits dest: next_step_scriptD)

lemma set_audit_actor_tables: "set_audit_actor ctx d s = (r, s1) \<Longrightarrow> db_tables s1 = db_tables s"
  by (auto simp: set_audit_actor_def set_actor_stmt_def Let_def next_step_tables
      split: option.splits if_splits prod.splits sum.splits outcome.splits)

lemma set_audit_actor_script:
  "set_audit_actor ctx d s = (r, s1) \<Longrightarrow> set (db_script s1) \<subseteq> set (db_script s)"
  by (auto simp: set_audit_actor_def set_actor_stmt_def Let_def
      split: option.splits if_splits prod.splits sum.splits outcome.splits dest: next_step_scriptD)

text \<open>A transaction that reached its body has an actor, and the session carries its identifier.\<close>

lemma set_audit_actor_ok:
  assumes "set_audit_actor ctx d s = (None, s1)"
  obtains actor where "ctx = Some actor" "trim_space (p_ID actor) \<noteq> []"
    "d \<in> {''mysql'', ''pgx'', ''postgres'', ''kingbase''} \<Longrightarrow> ss_actor (db_session s1) = Some (p_ID actor)"
  using assms
  by (cases ctx) (auto simp: set_audit_actor_def set_actor_stmt_def Let_def
      split: if_splits prod.splits sum.splits outcome.splits)

lemma begin_tx_actor: "begin_tx s = (r, s1) \<Longrightarrow> ss_actor (db_session s1) = None"
  by (auto simp: begin_tx_def Let_def split: prod.splits outcome.splits)

lemma set_audit_actor_session:
  assumes "set_audit_actor ctx d s = (r, s1)" "ss_actor (db_session s) = None"
  shows "ss_actor (db_session s1) = None \<or> (\<exists>a. ctx = Some a \<and> ss_actor (db_session s1) = Some (p_ID a))"
    and "r = None \<Longrightarrow> \<exists>a. ctx = Some a \<and> ss_actor (db_session s1) \<in> {None, Some (p_ID a)}"
  using assms
  by (auto simp: set_audit_actor_def set_actor_stmt_def Let_def
      split: option.splits if_splits prod.splits sum.splits outcome.splits dest: next_step_actor)

lemmas tx_script_rules = next_step_script begin_tx_script rollback_tx_script commit_tx_script
  set_audit_actor_script

lemma within_script:
  assumes "\<And>s e s'. fn s = (e, s') \<Longrightarrow> set (db_script s') \<subseteq> set (db_script s)"
    and "within tdb ctx fn s = (r, s')"
  shows "set (db_script s') \<subseteq> set (db_script s)"
proof -
  obtain b s1 where b: "begin_tx s = (b, s1)" by fastforce
  obtain a s2 where a: "set_audit_actor ctx (the tdb) s1 = (a, s2)" by fastforce
  obtain f s3 where f: "fn s2 = (f, s3)" by fastforce
  have "set (db_script s1) \<subseteq> set (db_script s)" "set (db_script s2) \<subseteq> set (db_script s1)"
    "set (db_script s3) \<subseteq> set (db_script s2)"
    using begin_tx_script [OF b] set_audit_actor_script [OF a] assms(1) [OF f] by auto
  moreover have "set (db_script s') \<subseteq> set (db_script s) \<or> set (db_script s') \<subseteq> set (db_script s1) \<or>
      set (db_script s') \<subseteq> set (db_script s2) \<or> set (db_script s') \<subseteq> set (db_script s3)"
    using assms(2) b a f
    by (auto simp: within_def split: option.splits prod.splits sum.splits
        dest: rollback_tx_script commit_tx_script rollback_tx_snd_script)
  ultimately show ?thesis by blast
qed

text \<open>
  A relation on tables that is reflexive and transitive and that the other sessions obey is
  kept by every statement and transaction whose own effects obey it: the rule behind every
  invariant and every append-only statement of the development.
\<close>

definition obeys :: "('t \<Rightarrow> 't \<Rightarrow> bool) \<Rightarrow> 't db \<Rightarrow> bool" where
  "obeys R s \<longleftrightarrow> (\<forall>x \<in> set (db_script s). \<forall>t. R t (st_others x t))"

definition advances :: "('t \<Rightarrow> 't \<Rightarrow> bool) \<Rightarrow> 't db \<Rightarrow> 't db \<Rightarrow> bool" where
  "advances R s s' \<longleftrightarrow> R (db_tables s) (db_tables s') \<and> set (db_script s') \<subseteq> set (db_script s)"

lemma obeys_mono: "obeys R s \<Longrightarrow> set (db_script s') \<subseteq> set (db_script s) \<Longrightarrow> obeys R s'"
  by (auto simp: obeys_def)

lemma advances_obeys: "obeys R s \<Longrightarrow> advances R s s' \<Longrightarrow> obeys R s'"
  by (auto simp: advances_def intro: obeys_mono)

locale table_order =
  fixes R :: "'t \<Rightarrow> 't \<Rightarrow> bool"
  assumes order_refl: "R t t"
    and order_trans: "R t u \<Longrightarrow> R u v \<Longrightarrow> R t v"
begin

lemma advances_refl: "advances R s s"
  by (simp add: advances_def order_refl)

lemma advances_trans: "advances R s s1 \<Longrightarrow> advances R s1 s2 \<Longrightarrow> advances R s s2"
  by (auto simp: advances_def intro: order_trans)

lemma others_keep: "obeys R s \<Longrightarrow> next_step s = (x, s1) \<Longrightarrow> R t (st_others x t)"
  by (metis next_step_in obeys_def order_refl quiet_simps(1))

lemma run_stmt_keeps:
  assumes "\<And>ss t t' x. stmt ss t = Inr (t', x) \<Longrightarrow> R t t'" and "run_stmt stmt out s = (r, s1)"
  shows "R (db_tables s) (db_tables s1)"
  using run_stmt_effect [OF assms(2)] assms(1) order_refl by metis

lemma exec_tx_keeps:
  assumes "\<And>ss t t' x. stmt ss t = Inr (t', x) \<Longrightarrow> R t t'" and "exec_tx stmt s = (r, s1)"
  shows "advances R s s1"
proof -
  obtain x s0 where x: "next_step s = (x, s0)" by fastforce
  with assms(2) have run: "run_stmt stmt (st_outcome x) s0 = (r, s1)"
    by (simp add: exec_tx_def)
  have "R (db_tables s0) (db_tables s1)"
    by (rule run_stmt_keeps [OF _ run]) (rule assms(1))
  with x run show ?thesis
    by (simp add: advances_def next_step_script next_step_tables run_stmt_script)
qed

lemma exec_db_keeps:
  assumes "\<And>ss t t' x. stmt ss t = Inr (t', x) \<Longrightarrow> R t t'" and "obeys R s"
    and "exec_db stmt s = (r, s1)"
  shows "advances R s s1"
proof -
  obtain x s0 where x: "next_step s = (x, s0)" by fastforce
  let ?s0 = "s0\<lparr>db_tables := st_others x (db_tables s0)\<rparr>"
  from x assms(3) have run: "run_stmt stmt (st_outcome x) ?s0 = (r, s1)"
    by (simp add: exec_db_def)
  have "R (db_tables s) (db_tables ?s0)"
    using others_keep [OF assms(2) x] x by (simp add: next_step_tables)
  moreover have "R (db_tables ?s0) (db_tables s1)"
    by (rule run_stmt_keeps [OF _ run]) (rule assms(1))
  ultimately have "R (db_tables s) (db_tables s1)" by (rule order_trans)
  with x run show ?thesis by (simp add: advances_def next_step_script run_stmt_script)
qed

lemma reads_keeps: "obeys R s \<Longrightarrow> exec_db (reads q) s = (r, s') \<Longrightarrow> advances R s s'"
  by (rule exec_db_keeps [where stmt = "reads q"]) (auto dest: reads_same simp: order_refl)

lemma within_keeps:
  assumes body: "\<And>s s'. fn s = (None, s') \<Longrightarrow> R (db_tables s) (db_tables s')"
    and script: "\<And>s e s'. fn s = (e, s') \<Longrightarrow> set (db_script s') \<subseteq> set (db_script s)"
    and ob: "obeys R s" and w: "within tdb ctx fn s = (r, s')"
  shows "advances R s s'"
proof (cases tdb)
  case None
  with w show ?thesis by (auto simp: within_def intro: advances_refl)
next
  case (Some driver)
  obtain b s1 where b: "begin_tx s = (b, s1)" by fastforce
  have s1: "advances R s s1"
    using begin_tx_tables [OF b] begin_tx_script [OF b] others_keep [OF ob]
    by (auto simp: advances_def) (metis prod.collapse)
  show ?thesis
  proof (cases b)
    case (Inl e)
    with w b Some s1 show ?thesis by (simp add: within_def)
  next
    case (Inr saved)
    with b have saved: "saved = db_tables s1" by (simp add: begin_tx_saved)
    obtain a s2 where a: "set_audit_actor ctx driver s1 = (a, s2)" by fastforce
    obtain f s3 where f: "fn s2 = (f, s3)" by fastforce
    have sub: "set (db_script s3) \<subseteq> set (db_script s1)"
      "db_tables s2 = db_tables s1" "set (db_script s2) \<subseteq> set (db_script s1)"
      using set_audit_actor_tables [OF a] set_audit_actor_script [OF a] script [OF f] by auto
    have R3: "f = None \<Longrightarrow> R (db_tables s1) (db_tables s3)" using body f sub by metis
    have "R (db_tables s1) (db_tables s') \<and> set (db_script s') \<subseteq> set (db_script s1)"
      using w b Some Inr a f saved sub R3
      by (auto simp: within_def order_refl split: option.splits prod.splits
          dest: rollback_tx_tables rollback_tx_script commit_tx_tables commit_tx_script
            rollback_tx_snd_script)
    with s1 show ?thesis by (auto simp: advances_def intro: order_trans)
  qed
qed

end

text \<open>
  A transaction is all or nothing: it ends in the tables its body left, or in those it began
  with.  When it reports success, the body succeeded under the actor of the context.
\<close>

lemma within_atomic:
  assumes "within tdb ctx fn s = (r, s')"
  shows "(db_tables s' \<in> {db_tables s, st_others (fst (next_step s)) (db_tables s)} \<and> r \<noteq> None) \<or>
    (\<exists>a s2 s3. ctx = Some a \<and> ss_actor (db_session s2) \<in> {None, Some (p_ID a)} \<and>
       db_tables s2 = st_others (fst (next_step s)) (db_tables s) \<and> fn s2 = (None, s3) \<and>
       db_tables s' = db_tables s3 \<and> set (db_script s2) \<subseteq> set (db_script s))"
proof (cases tdb)
  case None
  with assms show ?thesis by (auto simp: within_def)
next
  case (Some driver)
  obtain b s1 where b: "begin_tx s = (b, s1)" by fastforce
  note t1 = begin_tx_tables [OF b]
  show ?thesis
  proof (cases b)
    case (Inl e)
    with assms b Some t1 show ?thesis by (auto simp: within_def)
  next
    case (Inr saved)
    with b have saved: "saved = db_tables s1" by (simp add: begin_tx_saved)
    obtain a s2 where a: "set_audit_actor ctx driver s1 = (a, s2)" by fastforce
    obtain f s3 where f: "fn s2 = (f, s3)" by fastforce
    have t2: "db_tables s2 = db_tables s1" using set_audit_actor_tables [OF a] .
    show ?thesis
    proof (cases "a = None \<and> f = None")
      case True
      then have "db_tables s' = db_tables s3 \<or> (r \<noteq> None \<and> db_tables s' = saved)"
        using assms b Some Inr a f
        by (auto simp: within_def split: option.splits prod.splits dest: commit_tx_tables)
      moreover obtain u where "ctx = Some u" "ss_actor (db_session s2) \<in> {None, Some (p_ID u)}"
        using True set_audit_actor_session [OF a begin_tx_actor [OF b]] by auto
      moreover have "set (db_script s2) \<subseteq> set (db_script s)"
        using begin_tx_script [OF b] set_audit_actor_script [OF a] by blast
      ultimately show ?thesis using True f t1 t2 saved by auto
    next
      case False
      then have "db_tables s' = saved \<and> r \<noteq> None"
        using assms b Some Inr a f
        by (auto simp: within_def split: option.splits prod.splits dest: rollback_tx_tables)
      with t1 saved show ?thesis by auto
    qed
  qed
qed

lemma within_ok:
  assumes "within tdb ctx fn s = (None, s')"
  obtains driver actor s1 s2 s3 where "tdb = Some driver" "ctx = Some actor"
    "trim_space (p_ID actor) \<noteq> []" "begin_tx s = (Inr (db_tables s1), s1)"
    "set_audit_actor ctx driver s1 = (None, s2)" "fn s2 = (None, s3)"
    "db_tables s' = db_tables s3" "set (db_script s') \<subseteq> set (db_script s3)"
    "db_tables s1 = st_others (fst (next_step s)) (db_tables s)" "db_tables s2 = db_tables s1"
proof -
  obtain driver where d: "tdb = Some driver" using assms by (cases tdb) (auto simp: within_def)
  obtain b s1 where b: "begin_tx s = (b, s1)" by fastforce
  obtain saved where sv: "b = Inr saved"
    using assms d b by (cases b) (auto simp: within_def)
  with b have saved: "saved = db_tables s1" by (simp add: begin_tx_saved)
  obtain a s2 where a: "set_audit_actor ctx driver s1 = (a, s2)" by fastforce
  have a0: "a = None" using assms d b sv a by (cases a) (auto simp: within_def split: prod.splits)
  obtain f s3 where f: "fn s2 = (f, s3)" by fastforce
  have f0: "f = None" using assms d b sv a a0 f
    by (cases f) (auto simp: within_def split: prod.splits option.splits)
  obtain c s4 where c: "commit_tx saved s3 = (c, s4)" by fastforce
  have "c = None" "s4 = s'" using assms d b sv a a0 f f0 c
    by (auto simp: within_def split: prod.splits option.splits)
  with c have "db_tables s' = db_tables s3" "set (db_script s') \<subseteq> set (db_script s3)"
    using commit_tx_tables commit_tx_script by fastforce+
  moreover obtain actor where "ctx = Some actor" "trim_space (p_ID actor) \<noteq> []"
    using set_audit_actor_ok a a0 by metis
  ultimately show thesis
    using that d b sv saved a a0 f f0 begin_tx_tables [OF b] set_audit_actor_tables [OF a] by metis
qed

section \<open>Statements one by one, and a quiet database\<close>

lemma exec_tx_ok:
  fixes s :: "'t db"
  assumes "exec_tx stmt s = (Inr x, s')"
  obtains s0 :: "'t db" where "db_tables s0 = db_tables s" "set (db_script s0) \<subseteq> set (db_script s)"
    "ss_actor (db_session s0) = ss_actor (db_session s)"
    "stmt (db_session s0) (db_tables s) = Inr (db_tables s', x)" "db_session s' = db_session s0"
    "db_script s' = db_script s0"
proof -
  obtain y s0 where y: "next_step s = (y, s0)" by fastforce
  with assms have r: "run_stmt stmt (st_outcome y) s0 = (Inr x, s')" by (simp add: exec_tx_def)
  show thesis
    using that [of s0] next_step_tables [OF y] next_step_script [OF y] next_step_actor [OF y]
      run_stmt_ok [OF r] run_stmt_session [OF r] run_stmt_script [OF r] by simp
qed

lemma exec_tx_script: "exec_tx stmt s = (r, s') \<Longrightarrow> set (db_script s') \<subseteq> set (db_script s)"
  by (auto simp: exec_tx_def split: prod.splits) (metis next_step_scriptD run_stmt_script)

lemma exec_db_reads_ok:
  assumes "exec_db (reads q) s = (Inr x, s')"
  obtains ss where "q ss (db_tables s') = Inr x"
    "db_tables s' = st_others (fst (next_step s)) (db_tables s)"
proof -
  obtain y s0 where y: "next_step s = (y, s0)" by fastforce
  with assms have r: "run_stmt (reads q) (st_outcome y) (s0\<lparr>db_tables := st_others y (db_tables s0)\<rparr>) = (Inr x, s')"
    by (simp add: exec_db_def)
  from run_stmt_ok(2) [OF r] reads_same have "db_tables s' = st_others y (db_tables s0)"
    "q (db_session s0) (st_others y (db_tables s0)) = Inr x" by fastforce+
  with that y next_step_tables [OF y] show thesis by simp
qed

lemma exec_db_reads_quiet [simp]:
  "db_script s = [] \<Longrightarrow> exec_db (reads q) s = (q (db_session s) (db_tables s), s)"
  by (simp add: exec_db_def run_stmt_def reads_def map_sum_def split: sum.splits)

lemma exec_tx_quiet:
  "db_script s = [] \<Longrightarrow> exec_tx stmt s = (case stmt (db_session s) (db_tables s) of
     Inl e \<Rightarrow> (Inl e, s) | Inr (t, x) \<Rightarrow> (Inr x, s\<lparr>db_tables := t\<rparr>))"
  by (simp add: exec_tx_def run_stmt_def split: sum.splits)

lemma within_quiet:
  assumes "db_script s = []" "d \<in> {''mysql'', ''pgx'', ''postgres'', ''kingbase''}" "trim_space (p_ID a) \<noteq> []"
    and "\<And>s1 e s2. fn s1 = (e, s2) \<Longrightarrow> set (db_script s2) \<subseteq> set (db_script s1)"
  defines "s1 \<equiv> s\<lparr>db_session := (db_session s)\<lparr>ss_actor := Some (p_ID a)\<rparr>\<rparr>"
  shows "within (Some d) (Some a) fn s = (case fn s1 of
      (None, s2) \<Rightarrow> (None, end_session s2)
    | (Some e, s2) \<Rightarrow> (Some e, end_session (s2\<lparr>db_tables := db_tables s\<rparr>)))"
proof -
  have "db_script (snd (fn s1)) = []"
    using assms(1) assms(4) [OF prod.collapse [symmetric], of s1] by (simp add: s1_def)
  moreover have "begin_tx s = (Inr (db_tables s), s\<lparr>db_session := (db_session s)\<lparr>ss_actor := None\<rparr>\<rparr>)"
    using assms(1) by (simp add: begin_tx_def)
  moreover have "set_audit_actor (Some a) d (s\<lparr>db_session := (db_session s)\<lparr>ss_actor := None\<rparr>\<rparr>) = (None, s1)"
    using assms(1-3) by (auto simp: set_audit_actor_def set_actor_stmt_def s1_def)
  ultimately show ?thesis
    by (auto simp: within_def rollback_tx_def commit_tx_def Let_def split: prod.splits option.splits)
qed


end
