(* ===== verification/Audit_Model.thy ===== *)
theory Audit_Model
  imports Sql_Database
begin

text \<open>
  \<open>internal/audit/model.go\<close>: the audit record, the query filter and the result page, and
  the rows the two audit tables keep of a record.  JSON summaries are byte strings.
\<close>

record audit_record =
  r_ID :: string
  r_TenantID :: string
  r_ApplicationID :: string
  r_ActorID :: string
  r_ActorType :: string
  r_Action :: string
  r_ResourceType :: string
  r_ResourceID :: string
  r_RequestID :: string
  r_TraceID :: string
  r_SourceService :: string
  r_BeforeSummary :: string
  r_AfterSummary :: string
  r_OccurredAt :: time
  r_Version :: int
  r_CreatedAt :: time
  r_UpdatedAt :: time
  r_CreatedBy :: string
  r_UpdatedBy :: string

record audit_filter =
  f_Keyword :: string
  f_IDs :: "string list"
  f_TenantID :: string
  f_ApplicationID :: string
  f_ActorID :: string
  f_ActorType :: string
  f_Action :: string
  f_ResourceType :: string
  f_ResourceID :: string
  f_RequestID :: string
  f_TraceID :: string
  f_SourceService :: string
  f_OccurredFrom :: time
  f_OccurredTo :: time
  f_Page :: int
  f_PageSize :: int

record audit_page =
  pg_Records :: "audit_record list"
  pg_Total :: int
  pg_Page :: int
  pg_PageSize :: int

text \<open>Go's zero values of the two structs.\<close>

definition zero_record :: audit_record where
  "zero_record = \<lparr>r_ID = [], r_TenantID = [], r_ApplicationID = [], r_ActorID = [],
     r_ActorType = [], r_Action = [], r_ResourceType = [], r_ResourceID = [], r_RequestID = [],
     r_TraceID = [], r_SourceService = [], r_BeforeSummary = [], r_AfterSummary = [],
     r_OccurredAt = 0, r_Version = 0, r_CreatedAt = 0, r_UpdatedAt = 0, r_CreatedBy = [],
     r_UpdatedBy = []\<rparr>"

definition zero_filter :: audit_filter where
  "zero_filter = \<lparr>f_Keyword = [], f_IDs = [], f_TenantID = [], f_ApplicationID = [],
     f_ActorID = [], f_ActorType = [], f_Action = [], f_ResourceType = [], f_ResourceID = [],
     f_RequestID = [], f_TraceID = [], f_SourceService = [], f_OccurredFrom = 0,
     f_OccurredTo = 0, f_Page = 0, f_PageSize = 0\<rparr>"

section \<open>Rows\<close>

record key_row =
  k_id :: string
  k_occurred_at :: time
  k_version :: int
  k_created_at :: time
  k_updated_at :: time
  k_created_by :: string
  k_updated_by :: string
  k_deleted_at :: "time option"
  k_deleted_by :: "string option"

record audit_row = audit_record +
  row_deleted_at :: "time option"
  row_deleted_by :: "string option"

record audit_tables =
  t_keys :: "key_row list"
  t_records :: "audit_row list"

definition row_of :: "audit_record \<Rightarrow> audit_row" where
  "row_of v = audit_record.extend v (audit_row.fields None None)"

definition record_of :: "audit_row \<Rightarrow> audit_record" where
  "record_of r = audit_record.truncate r"

lemma record_of_row_of [simp]: "record_of (row_of v) = v"
  by (cases v) (simp add: record_of_def row_of_def audit_record.defs audit_row.defs)

lemma record_of_fields [simp]:
  "r_ID (record_of r) = r_ID r" "r_TenantID (record_of r) = r_TenantID r"
  "r_ApplicationID (record_of r) = r_ApplicationID r" "r_OccurredAt (record_of r) = r_OccurredAt r"
  by (simp_all add: record_of_def audit_record.defs)

lemma row_of_fields [simp]:
  "r_ID (row_of v) = r_ID v" "r_TenantID (row_of v) = r_TenantID v"
  "r_ApplicationID (row_of v) = r_ApplicationID v" "r_OccurredAt (row_of v) = r_OccurredAt v"
  "row_deleted_at (row_of v) = None" "row_deleted_by (row_of v) = None"
  by (simp_all add: row_of_def audit_record.defs audit_row.defs)

section \<open>The order of query results\<close>

text \<open>
  \<open>ORDER BY occurred_at DESC, id DESC\<close> as a linear order, so that the library's
  \<open>sort_key\<close> and its lemmas apply: latest first, and the greater identifier first.
\<close>

datatype row_order = RowOrder (ro_at: time) (ro_id: string)

instantiation row_order :: linorder
begin

definition less_eq_row_order :: "row_order \<Rightarrow> row_order \<Rightarrow> bool" where
  "less_eq_row_order a b \<longleftrightarrow> ro_at b < ro_at a \<or> (ro_at a = ro_at b \<and> ro_id b \<le> ro_id a)"

definition less_row_order :: "row_order \<Rightarrow> row_order \<Rightarrow> bool" where
  "less_row_order a b \<longleftrightarrow> ro_at b < ro_at a \<or> (ro_at a = ro_at b \<and> ro_id b < ro_id a)"

instance
proof
  fix x y z :: row_order
  show "x < y \<longleftrightarrow> x \<le> y \<and> \<not> y \<le> x"
    by (auto simp: less_eq_row_order_def less_row_order_def)
  show "x \<le> x" by (simp add: less_eq_row_order_def)
  show "x \<le> y \<Longrightarrow> y \<le> z \<Longrightarrow> x \<le> z" by (auto simp: less_eq_row_order_def)
  show "x \<le> y \<Longrightarrow> y \<le> x \<Longrightarrow> x = y"
    by (cases x; cases y) (auto simp: less_eq_row_order_def)
  show "x \<le> y \<or> y \<le> x" by (auto simp: less_eq_row_order_def)
qed

end

definition row_key :: "'a audit_record_scheme \<Rightarrow> row_order" where
  "row_key r = RowOrder (r_OccurredAt r) (r_ID r)"

end
