(* ===== verification/Audit_Repository.thy ===== *)
theory Audit_Repository
  imports Audit_Model
begin

text \<open>
  \<open>internal/audit/repository.go\<close>, the SQL store of audit records: each statement of the
  file as an operation on the two tables, with the primary keys and the trigger
  \<open>audit_immutable_row\<close> of the PostgreSQL migrations and the column types they declare, and \<open>Create\<close>, \<open>Get\<close>, \<open>Query\<close>
  composed of them in the order of the code.  The \<open>WHERE\<close> clause is built as the list of
  its conditions; their text and arguments are what \<open>queryWhere\<close> returns, their meaning
  on a row is what the database does with them.
\<close>

definition ErrNotFound :: goerr where
  "ErrNotFound = ErrVar ''audit record not found''"

definition ErrDuplicate :: goerr where
  "ErrDuplicate = ErrVar ''audit record already exists''"

lemma repository_errors_distinct [simp]:
  "ErrNotFound \<noteq> ErrDuplicate" "ErrNoRows \<noteq> ErrNotFound" "ErrNoRows \<noteq> ErrDuplicate"
  "ErrDuplicate \<noteq> ErrNotFound" "ErrNotFound \<noteq> ErrNoRows" "ErrDuplicate \<noteq> ErrNoRows"
  by (simp_all add: ErrNotFound_def ErrDuplicate_def ErrNoRows_def)

section \<open>Columns\<close>

text \<open>
  What the repository needs of its surroundings: Unicode's lower-case table on the Go side, the
  \<open>LOWER\<close> of the database's collation, and what the columns make of a value.  \<open>se_uuid\<close>
  is the identifier a \<open>UUID\<close> column keeps of a text (its canonical form, \<open>None\<close> when the
  driver or the database does not read it as one), \<open>se_json\<close> the text a \<open>JSONB\<close> column gives
  back for the bytes it was given, and \<open>se_text\<close> says which texts a \<open>TEXT\<close> column takes.
  \<open>TIMESTAMPTZ\<close> counts microseconds; the driver drops the rest of a Go time.
\<close>

record sql_env =
  se_uni :: "string \<Rightarrow> string"
  se_lower :: "string \<Rightarrow> string"
  se_uuid :: "string \<Rightarrow> string option"
  se_json :: "string \<Rightarrow> string option"
  se_text :: "string \<Rightarrow> bool"

definition column_time :: "time \<Rightarrow> time" where
  "column_time t = t - t mod 1000"

definition invalid_input :: goerr where
  "invalid_input = ErrText ''invalid input for the type of the column''"

definition text_fields :: "audit_record \<Rightarrow> string list" where
  "text_fields v = [r_TenantID v, r_ApplicationID v, r_ActorID v, r_ActorType v, r_Action v,
     r_ResourceType v, r_ResourceID v, r_RequestID v, r_TraceID v, r_SourceService v]"

text \<open>What the columns of \<open>audit_records\<close> keep of a record, when they take it.\<close>

definition stored_as :: "sql_env \<Rightarrow> audit_record \<Rightarrow> goerr + audit_record" where
  "stored_as env v = (case se_uuid env (r_ID v) of
      None \<Rightarrow> Inl invalid_input
    | Some ident \<Rightarrow> (case se_json env (r_BeforeSummary v) of
          None \<Rightarrow> Inl invalid_input
        | Some old \<Rightarrow> (case se_json env (r_AfterSummary v) of
              None \<Rightarrow> Inl invalid_input
            | Some new \<Rightarrow>
                if list_all (se_text env) (text_fields v)
                then Inr (v\<lparr>r_ID := ident, r_BeforeSummary := old, r_AfterSummary := new,
                       r_OccurredAt := column_time (r_OccurredAt v)\<rparr>)
                else Inl invalid_input)))"

lemma column_time_le [simp]: "column_time t \<le> t" and column_time_near: "t < column_time t + 1000"
  by (simp_all add: column_time_def)

lemma column_time_idem [simp]: "column_time (column_time t) = column_time t"
  by (simp add: column_time_def minus_mod_eq_mult_div)

lemma column_time_mono: "s \<le> t \<Longrightarrow> column_time s \<le> column_time t"
  by (simp add: column_time_def minus_mod_eq_mult_div zdiv_mono1)

lemma stored_as_iff: "stored_as env v = Inr v1 \<longleftrightarrow> (\<exists>ident old new.
    se_uuid env (r_ID v) = Some ident \<and> se_json env (r_BeforeSummary v) = Some old \<and>
    se_json env (r_AfterSummary v) = Some new \<and> list_all (se_text env) (text_fields v) \<and>
    v1 = v\<lparr>r_ID := ident, r_BeforeSummary := old, r_AfterSummary := new,
      r_OccurredAt := column_time (r_OccurredAt v)\<rparr>)"
  by (auto simp: stored_as_def split: option.splits)

lemma stored_as_error: "stored_as env v = Inl e \<Longrightarrow> e = invalid_input"
  by (auto simp: stored_as_def split: option.splits if_splits)

text \<open>The columns of text keep what they are given.\<close>

lemma stored_as_fields:
  assumes "stored_as env v = Inr v1"
  shows "se_uuid env (r_ID v) = Some (r_ID v1)" "r_TenantID v1 = r_TenantID v"
    "r_ApplicationID v1 = r_ApplicationID v" "r_OccurredAt v1 = column_time (r_OccurredAt v)"
    "text_fields v1 = text_fields v"
  using assms by (auto simp: stored_as_iff text_fields_def)

section \<open>Create\<close>

text \<open>
  The row an insert leaves: what the columns keep of the values.  \<open>BEFORE INSERT\<close> of \<open>audit_immutable_row\<close> demands an actor
  (\<open>audit_actor\<close>), and the database, not the caller, stamps the times, the author and the
  version.
\<close>

definition insert_key :: "sql_env \<Rightarrow> audit_record \<Rightarrow> (audit_tables, unit) stmt" where
  "insert_key env v ss t = (case se_uuid env (r_ID v) of
      None \<Rightarrow> Inl invalid_input
    | Some ident \<Rightarrow> (case audit_actor ss of
          Inl e \<Rightarrow> Inl e
        | Inr actor \<Rightarrow>
            if list_ex (\<lambda>k. k_id k = ident) (t_keys t) then Inl unique_error
            else Inr (t\<lparr>t_keys := t_keys t @
                   [\<lparr>k_id = ident, k_occurred_at = column_time (r_OccurredAt v), k_version = 1,
                     k_created_at = ss_now ss, k_updated_at = ss_now ss, k_created_by = actor,
                     k_updated_by = actor, k_deleted_at = None, k_deleted_by = None\<rparr>]\<rparr>, ())))"

definition stamped :: "session \<Rightarrow> string \<Rightarrow> audit_record \<Rightarrow> audit_record" where
  "stamped ss actor v = v\<lparr>r_CreatedAt := ss_now ss, r_UpdatedAt := ss_now ss,
     r_CreatedBy := actor, r_UpdatedBy := actor, r_Version := 1\<rparr>"

definition insert_record :: "sql_env \<Rightarrow> audit_record \<Rightarrow> (audit_tables, unit) stmt" where
  "insert_record env v ss t = (case stored_as env v of
      Inl e \<Rightarrow> Inl e
    | Inr v1 \<Rightarrow> (case audit_actor ss of
          Inl e \<Rightarrow> Inl e
        | Inr actor \<Rightarrow>
            if list_ex (\<lambda>r. r_ID r = r_ID v1 \<and> r_OccurredAt r = r_OccurredAt v1) (t_records t)
            then Inl unique_error
            else Inr (t\<lparr>t_records := t_records t @ [row_of (stamped ss actor v1)]\<rparr>, ())))"

text \<open>\<open>uniqueViolation\<close>: the first MySQL error of the chain decides, then PostgreSQL's.\<close>

fun is_mysql_err :: "goerr \<Rightarrow> bool" where
  "is_mysql_err (MySQLError _ _) = True"
| "is_mysql_err _ = False"

fun is_pg_err :: "goerr \<Rightarrow> bool" where
  "is_pg_err (PgError _ _) = True"
| "is_pg_err _ = False"

definition unique_violation :: "goerr \<Rightarrow> bool" where
  "unique_violation err = (case List.find is_mysql_err (err_chain err) of
      Some (MySQLError number _) \<Rightarrow> number = 1062
    | _ \<Rightarrow> (case List.find is_pg_err (err_chain err) of
          Some (PgError code _) \<Rightarrow> code = ''23505''
        | _ \<Rightarrow> False))"

lemma unique_violation_unique_error [simp]: "unique_violation unique_error"
  by (simp add: unique_violation_def unique_error_def)

lemma unique_violation_missing_actor [simp]: "\<not> unique_violation missing_actor"
  by (simp add: unique_violation_def missing_actor_def)

lemma unique_violation_invalid_input [simp]: "\<not> unique_violation invalid_input"
  by (simp add: unique_violation_def invalid_input_def)

definition repo_create :: "sql_env \<Rightarrow> audit_record \<Rightarrow> audit_tables db
    \<Rightarrow> goerr option \<times> audit_tables db" where
  "repo_create env v s = (case exec_tx (insert_key env v) s of
      (Inl err, s1) \<Rightarrow> (if unique_violation err then (Some ErrDuplicate, s1) else (Some err, s1))
    | (Inr _, s1) \<Rightarrow> (case exec_tx (insert_record env v) s1 of
          (Inl err, s2) \<Rightarrow> (Some err, s2)
        | (Inr _, s2) \<Rightarrow> (None, s2)))"

section \<open>Get\<close>

text \<open>
  The lookup compares the canonical identifier; the arguments must be values of their columns.
  The rows hold what the columns give back, so a row is read as it stands.
\<close>

definition select_record :: "sql_env \<Rightarrow> string \<Rightarrow> string \<Rightarrow> session \<Rightarrow> audit_tables
    \<Rightarrow> goerr + audit_record" where
  "select_record env ident tenant ss t =
     (case se_uuid env ident of
        None \<Rightarrow> Inl invalid_input
      | Some i \<Rightarrow>
          if \<not> se_text env tenant then Inl invalid_input
          else (case filter (\<lambda>r. r_ID r = i \<and> r_TenantID r = tenant \<and> row_deleted_at r = None)
                  (t_records t) of
              [] \<Rightarrow> Inl ErrNoRows
            | r # _ \<Rightarrow> Inr (record_of r)))"

definition repo_get :: "sql_env \<Rightarrow> string \<Rightarrow> string \<Rightarrow> audit_tables db
    \<Rightarrow> (goerr + audit_record) \<times> audit_tables db" where
  "repo_get env ident tenant s = (case exec_db (reads (select_record env ident tenant)) s of
      (Inl err, s1) \<Rightarrow> (if errors_is err ErrNoRows then (Inl ErrNotFound, s1) else (Inl err, s1))
    | (Inr value, s1) \<Rightarrow> (Inr value, s1))"

section \<open>Query\<close>

datatype cond =
    Equals string string
  | NotDeleted
  | IdIn "string list"
  | KeywordLike string
  | OccurredGe time
  | OccurredLe time

datatype sql_arg = SText string | STime time | SInt int

text \<open>The conditions of \<open>queryWhere\<close>, in the order of the code.\<close>

definition column_filters :: "audit_filter \<Rightarrow> (string \<times> string) list" where
  "column_filters f =
     [(''application_id'', f_ApplicationID f), (''actor_id'', f_ActorID f),
      (''actor_type'', f_ActorType f), (''action'', f_Action f),
      (''resource_type'', f_ResourceType f), (''resource_id'', f_ResourceID f),
      (''request_id'', f_RequestID f), (''trace_id'', f_TraceID f),
      (''source_service'', f_SourceService f)]"

definition query_conds :: "(string \<Rightarrow> string) \<Rightarrow> audit_filter \<Rightarrow> cond list" where
  "query_conds uni f =
     [Equals ''tenant_id'' (f_TenantID f), NotDeleted]
     @ map (\<lambda>(column, value). Equals column value)
         (filter (\<lambda>(column, value). value \<noteq> []) (column_filters f))
     @ (if f_IDs f \<noteq> [] then [IdIn (f_IDs f)] else [])
     @ (if f_Keyword f \<noteq> [] then [KeywordLike (''%'' @ to_lower uni (f_Keyword f) @ ''%'')] else [])
     @ (if \<not> is_zero (f_OccurredFrom f) then [OccurredGe (f_OccurredFrom f)] else [])
     @ (if \<not> is_zero (f_OccurredTo f) then [OccurredLe (f_OccurredTo f)] else [])"

definition keyword_columns :: "string list" where
  "keyword_columns = [''actor_id'', ''action'', ''resource_type'', ''resource_id'', ''request_id'',
     ''trace_id'', ''source_service'']"

text \<open>The text of a condition, with a \<open>?\<close> for each argument, and the arguments.\<close>

fun cond_text :: "cond \<Rightarrow> string" where
  "cond_text (Equals column value) = column @ '' = ?''"
| "cond_text NotDeleted = ''deleted_at IS NULL''"
| "cond_text (IdIn ids) = ''id IN ('' @ join '', '' (map (\<lambda>_. ''?'') ids) @ '')''"
| "cond_text (KeywordLike like) =
     ''('' @ join '' OR '' (map (\<lambda>c. ''LOWER('' @ c @ '') LIKE ?'') keyword_columns) @ '')''"
| "cond_text (OccurredGe t) = ''occurred_at >= ?''"
| "cond_text (OccurredLe t) = ''occurred_at <= ?''"

fun cond_args :: "cond \<Rightarrow> sql_arg list" where
  "cond_args (Equals column value) = [SText value]"
| "cond_args NotDeleted = []"
| "cond_args (IdIn ids) = map SText ids"
| "cond_args (KeywordLike like) = replicate 7 (SText like)"
| "cond_args (OccurredGe t) = [STime t]"
| "cond_args (OccurredLe t) = [STime t]"

definition query_where :: "(string \<Rightarrow> string) \<Rightarrow> audit_filter \<Rightarrow> string \<times> sql_arg list" where
  "query_where uni f = (let conds = query_conds uni f in
     ('' WHERE '' @ join '' AND '' (map cond_text conds), concat (map cond_args conds)))"

text \<open>
  The meaning of a condition.  In \<open>LIKE\<close>, \<open>%\<close> stands for any text, \<open>_\<close> for one
  character (the bytes its first byte announces), and a backslash takes the next character
  literally.
\<close>

definition char_width :: "char \<Rightarrow> nat" where
  "char_width c = (let n = of_char c :: nat in
     if n < 192 then 1 else if n < 224 then 2 else if n < 240 then 3 else 4)"

fun like :: "string \<Rightarrow> string \<Rightarrow> bool" where
  "like [] s \<longleftrightarrow> s = []"
| "like (p # ps) s \<longleftrightarrow>
     (if p = CHR ''%'' then like ps s \<or> (case s of [] \<Rightarrow> False | c # cs \<Rightarrow> like (p # ps) cs)
      else if p = CHR ''_'' then
        (case s of [] \<Rightarrow> False | c # cs \<Rightarrow> like ps (drop (char_width c) (c # cs)))
      else if p = CHR 0x5C then
        (case ps of [] \<Rightarrow> False | q # qs \<Rightarrow>
          (case s of [] \<Rightarrow> False | c # cs \<Rightarrow> c = q \<and> like qs cs))
      else (case s of [] \<Rightarrow> False | c # cs \<Rightarrow> c = p \<and> like ps cs))"

declare like.simps(2) [simp del]

definition column :: "string \<Rightarrow> audit_record \<Rightarrow> string" where
  "column c r =
     (if c = ''tenant_id'' then r_TenantID r else if c = ''application_id'' then r_ApplicationID r
      else if c = ''actor_id'' then r_ActorID r else if c = ''actor_type'' then r_ActorType r
      else if c = ''action'' then r_Action r else if c = ''resource_type'' then r_ResourceType r
      else if c = ''resource_id'' then r_ResourceID r else if c = ''request_id'' then r_RequestID r
      else if c = ''trace_id'' then r_TraceID r else if c = ''source_service'' then r_SourceService r
      else [])"

fun cond_holds :: "sql_env \<Rightarrow> cond \<Rightarrow> audit_row \<Rightarrow> bool" where
  "cond_holds env (Equals c value) r \<longleftrightarrow> column c (record_of r) = value"
| "cond_holds env NotDeleted r \<longleftrightarrow> row_deleted_at r = None"
| "cond_holds env (IdIn ids) r \<longleftrightarrow> Some (r_ID r) \<in> se_uuid env ` set ids"
| "cond_holds env (KeywordLike pat) r \<longleftrightarrow>
     list_ex (\<lambda>c. like pat (se_lower env (column c (record_of r)))) keyword_columns"
| "cond_holds env (OccurredGe t) r \<longleftrightarrow> column_time t \<le> r_OccurredAt r"
| "cond_holds env (OccurredLe t) r \<longleftrightarrow> r_OccurredAt r \<le> column_time t"

text \<open>The arguments a statement takes: values of the columns they are compared with.\<close>

fun cond_valid :: "sql_env \<Rightarrow> cond \<Rightarrow> bool" where
  "cond_valid env (Equals c value) \<longleftrightarrow> se_text env value"
| "cond_valid env (IdIn ids) \<longleftrightarrow> list_all (\<lambda>i. se_uuid env i \<noteq> None) ids"
| "cond_valid env (KeywordLike pat) \<longleftrightarrow> se_text env pat"
| "cond_valid env _ \<longleftrightarrow> True"

definition args_valid :: "sql_env \<Rightarrow> audit_filter \<Rightarrow> bool" where
  "args_valid env f \<longleftrightarrow> list_all (cond_valid env) (query_conds (se_uni env) f)"

definition matching :: "sql_env \<Rightarrow> audit_filter \<Rightarrow> audit_tables \<Rightarrow> audit_record list" where
  "matching env f t = map record_of
     (filter (\<lambda>r. list_all (\<lambda>c. cond_holds env c r) (query_conds (se_uni env) f))
        (t_records t))"

definition count_records :: "sql_env \<Rightarrow> audit_filter \<Rightarrow> session \<Rightarrow> audit_tables \<Rightarrow> goerr + int" where
  "count_records env f ss t =
     (if args_valid env f then Inr (int (length (matching env f t))) else Inl invalid_input)"

definition query_offset :: "audit_filter \<Rightarrow> int" where
  "query_offset f = wrap64 (wrap64 (f_Page f - 1) * f_PageSize f)"

definition select_page :: "sql_env \<Rightarrow> audit_filter \<Rightarrow> session \<Rightarrow> audit_tables \<Rightarrow> goerr + audit_record list" where
  "select_page env f ss t =
     (if \<not> args_valid env f then Inl invalid_input
      else if f_PageSize f < 0 then Inl (PgError ''2201W'' ''LIMIT must not be negative'')
      else if query_offset f < 0 then Inl (PgError ''2201X'' ''OFFSET must not be negative'')
      else Inr (take (nat (f_PageSize f)) (drop (nat (query_offset f))
             (sort_key row_key (matching env f t)))))"

definition repo_query :: "sql_env \<Rightarrow> audit_filter \<Rightarrow> audit_tables db
    \<Rightarrow> (goerr + audit_record list \<times> int) \<times> audit_tables db" where
  "repo_query env f s = (case exec_db (reads (count_records env f)) s of
      (Inl err, s1) \<Rightarrow> (Inl err, s1)
    | (Inr n, s1) \<Rightarrow> (case exec_db (reads (select_page env f)) s1 of
          (Inl err, s2) \<Rightarrow> (Inl err, s2)
        | (Inr values, s2) \<Rightarrow> (Inr (values, n), s2)))"

end
