(* ===== verification/Audit_Store.thy ===== *)
theory Audit_Store
  imports Audit_Repository
begin

text \<open>
  What the repository keeps of the tables and what it implements.  \<open>audit_inv\<close> relates the
  two tables, \<open>extends\<close> says that existing rows stay as they are, and \<open>store_of\<close> is the
  abstract store: one record per identifier.  \<open>repo_create\<close> implements an update of it,
  \<open>repo_get\<close> a lookup.
\<close>

section \<open>Append-only tables\<close>

definition extends :: "audit_tables \<Rightarrow> audit_tables \<Rightarrow> bool" where
  "extends t t' \<longleftrightarrow> (\<exists>ks rs. t_keys t' = t_keys t @ ks \<and> t_records t' = t_records t @ rs)"

definition audit_inv :: "audit_tables \<Rightarrow> bool" where
  "audit_inv t \<longleftrightarrow> map r_ID (t_records t) = map k_id (t_keys t) \<and> distinct (map k_id (t_keys t)) \<and>
     (\<forall>r \<in> set (t_records t). row_deleted_at r = None \<and> r_Version r = 1 \<and> r_CreatedBy r \<noteq> [])"

definition audit_order :: "audit_tables \<Rightarrow> audit_tables \<Rightarrow> bool" where
  "audit_order t t' \<longleftrightarrow> extends t t' \<and> (audit_inv t \<longrightarrow> audit_inv t')"

lemma extends_refl [simp]: "extends t t"
  by (simp add: extends_def)

lemma extends_trans: "extends t u \<Longrightarrow> extends u v \<Longrightarrow> extends t v"
  by (auto simp: extends_def)

lemma extends_records: "extends t t' \<Longrightarrow> r \<in> set (t_records t) \<Longrightarrow> r \<in> set (t_records t')"
  by (auto simp: extends_def)

text \<open>
  An order of the audit tables.  Two matter: \<open>audit_order\<close>, what every writer keeps, and
  equality, what holds between the steps of a database nobody else writes to.
\<close>

locale audit_table_order = table_order R for R :: "audit_tables \<Rightarrow> audit_tables \<Rightarrow> bool"

interpretation same: audit_table_order "(=)"
  by unfold_locales auto

interpretation audit: audit_table_order audit_order
  by unfold_locales (auto simp: audit_order_def intro: extends_trans)

lemma audit_actor_ok: "audit_actor ss = Inr a \<longleftrightarrow> ss_actor ss = Some a \<and> a \<noteq> []"
  by (auto simp: audit_actor_def split: option.splits list.splits)

section \<open>Create\<close>

lemma repo_create_script: "repo_create env v s = (r, s') \<Longrightarrow> set (db_script s') \<subseteq> set (db_script s)"
  by (auto simp: repo_create_def split: prod.splits sum.splits if_splits dest!: exec_tx_script)

lemma insert_key_ok:
  assumes "insert_key env v ss t = Inr (t', x)"
  obtains actor k where "ss_actor ss = Some actor" "actor \<noteq> []" "se_uuid env (r_ID v) = Some (k_id k)"
    "k_id k \<notin> k_id ` set (t_keys t)" "t_keys t' = t_keys t @ [k]" "t_records t' = t_records t"
proof -
  from assms obtain actor where actor: "ss_actor ss = Some actor" "actor \<noteq> []"
    by (auto simp: insert_key_def audit_actor_ok split: sum.splits option.splits)
  show thesis
    by (rule that [OF actor, of "last (t_keys t')"])
      (use assms in \<open>auto simp: insert_key_def list_ex_iff split: sum.splits option.splits if_splits\<close>)
qed

lemma insert_record_ok:
  assumes "insert_record env v ss t = Inr (t', x)"
  obtains actor v1 where "ss_actor ss = Some actor" "actor \<noteq> []" "stored_as env v = Inr v1"
    "t_keys t' = t_keys t" "t_records t' = t_records t @ [row_of (stamped ss actor v1)]"
proof -
  from assms obtain actor v1 where "ss_actor ss = Some actor" "actor \<noteq> []" "stored_as env v = Inr v1"
    "t' = t\<lparr>t_records := t_records t @ [row_of (stamped ss actor v1)]\<rparr>"
    by (auto simp: insert_record_def audit_actor_ok split: sum.splits if_splits)
  then show thesis using that by simp
qed

text \<open>
  A successful \<open>Create\<close> adds one key and one row of the same, new identifier: what the
  columns keep of the record, stamped by the session.
\<close>

lemma repo_create_ok:
  assumes "repo_create env v s = (None, s')"
  obtains ss actor k v1 where "ss_actor (db_session s) = Some actor" "actor \<noteq> []"
    "ss_actor ss = Some actor" "stored_as env v = Inr v1"
    "k_id k = r_ID v1" "r_ID v1 \<notin> k_id ` set (t_keys (db_tables s))"
    "t_keys (db_tables s') = t_keys (db_tables s) @ [k]"
    "t_records (db_tables s') = t_records (db_tables s) @ [row_of (stamped ss actor v1)]"
proof -
  obtain s1 where 1: "exec_tx (insert_key env v) s = (Inr (), s1)"
    and 2: "exec_tx (insert_record env v) s1 = (Inr (), s')"
    using assms by (auto simp: repo_create_def split: prod.splits sum.splits if_splits)
  obtain a where a: "ss_actor a = ss_actor (db_session s)"
    "insert_key env v a (db_tables s) = Inr (db_tables s1, ())" "db_session s1 = a"
    using exec_tx_ok [OF 1] by metis
  obtain b where b: "ss_actor b = ss_actor (db_session s1)"
    "insert_record env v b (db_tables s1) = Inr (db_tables s', ())"
    using exec_tx_ok [OF 2] by metis
  obtain actor k where k: "ss_actor a = Some actor" "actor \<noteq> []" "se_uuid env (r_ID v) = Some (k_id k)"
    "k_id k \<notin> k_id ` set (t_keys (db_tables s))"
    "t_keys (db_tables s1) = t_keys (db_tables s) @ [k]"
    "t_records (db_tables s1) = t_records (db_tables s)"
    by (rule insert_key_ok [OF a(2)])
  obtain actor' v1 where r: "ss_actor b = Some actor'" "stored_as env v = Inr v1"
    "t_keys (db_tables s') = t_keys (db_tables s1)"
    "t_records (db_tables s') = t_records (db_tables s1) @ [row_of (stamped b actor' v1)]"
    by (rule insert_record_ok [OF b(2)])
  from r(1) b(1) a(3) k(1) have actor: "actor' = actor" by simp
  have "k_id k = r_ID v1" using stored_as_fields(1) [OF r(2)] k(3) by simp
  with actor k r show thesis using that [of actor b v1 k] a b by simp
qed

lemma row_of_more [simp]:
  "r_Version (row_of v) = r_Version v" "r_CreatedBy (row_of v) = r_CreatedBy v"
  by (simp_all add: row_of_def audit_record.defs audit_row.defs)

lemma stamped_fields [simp]:
  "r_ID (stamped ss a v) = r_ID v" "r_TenantID (stamped ss a v) = r_TenantID v"
  "r_ApplicationID (stamped ss a v) = r_ApplicationID v"
  "r_OccurredAt (stamped ss a v) = r_OccurredAt v"
  "r_Version (stamped ss a v) = 1" "r_CreatedBy (stamped ss a v) = a"
  by (simp_all add: stamped_def)

lemma repo_create_order:
  assumes "repo_create env v s = (None, s')"
  shows "audit_order (db_tables s) (db_tables s')"
proof -
  obtain ss actor k v1 where "actor \<noteq> []" "k_id k = r_ID v1"
    "r_ID v1 \<notin> k_id ` set (t_keys (db_tables s))"
    "t_keys (db_tables s') = t_keys (db_tables s) @ [k]"
    "t_records (db_tables s') = t_records (db_tables s) @ [row_of (stamped ss actor v1)]"
    using repo_create_ok [OF assms] by metis
  then show ?thesis by (auto simp: audit_order_def extends_def audit_inv_def)
qed

text \<open>A duplicate is reported only for an identifier that is in the key table.\<close>

lemma repo_create_keeps:
  "obeys audit_order s \<Longrightarrow> within tdb ctx (repo_create env v) s = (r, s') \<Longrightarrow> advances audit_order s s'"
  by (rule audit.within_keeps [OF repo_create_order repo_create_script])

section \<open>Reads\<close>

text \<open>The two reads keep every order the other sessions keep.\<close>

context audit_table_order
begin

lemma repo_get_keeps: "obeys R s \<Longrightarrow> repo_get env i tn s = (r, s') \<Longrightarrow> advances R s s'"
  by (auto simp: repo_get_def split: prod.splits sum.splits if_splits dest: reads_keeps)

lemma repo_query_keeps:
  assumes "obeys R s" "repo_query env f s = (r, s')"
  shows "advances R s s'"
proof -
  obtain c s1 where c: "exec_db (reads (count_records env f)) s = (c, s1)" by fastforce
  with assms(1) have k: "advances R s s1" by (rule reads_keeps)
  obtain d s2 where d: "exec_db (reads (select_page env f)) s1 = (d, s2)" by fastforce
  have "advances R s1 s2" by (rule reads_keeps [OF advances_obeys [OF assms(1) k] d])
  with k have "advances R s s2" by (rule advances_trans)
  with assms(2) c d k show ?thesis by (auto simp: repo_query_def split: sum.splits)
qed

end

lemma repo_get_sound:
  assumes "repo_get env i tn s = (Inr r, s')"
  shows "se_uuid env i = Some (r_ID r)" "r_TenantID r = tn"
    "r \<in> record_of ` set (t_records (db_tables s'))"
proof -
  have "exec_db (reads (select_record env i tn)) s = (Inr r, s')"
    using assms by (auto simp: repo_get_def split: prod.splits sum.splits if_splits)
  then obtain ss where "select_record env i tn ss (db_tables s') = Inr r"
    using exec_db_reads_ok by metis
  then obtain ident x xs where i: "se_uuid env i = Some ident" and r: "r = record_of x"
    and x: "filter (\<lambda>r. r_ID r = ident \<and> r_TenantID r = tn \<and> row_deleted_at r = None)
      (t_records (db_tables s')) = x # xs"
    by (auto simp: select_record_def split: list.splits option.splits if_splits)
  from x have "x \<in> set (filter (\<lambda>r. r_ID r = ident \<and> r_TenantID r = tn \<and> row_deleted_at r = None)
      (t_records (db_tables s')))" by simp
  with r i show "se_uuid env i = Some (r_ID r)" "r_TenantID r = tn"
    "r \<in> record_of ` set (t_records (db_tables s'))"
    by auto
qed

section \<open>The abstract store\<close>

definition store_of :: "audit_tables \<Rightarrow> string \<rightharpoonup> audit_record" where
  "store_of t = map_of (map (\<lambda>r. (r_ID r, record_of r)) (t_records t))"

lemma store_of_Some: "store_of t i = Some r \<Longrightarrow> r \<in> record_of ` set (t_records t) \<and> r_ID r = i"
  by (auto simp: store_of_def dest!: map_of_SomeD)

lemma dom_store_of: "dom (store_of t) = r_ID ` set (t_records t)"
  by (auto simp: store_of_def dom_map_of_conv_image_fst image_image)

lemma store_of_in:
  assumes "audit_inv t" "x \<in> set (t_records t)"
  shows "store_of t (r_ID x) = Some (record_of x)"
proof -
  have "distinct (map fst (map (\<lambda>r. (r_ID r, record_of r)) (t_records t)))"
    using assms(1) by (simp add: audit_inv_def comp_def)
  with assms(2) show ?thesis by (simp add: store_of_def)
qed

lemma audit_inv_keys: "audit_inv t \<Longrightarrow> k_id ` set (t_keys t) = r_ID ` set (t_records t)"
  unfolding audit_inv_def by (metis list.set_map)

text \<open>\<open>Get\<close> is a lookup in the abstract store, filtered by tenant.\<close>

lemma lookup_rows:
  assumes "audit_inv t"
  shows "(case filter (\<lambda>r. r_ID r = i \<and> r_TenantID r = tn \<and> row_deleted_at r = None) (t_records t) of
      [] \<Rightarrow> Inl ErrNoRows | r # _ \<Rightarrow> Inr (record_of r)) = (case store_of t i of
      Some r \<Rightarrow> if r_TenantID r = tn then Inr r else Inl ErrNoRows | None \<Rightarrow> Inl ErrNoRows)"
proof (cases "\<exists>x \<in> set (t_records t). r_ID x = i")
  case True
  then obtain x where x: "x \<in> set (t_records t)" "r_ID x = i" by blast
  have d: "distinct (map r_ID (t_records t))" and nd: "row_deleted_at x = None"
    using assms x by (simp_all add: audit_inv_def)
  have "filter (\<lambda>r. r_ID r = i) (t_records t) = [x]"
    using distinct_map_filter_single [OF d x(1)] x(2) by simp
  then have "filter (\<lambda>r. r_ID r = i \<and> r_TenantID r = tn \<and> row_deleted_at r = None) (t_records t)
      = filter (\<lambda>r. r_TenantID r = tn \<and> row_deleted_at r = None) [x]"
    by (metis (no_types, lifting) filter_cong filter_filter)
  with nd store_of_in [OF assms x(1)] x(2) show ?thesis by simp
next
  case False
  then have "filter (\<lambda>r. r_ID r = i \<and> r_TenantID r = tn \<and> row_deleted_at r = None) (t_records t) = []"
    by (auto simp: filter_empty_conv)
  moreover have "i \<notin> dom (store_of t)" using False by (auto simp: dom_store_of)
  then have "store_of t i = None" by (simp add: domIff)
  ultimately show ?thesis by simp
qed

lemma select_record_store:
  assumes "audit_inv t"
  shows "select_record env i tn ss t = (case se_uuid env i of
      None \<Rightarrow> Inl invalid_input
    | Some ident \<Rightarrow> if \<not> se_text env tn then Inl invalid_input
        else (case store_of t ident of
            Some r \<Rightarrow> if r_TenantID r = tn then Inr r else Inl ErrNoRows
          | None \<Rightarrow> Inl ErrNoRows))"
  by (simp add: select_record_def lookup_rows [OF assms] split: option.split)

text \<open>\<open>Create\<close> is an update of the abstract store at a new identifier.\<close>

lemma repo_create_store:
  assumes "audit_inv (db_tables s)" "repo_create env v s = (None, s')"
  shows "\<exists>ss actor v1. ss_actor (db_session s) = Some actor \<and> stored_as env v = Inr v1 \<and>
    store_of (db_tables s) (r_ID v1) = None \<and>
    store_of (db_tables s') = (store_of (db_tables s))(r_ID v1 \<mapsto> stamped ss actor v1)"
proof -
  obtain ss actor v1 where c: "ss_actor (db_session s) = Some actor" "stored_as env v = Inr v1"
    "r_ID v1 \<notin> k_id ` set (t_keys (db_tables s))"
    "t_records (db_tables s') = t_records (db_tables s) @ [row_of (stamped ss actor v1)]"
    using repo_create_ok [OF assms(2)] by metis
  then have new: "r_ID v1 \<notin> dom (store_of (db_tables s))"
    using audit_inv_keys [OF assms(1)] by (simp add: dom_store_of)
  then have "store_of (db_tables s) ++ [r_ID v1 \<mapsto> stamped ss actor v1]
      = [r_ID v1 \<mapsto> stamped ss actor v1] ++ store_of (db_tables s)"
    by (intro map_add_comm) auto
  then have "store_of (db_tables s') = (store_of (db_tables s))(r_ID v1 \<mapsto> stamped ss actor v1)"
    using c(4) by (simp add: store_of_def)
  with c new show ?thesis by (auto simp: domIff)
qed

end
