(* ===== verification/Audit_Service.thy ===== *)
theory Audit_Service
  imports Audit_Store
begin

text \<open>
  \<open>internal/audit/service.go\<close>.  A \<open>Service\<close> is what it was built with: a repository (an
  interface in the code, so three functions on a world of type \<open>'s\<close>), a transactor, a clock,
  the application verifier, and the library calls \<open>redact.JSON\<close>, \<open>uuid.Parse\<close>,
  \<open>uuid.NewString\<close> and \<open>Format(time.RFC3339Nano)\<close> (which depends on the location a time
  value carries).  The caller is the principal of the context, if there is one.  Every
  operation returns its result and the world it leaves.
\<close>

definition ErrNotGranted :: goerr where
  "ErrNotGranted = ErrVar ''application access is not granted''"

record 's service =
  sv_create :: "audit_record \<Rightarrow> 's \<Rightarrow> goerr option \<times> 's"
  sv_get :: "string \<Rightarrow> string \<Rightarrow> 's \<Rightarrow> (goerr + audit_record) \<times> 's"
  sv_query :: "audit_filter \<Rightarrow> 's \<Rightarrow> (goerr + audit_record list \<times> int) \<times> 's"
  sv_within :: "principal option \<Rightarrow> ('s \<Rightarrow> goerr option \<times> 's) \<Rightarrow> 's \<Rightarrow> goerr option \<times> 's"
  sv_now :: "'s \<Rightarrow> time \<times> 's"
  sv_verify :: "string \<Rightarrow> string \<Rightarrow> 's \<Rightarrow> goerr option \<times> 's"
  sv_new_uuid :: "'s \<Rightarrow> string \<times> 's"
  sv_redact :: "string \<Rightarrow> goerr + string"
  sv_uuid_parse :: "string \<Rightarrow> goerr option"
  sv_type_name :: "ptype \<Rightarrow> string"
  sv_format_time :: "time \<Rightarrow> string"

section \<open>Access checks\<close>

definition enforce_tenant :: "principal \<Rightarrow> string \<Rightarrow> goerr option" where
  "enforce_tenant caller requested =
     (if p_Type caller = TypeUser \<and>
         (trim_space (p_TenantID caller) = [] \<or> p_TenantID caller \<noteq> trim_space requested)
      then Some (app_forbidden ''tenant access denied'') else None)"

definition verify_application :: "'s service \<Rightarrow> string \<Rightarrow> string \<Rightarrow> bool \<Rightarrow> 's \<Rightarrow> goerr option \<times> 's" where
  "verify_application sv tenant_id application_id required w =
     (let tenant = trim_space tenant_id; application = trim_space application_id in
      if application = [] then
        (if required
         then (Some (app_invalid ''application_id is required for user audit reads'' None), w)
         else (None, w))
      else if tenant = [] then (Some (app_invalid ''application_id requires tenant_id'' None), w)
      else (case sv_verify sv tenant application w of
          (Some err, w1) \<Rightarrow>
            (if errors_is err ErrNotGranted
             then (Some (app_forbidden ''application access denied''), w1)
             else (Some (app_unavailable ''application access verification unavailable'' (Some err)), w1))
        | (None, w1) \<Rightarrow> (None, w1)))"

text \<open>The check the operations make for a user, and only for a user.\<close>

definition verify_user :: "'s service \<Rightarrow> principal \<Rightarrow> string \<Rightarrow> string \<Rightarrow> bool \<Rightarrow> 's \<Rightarrow> goerr option \<times> 's" where
  "verify_user sv caller tenant_id application_id required w =
     (if p_Type caller = TypeUser
      then verify_application sv tenant_id application_id required w else (None, w))"

section \<open>Record\<close>

definition trim_record :: "audit_record \<Rightarrow> audit_record" where
  "trim_record v = v\<lparr>r_TenantID := trim_space (r_TenantID v),
     r_ApplicationID := trim_space (r_ApplicationID v), r_Action := trim_space (r_Action v),
     r_ResourceType := trim_space (r_ResourceType v), r_ResourceID := trim_space (r_ResourceID v),
     r_SourceService := trim_space (r_SourceService v)\<rparr>"

text \<open>
  The identifier: a new one when the caller gave none; otherwise it must parse, and a record
  already stored under it is the answer (\<open>Inl\<close> of the final result).
\<close>

definition record_identity :: "'s service \<Rightarrow> audit_record \<Rightarrow> 's
    \<Rightarrow> ((goerr + audit_record) + audit_record) \<times> 's" where
  "record_identity sv v w =
     (if r_ID v = [] then
        (let (ident, w1) = sv_new_uuid sv w in (Inr (v\<lparr>r_ID := ident\<rparr>), w1))
      else (case sv_uuid_parse sv (r_ID v) of
          Some err \<Rightarrow> (Inl (Inl (app_invalid ''id must be a valid UUID'' (Some err))), w)
        | None \<Rightarrow> (case sv_get sv (r_ID v) (r_TenantID v) w of
              (Inr existing, w1) \<Rightarrow> (Inl (Inr existing), w1)
            | (Inl err, w1) \<Rightarrow>
                (if errors_is err ErrNotFound then (Inr v, w1)
                 else (Inl (Inl (app_internal (Some err))), w1)))))"

text \<open>The fields the service fills in.\<close>

definition complete_record :: "'s service \<Rightarrow> principal \<Rightarrow> time \<Rightarrow> string \<Rightarrow> string \<Rightarrow> audit_record \<Rightarrow> audit_record" where
  "complete_record sv caller now old new v =
     (let v1 = (if r_ActorID v = []
                then v\<lparr>r_ActorID := p_ID caller, r_ActorType := sv_type_name sv (p_Type caller)\<rparr> else v);
          v2 = (if is_zero (r_OccurredAt v1) then v1\<lparr>r_OccurredAt := now\<rparr> else v1)
      in v2\<lparr>r_BeforeSummary := old, r_AfterSummary := new, r_Version := 1,
            r_CreatedAt := now, r_UpdatedAt := now, r_CreatedBy := p_ID caller,
            r_UpdatedBy := p_ID caller\<rparr>)"

text \<open>
  The write: the transaction, and the answer to a duplicate that another writer's insert
  caused after the lookup.
\<close>

definition record_store :: "'s service \<Rightarrow> principal \<Rightarrow> audit_record \<Rightarrow> 's \<Rightarrow> (goerr + audit_record) \<times> 's" where
  "record_store sv caller v w =
     (case sv_within sv (Some caller) (sv_create sv v) w of
        (None, w1) \<Rightarrow> (Inr v, w1)
      | (Some err, w1) \<Rightarrow>
          (if errors_is err ErrDuplicate then
             (case sv_get sv (r_ID v) (r_TenantID v) w1 of
                (Inr existing, w2) \<Rightarrow> (Inr existing, w2)
              | (Inl _, w2) \<Rightarrow> (Inl (app_internal (Some err)), w2))
           else (Inl (app_internal (Some err)), w1)))"

definition service_record :: "'s service \<Rightarrow> principal option \<Rightarrow> audit_record \<Rightarrow> 's
    \<Rightarrow> (goerr + audit_record) \<times> 's" where
  "service_record sv ctx value w =
     (let v = trim_record value in
      if r_Action v = [] \<or> r_ResourceType v = [] \<or> r_ResourceID v = [] \<or> r_SourceService v = []
      then (Inl (app_invalid ''action, resource_type, resource_id and source_service are required'' None), w)
      else (case ctx of
          None \<Rightarrow> (Inl (app_unauthorized ''authenticated actor is required''), w)
        | Some caller \<Rightarrow>
            (case enforce_tenant caller (r_TenantID v) of
               Some err \<Rightarrow> (Inl err, w)
             | None \<Rightarrow>
               (case verify_user sv caller (r_TenantID v) (r_ApplicationID v) False w of
                  (Some err, w1) \<Rightarrow> (Inl err, w1)
                | (None, w1) \<Rightarrow>
                  (case sv_redact sv (r_BeforeSummary v) of
                     Inl err \<Rightarrow> (Inl (app_invalid ''before_summary must be valid JSON'' (Some err)), w1)
                   | Inr old \<Rightarrow>
                     (case sv_redact sv (r_AfterSummary v) of
                        Inl err \<Rightarrow> (Inl (app_invalid ''after_summary must be valid JSON'' (Some err)), w1)
                      | Inr new \<Rightarrow>
                        (let (now, w2) = sv_now sv w1 in
                         (case record_identity sv v w2 of
                            (Inl answer, w3) \<Rightarrow> (answer, w3)
                          | (Inr v1, w3) \<Rightarrow>
                              record_store sv caller (complete_record sv caller now old new v1) w3))))))))"

section \<open>Get\<close>

definition service_get :: "'s service \<Rightarrow> principal option \<Rightarrow> string \<Rightarrow> string \<Rightarrow> 's
    \<Rightarrow> (goerr + audit_record) \<times> 's" where
  "service_get sv ctx ident tenant_id w = (case ctx of
      None \<Rightarrow> (Inl (app_unauthorized ''authenticated actor is required''), w)
    | Some caller \<Rightarrow>
        (case enforce_tenant caller tenant_id of
           Some err \<Rightarrow> (Inl err, w)
         | None \<Rightarrow>
           (case sv_get sv (trim_space ident) (trim_space tenant_id) w of
              (Inl err, w1) \<Rightarrow>
                (if errors_is err ErrNotFound then (Inl (app_not_found ''audit record not found''), w1)
                 else (Inl (app_internal (Some err)), w1))
            | (Inr value, w1) \<Rightarrow>
                (case verify_user sv caller (r_TenantID value) (r_ApplicationID value) False w1 of
                   (Some err, w2) \<Rightarrow> (Inl err, w2)
                 | (None, w2) \<Rightarrow> (Inr value, w2)))))"

section \<open>Query\<close>

text \<open>The loop of \<open>normalizeFilter\<close> over the identifiers, with its set of those seen.\<close>

fun normalize_ids :: "string set \<Rightarrow> string list \<Rightarrow> string list" where
  "normalize_ids seen [] = []"
| "normalize_ids seen (ident # rest) =
     (let t = trim_space ident in
      if t = [] then normalize_ids seen rest
      else if t \<in> seen then normalize_ids seen rest
      else t # normalize_ids (insert t seen) rest)"

definition normalize_filter :: "audit_filter \<Rightarrow> audit_filter" where
  "normalize_filter f = f\<lparr>f_Keyword := trim_space (f_Keyword f),
     f_TenantID := trim_space (f_TenantID f), f_ApplicationID := trim_space (f_ApplicationID f),
     f_ActorID := trim_space (f_ActorID f), f_ActorType := trim_space (f_ActorType f),
     f_Action := trim_space (f_Action f), f_ResourceType := trim_space (f_ResourceType f),
     f_ResourceID := trim_space (f_ResourceID f), f_RequestID := trim_space (f_RequestID f),
     f_TraceID := trim_space (f_TraceID f), f_SourceService := trim_space (f_SourceService f),
     f_IDs := normalize_ids {} (f_IDs f)\<rparr>"

definition max_keyword_range :: duration where
  "max_keyword_range = 31 * 24 * hour"

text \<open>The checks of \<open>Query\<close> on the normalised filter, in the order of the code.\<close>

definition filter_checks :: "'s service \<Rightarrow> audit_filter \<Rightarrow> (bool \<times> goerr) list" where
  "filter_checks sv f =
     [(length (f_IDs f) > 100, app_invalid ''ids must not contain more than 100 values'' None)]
     @ map (\<lambda>ident. (sv_uuid_parse sv ident \<noteq> None,
          app_invalid ''ids must contain valid UUID values'' (sv_uuid_parse sv ident))) (f_IDs f)
     @ [(length (f_Keyword f) > 200, app_invalid ''keyword must not exceed 200 bytes'' None),
        (\<not> is_zero (f_OccurredFrom f) \<and> \<not> is_zero (f_OccurredTo f) \<and> f_OccurredTo f < f_OccurredFrom f,
         app_invalid ''occurred_from must not be after occurred_to'' None),
        (f_Keyword f \<noteq> [] \<and> (is_zero (f_OccurredFrom f) \<or> is_zero (f_OccurredTo f) \<or>
           max_keyword_range < time_sub (f_OccurredTo f) (f_OccurredFrom f)),
         app_invalid ''keyword search requires an occurred_at range no longer than 31 days'' None)]"

definition default_paging :: "audit_filter \<Rightarrow> audit_filter" where
  "default_paging f =
     (let f1 = (if f_Page f \<le> 0 then f\<lparr>f_Page := 1\<rparr> else f)
      in if f_PageSize f1 \<le> 0 then f1\<lparr>f_PageSize := 20\<rparr> else f1)"

definition service_query :: "'s service \<Rightarrow> principal option \<Rightarrow> audit_filter \<Rightarrow> 's
    \<Rightarrow> (goerr + audit_page) \<times> 's" where
  "service_query sv ctx flt w = (case ctx of
      None \<Rightarrow> (Inl (app_unauthorized ''authenticated actor is required''), w)
    | Some caller \<Rightarrow>
        if trim_space (f_TenantID flt) = [] then (Inl (app_invalid ''tenant_id is required'' None), w)
        else (case enforce_tenant caller (f_TenantID flt) of
           Some err \<Rightarrow> (Inl err, w)
         | None \<Rightarrow>
           (let f = normalize_filter flt in
            (case first_error (filter_checks sv f) of
               Some err \<Rightarrow> (Inl err, w)
             | None \<Rightarrow>
               (case verify_user sv caller (f_TenantID f) (f_ApplicationID f) True w of
                  (Some err, w1) \<Rightarrow> (Inl err, w1)
                | (None, w1) \<Rightarrow>
                  (let g = default_paging f in
                   if f_PageSize g > 100
                   then (Inl (app_invalid ''page_size must not exceed 100'' None), w1)
                   else (case sv_query sv g w1 of
                       (Inl err, w2) \<Rightarrow> (Inl (app_internal (Some err)), w2)
                     | (Inr (values, n), w2) \<Rightarrow>
                         (Inr \<lparr>pg_Records = values, pg_Total = n, pg_Page = f_Page g,
                               pg_PageSize = f_PageSize g\<rparr>, w2))))))))"

end
