(* ===== verification/Audit_Export.thy ===== *)
theory Audit_Export
  imports Audit_Service
begin

text \<open>
  \<open>Service.Export\<close> of \<open>internal/audit/service.go\<close>: the loop that pages through \<open>Query\<close>,
  the neutralised fields of a record, and the CSV text.  The CSV writer is Go's
  \<open>encoding/csv\<close> with its default settings; an RFC 4180 reader is defined beside it, so
  that the text can be shown to say what was exported.
\<close>

section \<open>CSV\<close>

definition csv_safe :: "string \<Rightarrow> string" where
  "csv_safe value = (case value of
      [] \<Rightarrow> value
    | c # _ \<Rightarrow> if c \<in> set ''=+-@'' then CHR 0x27 # value else value)"

definition csv_needs_quotes :: "string \<Rightarrow> bool" where
  "csv_needs_quotes field \<longleftrightarrow> field \<noteq> [] \<and>
     (field = [CHR 0x5C, CHR ''.''] \<or>
      list_ex (\<lambda>c. c = CHR 0x0A \<or> c = CHR 0x0D \<or> c = CHR 0x22 \<or> c = CHR '','') field \<or>
      strip_first white_spaces field \<noteq> None)"

definition csv_escape :: "char \<Rightarrow> string" where
  "csv_escape c = (if c = CHR 0x22 then [CHR 0x22, CHR 0x22] else [c])"

definition csv_field :: "string \<Rightarrow> string" where
  "csv_field field =
     (if csv_needs_quotes field
      then [CHR 0x22] @ concat (map csv_escape field) @ [CHR 0x22] else field)"

definition csv_line :: "string list \<Rightarrow> string" where
  "csv_line cols = join '','' (map csv_field cols) @ [CHR 0x0A]"

section \<open>A reader for CSV\<close>

datatype csv_mode = FieldStart | Plain | Quoted | QuoteSeen

fun csv_run :: "csv_mode \<Rightarrow> string \<Rightarrow> string list \<Rightarrow> string list list \<Rightarrow> string \<Rightarrow> string list list option" where
  "csv_run FieldStart cur fs rows [] = (if fs = [] then Some (rev rows) else None)"
| "csv_run _ cur fs rows [] = None"
| "csv_run Quoted cur fs rows (c # s) =
     (if c = CHR 0x22 then csv_run QuoteSeen cur fs rows s else csv_run Quoted (c # cur) fs rows s)"
| "csv_run m cur fs rows (c # s) =
     (if c = CHR '','' then csv_run FieldStart [] (rev cur # fs) rows s
      else if c = CHR 0x0A then csv_run FieldStart [] [] (rev (rev cur # fs) # rows) s
      else if c = CHR 0x22 \<and> m = FieldStart then csv_run Quoted [] fs rows s
      else if c = CHR 0x22 \<and> m = QuoteSeen then csv_run Quoted (CHR 0x22 # cur) fs rows s
      else if c = CHR 0x22 \<or> c = CHR 0x0D \<or> m = QuoteSeen then None
      else csv_run Plain (c # cur) fs rows s)"

definition csv_read :: "string \<Rightarrow> string list list option" where
  "csv_read text = csv_run FieldStart [] [] [] text"

section \<open>Export\<close>

definition export_header :: "string list" where
  "export_header = [''id'', ''tenant_id'', ''application_id'', ''actor_id'', ''actor_type'',
     ''action'', ''resource_type'', ''resource_id'', ''request_id'', ''trace_id'',
     ''source_service'', ''before_summary'', ''after_summary'', ''occurred_at'', ''version'',
     ''created_at'', ''created_by'']"

definition export_fields :: "'s service \<Rightarrow> audit_record \<Rightarrow> string list" where
  "export_fields sv v = map csv_safe
     [r_ID v, r_TenantID v, r_ApplicationID v, r_ActorID v, r_ActorType v, r_Action v,
      r_ResourceType v, r_ResourceID v, r_RequestID v, r_TraceID v, r_SourceService v,
      r_BeforeSummary v, r_AfterSummary v, sv_format_time sv (r_OccurredAt v),
      show_int (r_Version v), sv_format_time sv (r_CreatedAt v), r_CreatedBy v]"

text \<open>
  The loop: \<open>exported\<close> grows by at least the page size of a round that goes on, so it ends
  whatever the repository answers.
\<close>

definition export_page :: "audit_filter \<Rightarrow> int \<Rightarrow> int \<Rightarrow> int \<Rightarrow> audit_filter" where
  "export_page flt max_records page exported =
     flt\<lparr>f_Page := page, f_PageSize := min 100 (max_records - exported)\<rparr>"

function export_loop :: "'s service \<Rightarrow> principal option \<Rightarrow> audit_filter \<Rightarrow> int \<Rightarrow> int \<Rightarrow> int
    \<Rightarrow> string list list \<Rightarrow> 's \<Rightarrow> (goerr + string list list \<times> int) \<times> 's" where
  "export_loop sv ctx flt max_records page exported rows w =
     (if exported < max_records then
        (case service_query sv ctx (export_page flt max_records page exported) w of
           (Inl err, w1) \<Rightarrow> (Inl err, w1)
         | (Inr result, w1) \<Rightarrow>
             (let n = int (length (pg_Records result));
                  rows1 = rows @ map (export_fields sv) (pg_Records result)
              in if n < f_PageSize (export_page flt max_records page exported) \<or>
                    pg_Total result \<le> exported + n
                 then (Inr (rows1, exported + n), w1)
                 else export_loop sv ctx flt max_records (page + 1) (exported + n) rows1 w1))
      else (Inr (rows, exported), w))"
  by pat_completeness auto
termination
  by (relation "measure (\<lambda>(sv, ctx, flt, max_records, page, exported, rows, w).
        nat (max_records - exported))") (auto simp: export_page_def)

declare export_loop.simps [simp del]

definition service_export :: "'s service \<Rightarrow> principal option \<Rightarrow> audit_filter \<Rightarrow> int \<Rightarrow> 's
    \<Rightarrow> (goerr + string \<times> int) \<times> 's" where
  "service_export sv ctx flt max_records w =
     (let m = (if max_records \<le> 0 then 10000 else max_records) in
      if m > 10000 then (Inl (app_invalid ''max_records must not exceed 10000'' None), w)
      else (case export_loop sv ctx flt m 1 0 [] w of
          (Inl err, w1) \<Rightarrow> (Inl err, w1)
        | (Inr (rows, exported), w1) \<Rightarrow>
            (Inr (concat (map csv_line (export_header # rows)), exported), w1)))"

section \<open>The text says what was exported\<close>

lemma csv_run_plain:
  assumes "list_all (\<lambda>c. c \<noteq> CHR 0x0A \<and> c \<noteq> CHR 0x0D \<and> c \<noteq> CHR 0x22 \<and> c \<noteq> CHR '','') f"
  shows "csv_run Plain cur fs rows (f @ s) = csv_run Plain (rev f @ cur) fs rows s"
  using assms by (induction f arbitrary: cur) auto

lemma csv_run_quoted:
  "csv_run Quoted cur fs rows (concat (map csv_escape f) @ CHR 0x22 # s)
     = csv_run QuoteSeen (rev f @ cur) fs rows s"
  by (induction f arbitrary: cur) (auto simp: csv_escape_def)

text \<open>What the reader does with a written field and the separator after it.\<close>

lemma csv_run_field:
  assumes "d = CHR '','' \<or> d = CHR 0x0A"
  shows "csv_run FieldStart [] fs rows (csv_field f @ d # s)
    = (if d = CHR '','' then csv_run FieldStart [] (f # fs) rows s
       else csv_run FieldStart [] [] (rev (f # fs) # rows) s)"
proof (cases "csv_needs_quotes f")
  case True
  have "csv_run FieldStart [] fs rows (csv_field f @ d # s) = csv_run QuoteSeen (rev f) fs rows (d # s)"
    using True csv_run_quoted [of "[]" fs rows f "d # s"] by (simp add: csv_field_def)
  with assms show ?thesis by auto
next
  case False
  show ?thesis
  proof (cases f)
    case Nil
    with False assms show ?thesis by (auto simp: csv_field_def)
  next
    case (Cons c cs)
    with False have p: "list_all (\<lambda>c. c \<noteq> CHR 0x0A \<and> c \<noteq> CHR 0x0D \<and> c \<noteq> CHR 0x22 \<and> c \<noteq> CHR '','') (c # cs)"
      by (auto simp: csv_needs_quotes_def list_all_iff list_ex_iff)
    then have "csv_run FieldStart [] fs rows (c # cs @ d # s) = csv_run Plain [c] fs rows (cs @ d # s)"
      by simp
    also have "\<dots> = csv_run Plain (rev (c # cs)) fs rows (d # s)"
      using p csv_run_plain [of cs "[c]" fs rows "d # s"] by simp
    finally show ?thesis using False Cons assms by (auto simp: csv_field_def)
  qed
qed

lemma csv_run_line:
  "cols \<noteq> [] \<Longrightarrow> csv_run FieldStart [] fs rows (csv_line cols @ s)
     = csv_run FieldStart [] [] ((rev fs @ cols) # rows) s"
proof (induction cols arbitrary: fs)
  case (Cons f cols)
  show ?case
  proof (cases cols)
    case Nil
    then show ?thesis by (simp add: csv_line_def csv_run_field)
  next
    case (Cons g gs)
    then have "csv_line (f # cols) @ s = csv_field f @ CHR '','' # (csv_line cols @ s)"
      by (simp add: csv_line_def)
    with Cons.IH [of "f # fs"] Cons show ?thesis by (simp add: csv_run_field)
  qed
qed simp

lemma csv_run_lines:
  "\<forall>cols \<in> set lines. cols \<noteq> [] \<Longrightarrow>
     csv_run FieldStart [] [] rows (concat (map csv_line lines)) = Some (rev rows @ lines)"
  by (induction lines arbitrary: rows) (auto simp: csv_run_line)

lemma csv_read_write: "\<forall>cols \<in> set lines. cols \<noteq> [] \<Longrightarrow>
    csv_read (concat (map csv_line lines)) = Some lines"
  by (simp add: csv_read_def csv_run_lines)

lemma export_fields_nonempty [simp]: "export_fields sv v \<noteq> []"
  by (simp add: export_fields_def)

lemma csv_safe_hd: "csv_safe v = c # cs \<Longrightarrow> c \<notin> set ''=+-@''"
  by (auto simp: csv_safe_def split: list.splits if_splits)

end
