(* ===== verification/Audit_Laws.thy ===== *)
theory Audit_Laws
  imports Audit_Export
begin

text \<open>
  The contracts the audit service relies on, as locales over any service value, and what the
  service makes of them.  \<open>audit_world\<close>: every call to the outside moves the world along an
  order.  \<open>audit_reads\<close>: what the repository returns is in the log and matches what was asked.
  \<open>Audit_World\<close> interprets them on the SQL service.
\<close>

section \<open>Small facts about the service\<close>

lemma enforce_tenant_None:
  "enforce_tenant caller tn = None \<longleftrightarrow>
     (p_Type caller = TypeUser \<longrightarrow> trim_space (p_TenantID caller) \<noteq> [] \<and> p_TenantID caller = trim_space tn)"
  by (auto simp: enforce_tenant_def)

lemma verify_user_other [simp]: "p_Type caller \<noteq> TypeUser \<Longrightarrow> verify_user sv caller t a b w = (None, w)"
  by (simp add: verify_user_def)

lemma access_checks_trim [simp]:
  "enforce_tenant caller (trim_space tn) = enforce_tenant caller tn"
  "verify_user sv caller (trim_space tn) (trim_space a) req w = verify_user sv caller tn a req w"
  by (simp_all add: enforce_tenant_def verify_user_def verify_application_def)

lemma verify_user_granted:
  assumes "verify_user sv caller t a req w = (None, w')" "p_Type caller = TypeUser"
  shows "(trim_space a = [] \<and> \<not> req \<and> w' = w) \<or>
    (trim_space a \<noteq> [] \<and> trim_space t \<noteq> [] \<and> sv_verify sv (trim_space t) (trim_space a) w = (None, w'))"
  using assms by (auto simp: verify_user_def verify_application_def Let_def split: if_splits prod.splits option.splits)

lemma trim_record_fields [simp]:
  "r_ID (trim_record v) = r_ID v" "r_TenantID (trim_record v) = trim_space (r_TenantID v)"
  "r_ApplicationID (trim_record v) = trim_space (r_ApplicationID v)"
  "r_Action (trim_record v) = trim_space (r_Action v)"
  "r_ResourceType (trim_record v) = trim_space (r_ResourceType v)"
  "r_ResourceID (trim_record v) = trim_space (r_ResourceID v)"
  "r_SourceService (trim_record v) = trim_space (r_SourceService v)"
  "r_BeforeSummary (trim_record v) = r_BeforeSummary v"
  "r_AfterSummary (trim_record v) = r_AfterSummary v"
  by (simp_all add: trim_record_def)

lemma complete_record_fields [simp]:
  "r_ID (complete_record sv c now b a v) = r_ID v"
  "r_TenantID (complete_record sv c now b a v) = r_TenantID v"
  "r_ApplicationID (complete_record sv c now b a v) = r_ApplicationID v"
  "r_BeforeSummary (complete_record sv c now b a v) = b"
  "r_AfterSummary (complete_record sv c now b a v) = a"
  "r_Version (complete_record sv c now b a v) = 1"
  "r_CreatedBy (complete_record sv c now b a v) = p_ID c"
  "r_UpdatedBy (complete_record sv c now b a v) = p_ID c"
  "r_CreatedAt (complete_record sv c now b a v) = now"
  by (simp_all add: complete_record_def Let_def)

lemma normalize_filter_fields [simp]:
  "f_TenantID (normalize_filter f) = trim_space (f_TenantID f)"
  "f_ApplicationID (normalize_filter f) = trim_space (f_ApplicationID f)"
  "f_Keyword (normalize_filter f) = trim_space (f_Keyword f)"
  "f_IDs (normalize_filter f) = normalize_ids {} (f_IDs f)"
  "f_OccurredFrom (normalize_filter f) = f_OccurredFrom f"
  "f_OccurredTo (normalize_filter f) = f_OccurredTo f"
  "f_Page (normalize_filter f) = f_Page f" "f_PageSize (normalize_filter f) = f_PageSize f"
  by (simp_all add: normalize_filter_def)

lemma default_paging_fields [simp]:
  "f_TenantID (default_paging f) = f_TenantID f"
  "f_ApplicationID (default_paging f) = f_ApplicationID f"
  "f_Page (default_paging f) = (if f_Page f \<le> 0 then 1 else f_Page f)"
  "f_PageSize (default_paging f) = (if f_PageSize f \<le> 0 then 20 else f_PageSize f)"
  by (simp_all add: default_paging_def Let_def)

lemma set_normalize_ids: "set (normalize_ids seen ids) = trim_space ` set ids - seen - {[]}"
  by (induction seen ids rule: normalize_ids.induct) (auto simp: Let_def)

lemma distinct_normalize_ids: "distinct (normalize_ids seen ids)"
  by (induction seen ids rule: normalize_ids.induct) (auto simp: Let_def set_normalize_ids)

lemma normalize_ids_fixed:
  "distinct ids \<Longrightarrow> set ids \<inter> seen = {} \<Longrightarrow> \<forall>i \<in> set ids. trim_space i = i \<and> i \<noteq> [] \<Longrightarrow>
     normalize_ids seen ids = ids"
  by (induction seen ids rule: normalize_ids.induct) (auto simp: Let_def)

lemma normalize_filter_idem [simp]: "normalize_filter (normalize_filter f) = normalize_filter f"
proof -
  have "normalize_ids {} (normalize_ids {} (f_IDs f)) = normalize_ids {} (f_IDs f)"
    by (rule normalize_ids_fixed) (auto simp: distinct_normalize_ids set_normalize_ids)
  then show ?thesis by (simp add: normalize_filter_def)
qed

text \<open>How the successful runs of the operations go.\<close>

lemma service_get_ok:
  assumes "service_get sv ctx i tn w = (Inr r, w')"
  obtains caller w1 where "ctx = Some caller" "enforce_tenant caller tn = None"
    "sv_get sv (trim_space i) (trim_space tn) w = (Inr r, w1)"
    "verify_user sv caller (r_TenantID r) (r_ApplicationID r) False w1 = (None, w')"
  using assms by (auto simp: service_get_def split: option.splits prod.splits sum.splits if_splits)

lemma service_query_ok:
  assumes "service_query sv ctx flt w = (Inr page, w')"
  obtains caller w1 where "ctx = Some caller" "trim_space (f_TenantID flt) \<noteq> []"
    "enforce_tenant caller (f_TenantID flt) = None"
    "first_error (filter_checks sv (normalize_filter flt)) = None"
    "verify_user sv caller (trim_space (f_TenantID flt)) (trim_space (f_ApplicationID flt)) True w = (None, w1)"
    "f_PageSize (default_paging (normalize_filter flt)) \<le> 100"
    "sv_query sv (default_paging (normalize_filter flt)) w1 = (Inr (pg_Records page, pg_Total page), w')"
    "pg_Page page = f_Page (default_paging (normalize_filter flt))"
    "pg_PageSize page = f_PageSize (default_paging (normalize_filter flt))"
  using assms
  by (auto simp: service_query_def Let_def simp del: default_paging_fields first_error_None
      split: option.splits prod.splits sum.splits if_splits)

lemma service_record_ok:
  assumes "service_record sv ctx value w = (Inr r, w')"
  obtains caller w1 w2 w3 now old new ident where "ctx = Some caller"
    "enforce_tenant caller (r_TenantID (trim_record value)) = None"
    "verify_user sv caller (r_TenantID (trim_record value)) (r_ApplicationID (trim_record value)) False w = (None, w1)"
    "sv_redact sv (r_BeforeSummary (trim_record value)) = Inr old"
    "sv_redact sv (r_AfterSummary (trim_record value)) = Inr new"
    "sv_now sv w1 = (now, w2)" "record_identity sv (trim_record value) w2 = (ident, w3)"
    "(ident = Inl (Inr r) \<and> w' = w3) \<or>
     (\<exists>v1. ident = Inr v1 \<and> record_store sv caller (complete_record sv caller now old new v1) w3 = (Inr r, w'))"
  using assms
  by (auto simp: service_record_def Let_def simp del: trim_record_fields
      split: option.splits prod.splits sum.splits if_splits)

lemma record_identity_cases:
  assumes "record_identity sv v w = (ident, w')"
  shows "case ident of
      Inl (Inl e) \<Rightarrow> True
    | Inl (Inr r) \<Rightarrow> sv_get sv (r_ID v) (r_TenantID v) w = (Inr r, w') \<and> r_ID v \<noteq> []
    | Inr v1 \<Rightarrow> (\<exists>i. v1 = v\<lparr>r_ID := i\<rparr> \<and> (r_ID v \<noteq> [] \<longrightarrow> i = r_ID v))"
  using assms
  by (auto simp: record_identity_def split: if_splits option.splits prod.splits sum.splits
      intro: exI [of _ "r_ID v"])

lemma record_store_cases:
  assumes "record_store sv caller v w = (Inr r, w')"
  shows "(r = v \<and> sv_within sv (Some caller) (sv_create sv v) w = (None, w')) \<or>
    (\<exists>w1. sv_get sv (r_ID v) (r_TenantID v) w1 = (Inr r, w'))"
  using assms by (auto simp: record_store_def split: option.splits prod.splits sum.splits if_splits)

section \<open>Every call moves the world forward\<close>

locale audit_reader =
  fixes sv :: "'s service" and ok :: "'s \<Rightarrow> bool" and le :: "'s \<Rightarrow> 's \<Rightarrow> bool"
  assumes le_refl: "le w w"
    and le_trans: "le w w1 \<Longrightarrow> le w1 w2 \<Longrightarrow> le w w2"
    and ok_le: "ok w \<Longrightarrow> le w w1 \<Longrightarrow> ok w1"
    and get_le: "ok w \<Longrightarrow> sv_get sv i tn w = (r1, w1) \<Longrightarrow> le w w1"
    and query_le: "ok w \<Longrightarrow> sv_query sv f w = (r2, w1) \<Longrightarrow> le w w1"
    and now_le: "ok w \<Longrightarrow> sv_now sv w = (n, w1) \<Longrightarrow> le w w1"
    and verify_le: "ok w \<Longrightarrow> sv_verify sv tn a w = (r4, w1) \<Longrightarrow> le w w1"
    and uuid_le: "ok w \<Longrightarrow> sv_new_uuid sv w = (u, w1) \<Longrightarrow> le w w1"
begin

lemma verify_user_le: "ok w \<Longrightarrow> verify_user sv caller t a b w = (r, w') \<Longrightarrow> le w w'"
  by (auto simp: verify_user_def verify_application_def Let_def le_refl
      split: if_splits prod.splits option.splits dest: verify_le)

lemma record_identity_le: "ok w \<Longrightarrow> record_identity sv v w = (r, w') \<Longrightarrow> le w w'"
  by (auto simp: record_identity_def Let_def le_refl
      split: if_splits prod.splits option.splits sum.splits dest: uuid_le get_le)

lemma service_get_le:
  assumes "ok w" "service_get sv ctx i tn w = (r, w')"
  shows "le w w'"
proof -
  obtain a w1 where 1: "sv_get sv (trim_space i) (trim_space tn) w = (a, w1)" by fastforce
  have l1: "le w w1" by (rule get_le [OF assms(1) 1])
  have o1: "ok w1" by (rule ok_le [OF assms(1) l1])
  have "w' = w \<or> w' = w1 \<or> le w1 w'" using assms(2) 1 verify_user_le [OF o1]
    by (auto simp: service_get_def split: option.splits prod.splits sum.splits if_splits)
  with l1 show ?thesis using le_refl le_trans by blast
qed

lemma service_query_le:
  assumes "ok w" "service_query sv ctx flt w = (r, w')"
  shows "le w w'"
proof (cases ctx)
  case None
  with assms show ?thesis by (simp add: service_query_def le_refl)
next
  case (Some caller)
  let ?f = "normalize_filter flt"
  obtain a w1 where 1: "verify_user sv caller (f_TenantID ?f) (f_ApplicationID ?f) True w = (a, w1)"
    by fastforce
  have l1: "le w w1" by (rule verify_user_le [OF assms(1) 1])
  have o1: "ok w1" by (rule ok_le [OF assms(1) l1])
  have "w' = w \<or> w' = w1 \<or> le w1 w'" using assms(2) 1 Some query_le [OF o1]
    by (auto simp: service_query_def Let_def simp del: normalize_filter_fields default_paging_fields first_error_None
        split: option.splits prod.splits sum.splits if_splits)
  with l1 show ?thesis using le_refl le_trans by blast
qed

lemma export_loop_le:
  "ok w \<Longrightarrow> export_loop sv ctx flt m page n rows w = (r, w') \<Longrightarrow> le w w'"
proof (induction "nat (m - n)" arbitrary: page n rows w rule: less_induct)
  case less
  let ?f = "export_page flt m page n"
  show ?case
  proof (cases "n < m")
    case False
    with less.prems show ?thesis by (subst (asm) export_loop.simps) (simp add: le_refl)
  next
    case True
    obtain q w1 where q: "service_query sv ctx ?f w = (q, w1)" by fastforce
    have l1: "le w w1" by (rule service_query_le [OF less.prems(1) q])
    have o1: "ok w1" by (rule ok_le [OF less.prems(1) l1])
    let ?k = "\<lambda>res. int (length (pg_Records res))"
    have "le w1 w'"
    proof (cases "\<exists>res. q = Inr res \<and> \<not> ?k res < f_PageSize ?f \<and> \<not> pg_Total res \<le> n + ?k res")
      case False
      then have "w' = w1" using less.prems(2) True q
        by (subst (asm) export_loop.simps) (auto simp: Let_def split: sum.splits if_splits)
      then show ?thesis by (simp add: le_refl)
    next
      case go: True
      then obtain res where res: "q = Inr res" "\<not> ?k res < f_PageSize ?f" by blast
      with go less.prems(2) True q have e: "export_loop sv ctx flt m (page + 1) (n + ?k res)
          (rows @ map (export_fields sv) (pg_Records res)) w1 = (r, w')"
        by (subst (asm) export_loop.simps) (simp add: Let_def)
      from True have "0 < f_PageSize ?f" by (simp add: export_page_def)
      with res(2) have "0 < ?k res" by linarith
      with True have "nat (m - (n + ?k res)) < nat (m - n)" by linarith
      from less.hyps [OF this o1 e] show ?thesis .
    qed
    with l1 show ?thesis by (rule le_trans)
  qed
qed

lemma service_export_le:
  assumes "ok w" "service_export sv ctx flt m w = (r, w')"
  shows "le w w'"
  using assms
  by (auto simp: service_export_def Let_def le_refl split: if_splits prod.splits sum.splits
      dest: export_loop_le)

text \<open>All of \<open>Record\<close> up to the write only reads.\<close>

lemma service_record_before:
  assumes "ok w" "service_record sv ctx value w = (r, w')"
  shows "le w w' \<or> (\<exists>caller v w3. ctx = Some caller \<and> r_TenantID v = trim_space (r_TenantID value) \<and>
    le w w3 \<and> record_store sv caller v w3 = (r, w'))"
proof (cases ctx)
  case None
  with assms show ?thesis by (auto simp: service_record_def Let_def le_refl split: if_splits)
next
  case (Some caller)
  let ?v = "trim_record value"
  obtain a w1 where 1: "verify_user sv caller (r_TenantID ?v) (r_ApplicationID ?v) False w = (a, w1)"
    by fastforce
  have l1: "le w w1" by (rule verify_user_le [OF assms(1) 1])
  have o1: "ok w1" by (rule ok_le [OF assms(1) l1])
  obtain now w2 where 2: "sv_now sv w1 = (now, w2)" by fastforce
  have l2: "le w w2" by (rule le_trans [OF l1 now_le [OF o1 2]])
  have o2: "ok w2" by (rule ok_le [OF assms(1) l2])
  obtain i w3 where 3: "record_identity sv ?v w2 = (i, w3)" by fastforce
  have l3: "le w w3" by (rule le_trans [OF l2 record_identity_le [OF o2 3]])
  have "w' \<in> {w, w1, w3} \<or> (\<exists>old new v1. i = Inr v1 \<and>
      record_store sv caller (complete_record sv caller now old new v1) w3 = (r, w'))"
    using assms(2) Some 1 2 3
    by (auto simp: service_record_def Let_def simp del: trim_record_fields
        split: option.splits if_splits prod.splits sum.splits)
  then show ?thesis
  proof
    assume "w' \<in> {w, w1, w3}"
    with l1 l3 le_refl show ?thesis by blast
  next
    assume "\<exists>old new v1. i = Inr v1 \<and>
      record_store sv caller (complete_record sv caller now old new v1) w3 = (r, w')"
    then obtain old new v1 where v1: "i = Inr v1"
      "record_store sv caller (complete_record sv caller now old new v1) w3 = (r, w')" by blast
    with record_identity_cases [OF 3] have "r_TenantID v1 = trim_space (r_TenantID value)" by auto
    with v1(2) l3 Some show ?thesis by (metis complete_record_fields(2))
  qed
qed

end

text \<open>With the law of the write, \<open>Record\<close> moves forward as well.\<close>

locale audit_world = audit_reader +
  assumes create_le: "ok w \<Longrightarrow> sv_within sv ctx (sv_create sv v) w = (r3, w1) \<Longrightarrow> le w w1"
begin

lemma record_store_le:
  assumes "ok w" "record_store sv caller v w = (r, w')"
  shows "le w w'"
proof -
  obtain e w1 where 1: "sv_within sv (Some caller) (sv_create sv v) w = (e, w1)" by fastforce
  have l: "le w w1" by (rule create_le [OF assms(1) 1])
  have "ok w1" by (rule ok_le [OF assms(1) l])
  then have "le w1 w'" using assms(2) 1
    by (auto simp: record_store_def le_refl split: option.splits if_splits prod.splits sum.splits
        dest: get_le)
  with l show ?thesis by (rule le_trans)
qed

lemma service_record_le:
  assumes "ok w" "service_record sv ctx value w = (r, w')"
  shows "le w w'"
  using service_record_before [OF assms]
proof
  assume "\<exists>caller v w3. ctx = Some caller \<and> r_TenantID v = trim_space (r_TenantID value) \<and>
      le w w3 \<and> record_store sv caller v w3 = (r, w')"
  then obtain caller v w3 where l: "le w w3" and st: "record_store sv caller v w3 = (r, w')" by blast
  from le_trans [OF l record_store_le [OF ok_le [OF assms(1) l] st]] show ?thesis .
qed

end

section \<open>Reads stay inside the caller's tenant and application\<close>

locale audit_reads =
  fixes sv :: "'s service" and log :: "'s \<Rightarrow> audit_record set"
    and canonical :: "string \<Rightarrow> string option"
  assumes get_sound: "sv_get sv i tn w = (Inr r, w1) \<Longrightarrow> canonical i = Some (r_ID r) \<and> r_TenantID r = tn \<and> r \<in> log w1"
    and query_sound: "sv_query sv f w = (Inr (rs, n), w1) \<Longrightarrow> r \<in> set rs \<Longrightarrow>
        r \<in> log w1 \<and> r_TenantID r = f_TenantID f \<and>
        (f_ApplicationID f \<noteq> [] \<longrightarrow> r_ApplicationID r = f_ApplicationID f)"
    and query_size: "sv_query sv f w = (Inr (rs, n), w1) \<Longrightarrow> int (length rs) \<le> max 0 (f_PageSize f)"
begin

lemma get_isolated:
  assumes "service_get sv (Some caller) i tn w = (Inr r, w')" "p_Type caller = TypeUser"
  shows "canonical (trim_space i) = Some (r_ID r) \<and> r_TenantID r = p_TenantID caller \<and>
    (trim_space (r_ApplicationID r) \<noteq> [] \<longrightarrow>
       (\<exists>w1. sv_verify sv (r_TenantID r) (trim_space (r_ApplicationID r)) w1 = (None, w')))"
proof -
  obtain w1 where 1: "enforce_tenant caller tn = None"
    "sv_get sv (trim_space i) (trim_space tn) w = (Inr r, w1)"
    "verify_user sv caller (r_TenantID r) (r_ApplicationID r) False w1 = (None, w')"
    using service_get_ok [OF assms(1)] by (metis option.inject)
  from get_sound [OF 1(2)] have r: "canonical (trim_space i) = Some (r_ID r)" "r_TenantID r = trim_space tn" by auto
  then have "trim_space (r_TenantID r) = r_TenantID r" by simp
  with r 1(1) assms(2) verify_user_granted [OF 1(3) assms(2)] show ?thesis
    by (auto simp: enforce_tenant_None)
qed

lemma query_isolated:
  assumes "service_query sv (Some caller) flt w = (Inr page, w')" "p_Type caller = TypeUser"
    and "r \<in> set (pg_Records page)"
  shows "r_TenantID r = p_TenantID caller \<and> r_ApplicationID r = trim_space (f_ApplicationID flt) \<and>
    (\<exists>w1. sv_verify sv (r_TenantID r) (r_ApplicationID r) w = (None, w1))"
proof -
  let ?g = "default_paging (normalize_filter flt)"
  obtain w1 where 1: "enforce_tenant caller (f_TenantID flt) = None"
    "verify_user sv caller (trim_space (f_TenantID flt)) (trim_space (f_ApplicationID flt)) True w = (None, w1)"
    "sv_query sv ?g w1 = (Inr (pg_Records page, pg_Total page), w')"
    using service_query_ok [OF assms(1)] by (metis option.inject)
  have v: "trim_space (f_ApplicationID flt) \<noteq> []"
    "sv_verify sv (trim_space (f_TenantID flt)) (trim_space (f_ApplicationID flt)) w = (None, w1)"
    using verify_user_granted [OF 1(2) assms(2)] by auto
  have "r_TenantID r = trim_space (f_TenantID flt)" "r_ApplicationID r = trim_space (f_ApplicationID flt)"
    using query_sound [OF 1(3) assms(3)] v by auto
  with v 1(1) assms(2) show ?thesis by (auto simp: enforce_tenant_None)
qed

lemma query_page_size:
  assumes "service_query sv ctx flt w = (Inr page, w')"
  shows "length (pg_Records page) \<le> 100"
proof -
  obtain w1 where "f_PageSize (default_paging (normalize_filter flt)) \<le> 100"
    "sv_query sv (default_paging (normalize_filter flt)) w1 = (Inr (pg_Records page, pg_Total page), w')"
    using service_query_ok [OF assms] by metis
  with query_size show ?thesis by fastforce
qed

end

end
