(* ===== verification/Audit_World.thy ===== *)
theory Audit_World
  imports Audit_Laws
begin

text \<open>
  The service as it runs: the SQL repository of \<open>Audit_Repository\<close> on the transactor of
  \<open>Sql_Database\<close>.  What is not the service's own code is in the record \<open>externals\<close>: the
  verdicts of the application service, the clock and the identifier source (each a function of
  the number of the call, so their answers may change from call to call), and the library
  functions.  \<open>NewService\<close> of the code is the same with a verifier that grants everything.
\<close>

record externals =
  x_driver :: "string option"
  x_sql :: sql_env
  x_now :: "nat \<Rightarrow> time"
  x_verify :: "nat \<Rightarrow> string \<Rightarrow> string \<Rightarrow> goerr option"
  x_uuid :: "nat \<Rightarrow> string"
  x_redact :: "string \<Rightarrow> goerr + string"
  x_uuid_parse :: "string \<Rightarrow> goerr option"
  x_type_name :: "ptype \<Rightarrow> string"
  x_format_time :: "time \<Rightarrow> string"

record world =
  w_db :: "audit_tables db"
  w_calls :: nat

definition on_db :: "(audit_tables db \<Rightarrow> 'a \<times> audit_tables db) \<Rightarrow> world \<Rightarrow> 'a \<times> world" where
  "on_db f w = (let (r, d) = f (w_db w) in (r, w\<lparr>w_db := d\<rparr>))"

definition ask :: "(nat \<Rightarrow> 'a) \<Rightarrow> world \<Rightarrow> 'a \<times> world" where
  "ask f w = (f (w_calls w), w\<lparr>w_calls := Suc (w_calls w)\<rparr>)"

text \<open>
  \<open>NewRuntimeService\<close> applied to these parts.  The body of the transaction works on the
  database alone, through \<open>Transactor.Within\<close>.
\<close>

definition new_runtime_service :: "externals \<Rightarrow> world service" where
  "new_runtime_service x = \<lparr>
     sv_create = (\<lambda>v. on_db (repo_create (x_sql x) v)),
     sv_get = (\<lambda>i tn. on_db (repo_get (x_sql x) i tn)),
     sv_query = (\<lambda>f. on_db (repo_query (x_sql x) f)),
     sv_within = (\<lambda>ctx fn w. on_db (within (x_driver x) ctx
         (\<lambda>d. let (r, w1) = fn (w\<lparr>w_db := d\<rparr>) in (r, w_db w1))) w),
     sv_now = ask (x_now x),
     sv_verify = (\<lambda>tn a. ask (\<lambda>n. x_verify x n tn a)),
     sv_new_uuid = ask (x_uuid x),
     sv_redact = x_redact x,
     sv_uuid_parse = x_uuid_parse x,
     sv_type_name = x_type_name x,
     sv_format_time = x_format_time x\<rparr>"

text \<open>\<open>NewService\<close>, with \<open>allowAllApplications\<close>.\<close>

definition new_service :: "externals \<Rightarrow> world service" where
  "new_service x = new_runtime_service (x\<lparr>x_verify := (\<lambda>_ _ _. None)\<rparr>)"

lemma on_db_eq: "on_db f w = (r, w') \<longleftrightarrow> (\<exists>d. f (w_db w) = (r, d) \<and> w' = w\<lparr>w_db := d\<rparr>)"
  by (auto simp: on_db_def split: prod.splits)

lemma ask_eq: "ask f w = (r, w') \<longleftrightarrow> r = f (w_calls w) \<and> w' = w\<lparr>w_calls := Suc (w_calls w)\<rparr>"
  by (auto simp: ask_def)

lemma sql_within_create:
  "sv_within (new_runtime_service x) ctx (sv_create (new_runtime_service x) v) w
     = on_db (within (x_driver x) ctx (repo_create (x_sql x) v)) w"
  by (simp add: new_runtime_service_def on_db_def split_def Let_def)

lemma sql_service_simps [simp]:
  "sv_get (new_runtime_service x) i tn w = on_db (repo_get (x_sql x) i tn) w"
  "sv_query (new_runtime_service x) f w = on_db (repo_query (x_sql x) f) w"
  "sv_now (new_runtime_service x) w = ask (x_now x) w"
  "sv_verify (new_runtime_service x) tn a w = ask (\<lambda>n. x_verify x n tn a) w"
  "sv_new_uuid (new_runtime_service x) w = ask (x_uuid x) w"
  "sv_redact (new_runtime_service x) = x_redact x"
  "sv_uuid_parse (new_runtime_service x) = x_uuid_parse x"
  "sv_type_name (new_runtime_service x) = x_type_name x"
  "sv_format_time (new_runtime_service x) = x_format_time x"
  by (simp_all add: new_runtime_service_def)

section \<open>The contracts hold of the SQL service\<close>

text \<open>
  For an order \<open>R\<close> of the tables that the other sessions keep: a good world is one whose script
  keeps it, and worlds are ordered by it.  \<open>Get\<close>, \<open>Query\<close> and \<open>Export\<close> keep every
  such order, equality among them; \<open>Record\<close> keeps \<open>audit_order\<close>.
\<close>

definition world_ok :: "(audit_tables \<Rightarrow> audit_tables \<Rightarrow> bool) \<Rightarrow> world \<Rightarrow> bool" where
  "world_ok R w \<longleftrightarrow> obeys R (w_db w)"

definition world_le :: "(audit_tables \<Rightarrow> audit_tables \<Rightarrow> bool) \<Rightarrow> world \<Rightarrow> world \<Rightarrow> bool" where
  "world_le R w w' \<longleftrightarrow> advances R (w_db w) (w_db w') \<and> w_calls w \<le> w_calls w'"

definition world_tables :: "world \<Rightarrow> audit_tables" where
  "world_tables w = db_tables (w_db w)"

definition world_log :: "world \<Rightarrow> audit_record set" where
  "world_log w = record_of ` set (t_records (db_tables (w_db w)))"

lemma world_le_tables: "world_le R w w' \<Longrightarrow> R (world_tables w) (world_tables w')"
  by (simp add: world_le_def advances_def world_tables_def)

lemma world_ok_quiet [simp]: "db_script (w_db w) = [] \<Longrightarrow> world_ok R w"
  by (simp add: world_ok_def obeys_def)

sublocale audit_table_order \<subseteq> reader: audit_reader "new_runtime_service x" "world_ok R" "world_le R" for x
proof
  fix w w1 w2 :: world
  show "world_le R w w" by (simp add: world_le_def advances_refl)
  show "world_le R w w1 \<Longrightarrow> world_le R w1 w2 \<Longrightarrow> world_le R w w2"
    by (auto simp: world_le_def intro: advances_trans)
  show "world_ok R w \<Longrightarrow> world_le R w w1 \<Longrightarrow> world_ok R w1"
    by (auto simp: world_ok_def world_le_def intro: advances_obeys)
  show "world_ok R w \<Longrightarrow> sv_get (new_runtime_service x) i tn w = (r1, w1) \<Longrightarrow> world_le R w w1" for i tn r1
    by (auto simp: world_ok_def world_le_def on_db_eq intro: repo_get_keeps)
  show "world_ok R w \<Longrightarrow> sv_query (new_runtime_service x) f w = (r2, w1) \<Longrightarrow> world_le R w w1" for f r2
    by (auto simp: world_ok_def world_le_def on_db_eq intro: repo_query_keeps)
  show "world_ok R w \<Longrightarrow> sv_now (new_runtime_service x) w = (n, w1) \<Longrightarrow> world_le R w w1" for n
    by (auto simp: world_le_def ask_eq advances_refl)
  show "world_ok R w \<Longrightarrow> sv_verify (new_runtime_service x) tn a w = (r4, w1) \<Longrightarrow> world_le R w w1" for tn a r4
    by (auto simp: world_le_def ask_eq advances_refl)
  show "world_ok R w \<Longrightarrow> sv_new_uuid (new_runtime_service x) w = (u, w1) \<Longrightarrow> world_le R w w1" for u
    by (auto simp: world_le_def ask_eq advances_refl)
qed

interpretation sql: audit_world "new_runtime_service x" "world_ok audit_order" "world_le audit_order" for x
proof unfold_locales
  show "world_ok audit_order w \<Longrightarrow>
      sv_within (new_runtime_service x) ctx (sv_create (new_runtime_service x) v) w = (r3, w1)
      \<Longrightarrow> world_le audit_order w w1" for w ctx v r3 w1
    unfolding sql_within_create by (auto simp: world_ok_def world_le_def on_db_eq intro: repo_create_keeps)
qed

lemma matching_cond:
  "r \<in> set (matching env f t) \<longleftrightarrow> (\<exists>row \<in> set (t_records t). r = record_of row \<and>
     (\<forall>c \<in> set (query_conds (se_uni env) f). cond_holds env c row))"
  by (auto simp: matching_def list_all_iff)

lemma repo_query_ok:
  assumes "repo_query env f s = (Inr (rs, n), s')"
  obtains ss where "select_page env f ss (db_tables s') = Inr rs"
proof -
  from assms obtain s1 where "exec_db (reads (select_page env f)) s1 = (Inr rs, s')"
    by (auto simp: repo_query_def split: prod.splits sum.splits)
  then show thesis by (rule exec_db_reads_ok) (rule that)
qed

interpretation sql_reads: audit_reads "new_runtime_service x" world_log "se_uuid (x_sql x)" for x
proof
  fix i tn w r w1
  assume "sv_get (new_runtime_service x) i tn w = (Inr r, w1)"
  then show "se_uuid (x_sql x) i = Some (r_ID r) \<and> r_TenantID r = tn \<and> r \<in> world_log w1"
    by (auto simp: on_db_eq world_log_def dest: repo_get_sound)
next
  fix f w rs n w1 r
  assume q: "sv_query (new_runtime_service x) f w = (Inr (rs, n), w1)" and "r \<in> set rs"
  from q obtain d where d: "repo_query (x_sql x) f (w_db w) = (Inr (rs, n), d)" "w1 = w\<lparr>w_db := d\<rparr>"
    by (auto simp: on_db_eq)
  then obtain ss where "select_page (x_sql x) f ss (db_tables d) = Inr rs"
    using repo_query_ok by metis
  then have "set rs \<subseteq> set (matching (x_sql x) f (db_tables d))"
    by (auto simp: select_page_def split: if_splits dest!: in_set_takeD in_set_dropD)
  with \<open>r \<in> set rs\<close> have "r \<in> set (matching (x_sql x) f (db_tables d))" by blast
  then obtain row where row: "row \<in> set (t_records (db_tables d))" "r = record_of row"
    "\<forall>c \<in> set (query_conds (se_uni (x_sql x)) f). cond_holds (x_sql x) c row"
    by (auto simp: matching_cond)
  from row(3) have "cond_holds (x_sql x) (Equals ''tenant_id'' (f_TenantID f)) row"
    by (simp add: query_conds_def)
  then have "r_TenantID r = f_TenantID f" using row(2) by (simp add: column_def)
  moreover have "f_ApplicationID f \<noteq> [] \<longrightarrow> r_ApplicationID r = f_ApplicationID f"
  proof
    assume "f_ApplicationID f \<noteq> []"
    then have "Equals ''application_id'' (f_ApplicationID f) \<in> set (query_conds (se_uni (x_sql x)) f)"
      by (simp add: query_conds_def column_filters_def)
    with row have "cond_holds (x_sql x) (Equals ''application_id'' (f_ApplicationID f)) row"
      by blast
    then show "r_ApplicationID r = f_ApplicationID f" using row(2) by (simp add: column_def)
  qed
  ultimately show "r \<in> world_log w1 \<and> r_TenantID r = f_TenantID f \<and>
      (f_ApplicationID f \<noteq> [] \<longrightarrow> r_ApplicationID r = f_ApplicationID f)"
    using row d by (auto simp: world_log_def)
next
  fix f w rs n w1
  assume "sv_query (new_runtime_service x) f w = (Inr (rs, n), w1)"
  then obtain d where "repo_query (x_sql x) f (w_db w) = (Inr (rs, n), d)"
    by (auto simp: on_db_eq)
  then obtain ss where "select_page (x_sql x) f ss (db_tables d) = Inr rs"
    using repo_query_ok by metis
  then show "int (length rs) \<le> max 0 (f_PageSize f)"
    by (auto simp: select_page_def split: if_splits)
qed

end
