(* ===== verification/Audit_Examples.thy ===== *)
theory Audit_Examples
  imports Audit_World
begin

text \<open>
  A concrete instance of the surroundings, on which the properties are applied: a PostgreSQL
  database whose identifiers are lower-case texts, a clock that ticks once a second, an application service that grants tenant
  \<open>t1\<close> the application \<open>app\<close>, and libraries that accept their argument.
\<close>

definition ex_env :: sql_env where
  "ex_env = \<lparr>se_uni = (\<lambda>s. s), se_lower = map lower_byte,
     se_uuid = (\<lambda>s. if s = ''bad'' \<or> s = ''urn:i1'' then None else Some (map lower_byte s)),
     se_json = Some, se_text = list_all (\<lambda>c. c \<noteq> CHR 0x00)\<rparr>"

definition ex_externals :: externals where
  "ex_externals = \<lparr>x_driver = Some ''pgx'', x_sql = ex_env,
     x_now = (\<lambda>n. int n * second + second),
     x_verify = (\<lambda>n tn a. if tn = ''t1'' \<and> a = ''app'' then None else Some ErrNotGranted),
     x_uuid = (\<lambda>n. ''u''), x_redact = Inr,
     x_uuid_parse = (\<lambda>s. if s = ''bad'' then Some (ErrText ''invalid UUID length: 3'') else None),
     x_type_name = (\<lambda>t. ''user''), x_format_time = (\<lambda>t. show_int (t div 1000))\<rparr>"

definition ex_user :: principal where
  "ex_user = \<lparr>p_ID = ''alice'', p_Type = TypeUser, p_TenantID = ''t1''\<rparr>"

definition ex_record :: audit_record where
  "ex_record = zero_record\<lparr>r_ID := ''i1'', r_TenantID := ''t1 '', r_ApplicationID := ''app'',
     r_Action := ''update'', r_ResourceType := ''doc'', r_ResourceID := ''7'',
     r_SourceService := ''docs'', r_OccurredAt := 5123\<rparr>"

definition ex_session :: session where
  "ex_session = \<lparr>ss_actor = None, ss_now = 9\<rparr>"

definition ex_empty :: world where
  "ex_empty = \<lparr>w_db = \<lparr>db_tables = \<lparr>t_keys = [], t_records = []\<rparr>, db_session = ex_session,
     db_script = []\<rparr>, w_calls = 0\<rparr>"

definition ex_service :: "world service" where
  "ex_service = new_runtime_service ex_externals"

text \<open>The world after one record, and the filter that finds it.\<close>

definition ex_world :: world where
  "ex_world = snd (service_record ex_service (Some ex_user) ex_record ex_empty)"

definition ex_filter :: audit_filter where
  "ex_filter = zero_filter\<lparr>f_TenantID := ''t1'', f_ApplicationID := '' app'', f_Action := ''update''\<rparr>"

end
