(* ===== verification/Audit_Record_Facts.thy ===== *)
theory Audit_Record_Facts
  imports Audit_Examples
begin

text \<open>
  What \<open>Record\<close> guarantees: a record it reports is stored, stored records never change, a
  failed call leaves no half-written record, and on a quiet database it is the operation
  \<open>record_spec\<close> of the abstract store.
\<close>

section \<open>How a successful Record ends\<close>

text \<open>
  The answer was either read back under the tenant of the request, or it is the completed
  request and the transaction that wrote it committed.
\<close>

lemma service_record_result:
  assumes "service_record sv (Some caller) value w = (Inr r, w')"
  shows "(\<exists>i w1. sv_get sv i (trim_space (r_TenantID value)) w1 = (Inr r, w') \<and> (r_ID value \<noteq> [] \<longrightarrow> i = r_ID value)) \<or>
    (\<exists>now old new ident w1. sv_redact sv (r_BeforeSummary value) = Inr old \<and>
       sv_redact sv (r_AfterSummary value) = Inr new \<and>
       r = complete_record sv caller now old new ((trim_record value)\<lparr>r_ID := ident\<rparr>) \<and>
       (r_ID value \<noteq> [] \<longrightarrow> ident = r_ID value) \<and>
       sv_within sv (Some caller) (sv_create sv r) w1 = (None, w'))"
proof -
  obtain w1 w2 w3 now old new ident where run: 
    "sv_redact sv (r_BeforeSummary value) = Inr old" "sv_redact sv (r_AfterSummary value) = Inr new"
    and i: "record_identity sv (trim_record value) w2 = (ident, w3)"
    and cases: "(ident = Inl (Inr r) \<and> w' = w3) \<or> (\<exists>v1. ident = Inr v1 \<and>
      record_store sv caller (complete_record sv caller now old new v1) w3 = (Inr r, w'))"
    using service_record_ok [OF assms] by (metis option.inject trim_record_fields(8,9))
  note i = record_identity_cases [OF i]
  show ?thesis
  proof (cases "ident = Inl (Inr r) \<and> w' = w3")
    case True
    with i show ?thesis by auto
  next
    case False
    with cases obtain v1 where v1: "ident = Inr v1"
      "record_store sv caller (complete_record sv caller now old new v1) w3 = (Inr r, w')" by blast
    with i obtain j where j: "v1 = (trim_record value)\<lparr>r_ID := j\<rparr>" "r_ID value \<noteq> [] \<longrightarrow> j = r_ID value"
      by auto
    from record_store_cases [OF v1(2)] show ?thesis
    proof
      assume s: "r = complete_record sv caller now old new v1 \<and> 
        sv_within sv (Some caller) (sv_create sv (complete_record sv caller now old new v1)) w3 = (None, w')"
      show ?thesis by (rule disjI2, rule exI [of _ now], rule exI [of _ old], rule exI [of _ new],
            rule exI [of _ j], rule exI [of _ w3]) (use s j run in simp)
    next
      assume "\<exists>w1. sv_get sv (r_ID (complete_record sv caller now old new v1))
        (r_TenantID (complete_record sv caller now old new v1)) w1 = (Inr r, w')"
      with j show ?thesis by auto
    qed
  qed
qed

text \<open>What a committed \<open>Create\<close> of the SQL repository has written, and as whom.\<close>

lemma committed_create:
  assumes "within tdb (Some caller) (repo_create env v) s = (None, s')"
  obtains ss k v1 where "p_ID caller \<noteq> []" "stored_as env v = Inr v1" "k_id k = r_ID v1"
    "t_keys (db_tables s') = t_keys (st_others (fst (next_step s)) (db_tables s)) @ [k]"
    "r_ID v1 \<notin> k_id ` set (t_keys (st_others (fst (next_step s)) (db_tables s)))"
    "t_records (db_tables s') = t_records (st_others (fst (next_step s)) (db_tables s))
       @ [row_of (stamped ss (p_ID caller) v1)]"
proof -
  obtain driver s1 s2 s3 where run: "begin_tx s = (Inr (db_tables s1), s1)"
    "set_audit_actor (Some caller) driver s1 = (None, s2)" "repo_create env v s2 = (None, s3)"
    "db_tables s' = db_tables s3" "db_tables s1 = st_others (fst (next_step s)) (db_tables s)"
    "db_tables s2 = db_tables s1"
    using within_ok [OF assms] by metis
  obtain ss actor k v1 where c: "ss_actor (db_session s2) = Some actor" "actor \<noteq> []"
    "stored_as env v = Inr v1" "k_id k = r_ID v1" "r_ID v1 \<notin> k_id ` set (t_keys (db_tables s2))"
    "t_keys (db_tables s3) = t_keys (db_tables s2) @ [k]"
    "t_records (db_tables s3) = t_records (db_tables s2) @ [row_of (stamped ss actor v1)]"
    using repo_create_ok [OF run(3)] by metis
  have "ss_actor (db_session s1) = None"
    using run(1) by (auto simp: begin_tx_def Let_def split: prod.splits outcome.splits)
  with run(2) c(1) have "actor = p_ID caller"
    by (auto simp: set_audit_actor_def set_actor_stmt_def Let_def
        split: if_splits prod.splits sum.splits outcome.splits)
  with c run show thesis using that by metis
qed

lemma record_same [simp]:
  "(r :: audit_record)\<lparr>r_CreatedAt := r_CreatedAt r, r_UpdatedAt := r_UpdatedAt r\<rparr> = r"
  by (cases r) simp

section \<open>Durability\<close>

text \<open>
  How a stored row relates to the record a call answered: it is the record, read back, or what the
  columns keep of it with the time stamps the database sets itself.
\<close>

definition kept_as :: "sql_env \<Rightarrow> audit_record \<Rightarrow> audit_record \<Rightarrow> bool" where
  "kept_as env r row \<longleftrightarrow> row = r \<or>
     (\<exists>v c u. stored_as env r = Inr v \<and> row = v\<lparr>r_CreatedAt := c, r_UpdatedAt := u\<rparr>)"

lemma kept_as_fields:
  assumes "kept_as env r row"
  shows "text_fields row = text_fields r \<and> r_Version row = r_Version r \<and>
    r_CreatedBy row = r_CreatedBy r \<and> r_OccurredAt row \<le> r_OccurredAt r \<and>
    r_OccurredAt r < r_OccurredAt row + 1000"
  using assms column_time_near [of "r_OccurredAt r"]
  by (auto simp: kept_as_def stored_as_iff text_fields_def)

lemma stamped_complete:
  assumes "stored_as env (complete_record sv caller now old new v) = Inr v1"
  shows "stamped ss (p_ID caller) v1 = v1\<lparr>r_CreatedAt := ss_now ss, r_UpdatedAt := ss_now ss\<rparr>"
  using assms by (auto simp: stored_as_iff stamped_def complete_record_def Let_def)

lemma record_stored:
  assumes "world_ok audit_order w" "audit_inv (world_tables w)"
    and "service_record (new_runtime_service x) (Some caller) v w = (Inr r, w')"
  shows "audit_inv (world_tables w') \<and> r_TenantID r = trim_space (r_TenantID v) \<and>
    (\<exists>row. store_of (world_tables w') (r_ID row) = Some row \<and> kept_as (x_sql x) r row \<and>
       (r_ID v \<noteq> [] \<longrightarrow> se_uuid (x_sql x) (r_ID v) = Some (r_ID row) \<and> r_ID r \<in> {r_ID v, r_ID row}))"
proof -
  have inv: "audit_inv (world_tables w')"
    using sql.service_record_le [OF assms(1,3)] assms(2) world_le_tables audit_order_def by metis
  from service_record_result [OF assms(3)] show ?thesis
  proof
    assume "\<exists>i w1. sv_get (new_runtime_service x) i (trim_space (r_TenantID v)) w1 = (Inr r, w') \<and>
      (r_ID v \<noteq> [] \<longrightarrow> i = r_ID v)"
    then obtain i w1 where i: "sv_get (new_runtime_service x) i (trim_space (r_TenantID v)) w1 = (Inr r, w')"
      "r_ID v \<noteq> [] \<longrightarrow> i = r_ID v" by blast
    note g = sql_reads.get_sound [OF i(1)]
    then obtain row where row: "row \<in> set (t_records (world_tables w'))" "r = record_of row"
      unfolding world_log_def world_tables_def by blast
    have "store_of (world_tables w') (r_ID r) = Some r"
      using store_of_in [OF inv row(1)] row(2) by simp
    moreover have "kept_as (x_sql x) r r" by (simp add: kept_as_def)
    ultimately show ?thesis using inv g i(2) by auto
  next
    assume "\<exists>now old new ident w1. sv_redact (new_runtime_service x) (r_BeforeSummary v) = Inr old \<and>
       sv_redact (new_runtime_service x) (r_AfterSummary v) = Inr new \<and>
       r = complete_record (new_runtime_service x) caller now old new ((trim_record v)\<lparr>r_ID := ident\<rparr>) \<and>
       (r_ID v \<noteq> [] \<longrightarrow> ident = r_ID v) \<and>
       sv_within (new_runtime_service x) (Some caller) (sv_create (new_runtime_service x) r) w1 = (None, w')"
    then obtain now old new ident w1 where
      r: "r = complete_record (new_runtime_service x) caller now old new ((trim_record v)\<lparr>r_ID := ident\<rparr>)"
      "r_ID v \<noteq> [] \<longrightarrow> ident = r_ID v" and
      c: "sv_within (new_runtime_service x) (Some caller) (sv_create (new_runtime_service x) r) w1 = (None, w')"
      by blast
    from c obtain d where d: "within (x_driver x) (Some caller) (repo_create (x_sql x) r) (w_db w1) = (None, d)"
      "w' = w1\<lparr>w_db := d\<rparr>"
      unfolding sql_within_create by (auto simp: on_db_eq)
    from committed_create [OF d(1)] obtain ss ts v1 where v1: "stored_as (x_sql x) r = Inr v1"
      and "t_records (db_tables d) = ts @ [row_of (stamped ss (p_ID caller) v1)]" by metis
    with d(2) have "row_of (stamped ss (p_ID caller) v1) \<in> set (t_records (world_tables w'))"
      by (simp add: world_tables_def)
    from store_of_in [OF inv this] have
      "store_of (world_tables w') (r_ID v1) = Some (stamped ss (p_ID caller) v1)" by simp
    moreover have "kept_as (x_sql x) r (stamped ss (p_ID caller) v1)"
      unfolding stamped_complete [OF v1 [unfolded r(1)]] kept_as_def using v1 by blast
    moreover have "r_ID r = ident" "r_TenantID r = trim_space (r_TenantID v)"
      by (simp_all add: r(1) complete_record_def Let_def)
    ultimately show ?thesis
      using inv r(2) stored_as_fields(1) [OF v1]
      by (intro conjI exI [of _ "stamped ss (p_ID caller) v1"]) auto
  qed
qed

text \<open>
  C1. A successful \<open>Record\<close> means the record is stored: whatever fails or is written by others
  meanwhile (as long as they only append), the store holds a row that is the record answered as
  the columns keep it: every text, the version and the author unchanged, the identifier in the
  canonical form of the \<open>UUID\<close> column, the summaries as \<open>JSONB\<close> gives them back, the time of
  the event to the microsecond, and the two time stamps the database sets itself.  The row belongs
  to the tenant asked for, and an identifier the caller gave is the row's.
\<close>

lemma record_durable:
  assumes "world_ok audit_order w" "audit_inv (world_tables w)"
    and "service_record (new_runtime_service x) (Some caller) v w = (Inr r, w')"
  shows "audit_inv (world_tables w') \<and> r_TenantID r = trim_space (r_TenantID v) \<and>
    (\<exists>row. store_of (world_tables w') (r_ID row) = Some row \<and> kept_as (x_sql x) r row \<and>
       text_fields row = text_fields r \<and> r_OccurredAt row \<le> r_OccurredAt r \<and>
       r_OccurredAt r < r_OccurredAt row + 1000 \<and>
       (r_ID v \<noteq> [] \<longrightarrow> se_uuid (x_sql x) (r_ID v) = Some (r_ID row) \<and> r_ID r \<in> {r_ID v, r_ID row}))"
  using record_stored [OF assms] kept_as_fields by blast

text \<open>The record of the example happened 123 nanoseconds after what its row says.\<close>

lemma record_durable_witness:
  "\<exists>row. store_of (world_tables ex_world) ''i1'' = Some row \<and> r_TenantID row = ''t1'' \<and>
     r_OccurredAt row \<le> 5123 \<and> 5123 < r_OccurredAt row + 1000 \<and>
     map_option r_OccurredAt (store_of (world_tables ex_world) ''i1'') = Some 5000"
proof -
  let ?run = "service_record (new_runtime_service ex_externals) (Some ex_user) ex_record ex_empty"
  have "map_sum id (\<lambda>r. (r_ID r, r_TenantID r, r_OccurredAt r)) (fst ?run) = Inr (''i1'', ''t1'', 5123)"
    by code_simp
  then obtain r where r: "fst ?run = Inr r" "r_ID r = ''i1''" "r_TenantID r = ''t1''" "r_OccurredAt r = 5123"
    by (cases "fst ?run") auto
  then have run: "?run = (Inr r, ex_world)"
    by (simp add: ex_world_def ex_service_def prod_eq_iff)
  have "audit_inv (world_tables ex_empty)" by code_simp
  moreover have "world_ok audit_order ex_empty" by (simp add: ex_empty_def)
  ultimately obtain row where row: "store_of (world_tables ex_world) (r_ID row) = Some row"
    "text_fields row = text_fields r" "r_OccurredAt row \<le> r_OccurredAt r"
    "r_OccurredAt r < r_OccurredAt row + 1000"
    "r_ID ex_record \<noteq> [] \<longrightarrow> se_uuid (x_sql ex_externals) (r_ID ex_record) = Some (r_ID row)"
    using record_durable [OF _ _ run] by blast
  have "r_ID ex_record \<noteq> []" "se_uuid (x_sql ex_externals) (r_ID ex_record) = Some ''i1''"
    "map_option r_OccurredAt (store_of (world_tables ex_world) ''i1'') = Some 5000" by code_simp+
  moreover from row(2) have "r_TenantID row = r_TenantID r" by (simp add: text_fields_def)
  ultimately show ?thesis using row r by auto
qed

section \<open>The log is append-only\<close>

text \<open>The calls of the service, and the worlds a sequence of them leads to.\<close>

datatype audit_call =
    CallRecord "principal option" audit_record
  | CallGet "principal option" string string
  | CallQuery "principal option" audit_filter
  | CallExport "principal option" audit_filter int

fun audit_step :: "externals \<Rightarrow> audit_call \<Rightarrow> world \<Rightarrow> world" where
  "audit_step x (CallRecord ctx v) w = snd (service_record (new_runtime_service x) ctx v w)"
| "audit_step x (CallGet ctx i tn) w = snd (service_get (new_runtime_service x) ctx i tn w)"
| "audit_step x (CallQuery ctx f) w = snd (service_query (new_runtime_service x) ctx f w)"
| "audit_step x (CallExport ctx f m) w = snd (service_export (new_runtime_service x) ctx f m w)"

inductive audit_run :: "externals \<Rightarrow> world \<Rightarrow> world \<Rightarrow> bool" for x where
  run_refl: "audit_run x w w"
| run_step: "audit_run x w w1 \<Longrightarrow> audit_run x w (audit_step x call w1)"

inductive_cases audit_runE: "audit_run x w w'"

lemma audit_step_le:
  assumes "world_ok audit_order w"
  shows "world_le audit_order w (audit_step x call w)"
  by (cases call)
    (simp_all, (rule sql.service_record_le [OF assms prod.collapse [symmetric]]
      audit.reader.service_get_le [OF assms prod.collapse [symmetric]]
      audit.reader.service_query_le [OF assms prod.collapse [symmetric]]
      audit.reader.service_export_le [OF assms prod.collapse [symmetric]])+)

lemma audit_run_le:
  "audit_run x w w' \<Longrightarrow> world_ok audit_order w \<Longrightarrow> world_le audit_order w w'"
proof (induction rule: audit_run.induct)
  case (run_refl w)
  show ?case by (rule audit.reader.le_refl)
next
  case (run_step w w1 call)
  then have l: "world_le audit_order w w1" by blast
  have "world_ok audit_order w1" by (rule audit.reader.ok_le [OF run_step.prems l])
  from audit.reader.le_trans [OF l audit_step_le [OF this]] show ?case .
qed

lemma store_of_extends:
  assumes "extends t t'" "store_of t i = Some r"
  shows "store_of t' i = Some r"
proof -
  from assms(1) obtain rs where "t_records t' = t_records t @ rs" by (auto simp: extends_def)
  with assms(2) show ?thesis by (simp add: store_of_def map_add_def)
qed

text \<open>
  C2. The audit log is append-only: over any sequence of calls, failing or not, interleaved with
  any other appending writers, every stored record stays exactly as it is, no row is moved or
  removed, and the two tables stay consistent.
\<close>

lemma log_append_only:
  assumes "audit_run x w w'" "world_ok audit_order w" "audit_inv (world_tables w)"
  shows "audit_inv (world_tables w') \<and> extends (world_tables w) (world_tables w') \<and>
    store_of (world_tables w) \<subseteq>\<^sub>m store_of (world_tables w')"
  using world_le_tables [OF audit_run_le [OF assms(1,2)]] assms(3) store_of_extends
  by (auto simp: audit_order_def map_le_def domIff)

lemma log_append_only_witness:
  "audit_inv (world_tables (audit_step ex_externals (CallGet (Some ex_user) ''i1'' ''t1'') ex_world)) \<and>
   store_of (world_tables ex_world) \<subseteq>\<^sub>m
     store_of (world_tables (audit_step ex_externals (CallGet (Some ex_user) ''i1'' ''t1'') ex_world))"
proof -
  have "db_script (w_db ex_world) = []" by code_simp
  then have "world_ok audit_order ex_world" by simp
  moreover have "audit_inv (world_tables ex_world)" by code_simp
  ultimately show ?thesis using log_append_only [OF run_step [OF run_refl]] by blast
qed

section \<open>No half-written record\<close>

text \<open>When nobody else writes, everything before and after the transaction leaves the tables.\<close>

abbreviation exclusive :: "world \<Rightarrow> bool" where
  "exclusive \<equiv> world_ok (=)"

text \<open>What one \<open>Record\<close> may do to the tables.\<close>

definition one_record_added :: "principal option \<Rightarrow> string \<Rightarrow> audit_tables \<Rightarrow> audit_tables \<Rightarrow> bool" where
  "one_record_added ctx tenant t t' \<longleftrightarrow> (\<exists>caller k row. ctx = Some caller \<and>
     t_keys t' = t_keys t @ [k] \<and> t_records t' = t_records t @ [row] \<and> k_id k = r_ID row \<and>
     r_ID row \<notin> k_id ` set (t_keys t) \<and> r_TenantID row = tenant \<and> r_CreatedBy row = p_ID caller)"

lemma create_one_or_nothing:
  assumes "exclusive w" "sv_within (new_runtime_service x) ctx (sv_create (new_runtime_service x) v) w = (e, w')"
  shows "exclusive w' \<and> (world_tables w' = world_tables w \<or>
    one_record_added ctx (r_TenantID v) (world_tables w) (world_tables w'))"
proof -
  from assms(2) obtain d where d: "within (x_driver x) ctx (repo_create (x_sql x) v) (w_db w) = (e, d)" "w' = w\<lparr>w_db := d\<rparr>"
    unfolding sql_within_create by (auto simp: on_db_eq)
  have ob: "obeys (=) (w_db w)" using assms(1) by (simp add: world_ok_def)
  have same: "st_others (fst (next_step (w_db w))) (db_tables (w_db w)) = db_tables (w_db w)"
    using same.others_keep [OF ob prod.collapse [symmetric]] by metis
  have "set (db_script d) \<subseteq> set (db_script (w_db w))"
    by (rule within_script [OF _ d(1)]) (rule repo_create_script)
  with ob d(2) have ex: "exclusive w'" by (auto simp: world_ok_def intro: obeys_mono)
  from within_atomic [OF d(1)] consider "db_tables d = db_tables (w_db w)"
    | a s2 s3 where "ctx = Some a" "ss_actor (db_session s2) \<in> {None, Some (p_ID a)}"
       "db_tables s2 = db_tables (w_db w)" "repo_create (x_sql x) v s2 = (None, s3)" "db_tables d = db_tables s3"
    by (auto simp: same)
  then show ?thesis
  proof cases
    case 1
    with d ex show ?thesis by (simp add: world_tables_def)
  next
    case 2
    from repo_create_ok [OF 2(4)] obtain ss actor k v1 where "ss_actor (db_session s2) = Some actor"
      "k_id k = r_ID v1" "r_ID v1 \<notin> k_id ` set (t_keys (db_tables s2))" "stored_as (x_sql x) v = Inr v1"
      "t_keys (db_tables s3) = t_keys (db_tables s2) @ [k]"
      "t_records (db_tables s3) = t_records (db_tables s2) @ [row_of (stamped ss actor v1)]" by metis
    moreover from this(4) have "r_TenantID v1 = r_TenantID v" by (rule stored_as_fields(2))
    ultimately have "one_record_added ctx (r_TenantID v) (world_tables w) (world_tables w')" using 2
      by (auto simp: one_record_added_def world_tables_def d(2))
    with ex show ?thesis by blast
  qed
qed


text \<open>
  C3. \<open>Record\<close> is atomic: on a database nobody else writes to, and for any placement of
  failures and lost replies, it leaves either the tables as they were or both tables with exactly
  one more row, of the same new identifier, the tenant asked for and the caller as its author.
\<close>

lemma record_atomic:
  assumes "exclusive w" "service_record (new_runtime_service x) ctx v w = (res, w')"
  shows "world_tables w' = world_tables w \<or>
    one_record_added ctx (trim_space (r_TenantID v)) (world_tables w) (world_tables w')"
  using same.reader.service_record_before [OF assms]
proof
  assume "world_le (=) w w'"
  then show ?thesis using world_le_tables by metis
next
  assume "\<exists>caller v1 w3. ctx = Some caller \<and> r_TenantID v1 = trim_space (r_TenantID v) \<and>
    world_le (=) w w3 \<and> record_store (new_runtime_service x) caller v1 w3 = (res, w')"
  then obtain caller v1 w3 where h: "ctx = Some caller" "r_TenantID v1 = trim_space (r_TenantID v)"
    "world_le (=) w w3" "record_store (new_runtime_service x) caller v1 w3 = (res, w')" by blast
  have w3: "exclusive w3" "world_tables w3 = world_tables w"
    using same.reader.ok_le [OF assms(1) h(3)] world_le_tables [OF h(3)] by simp_all
  obtain e w4 where c: "sv_within (new_runtime_service x) (Some caller)
    (sv_create (new_runtime_service x) v1) w3 = (e, w4)" by fastforce
  from create_one_or_nothing [OF w3(1) c] have ex4: "exclusive w4"
    and t4: "world_tables w4 = world_tables w3 \<or>
      one_record_added ctx (r_TenantID v1) (world_tables w3) (world_tables w4)" using h(1) by auto
  have "w' = w4 \<or> (\<exists>g. sv_get (new_runtime_service x) (r_ID v1) (r_TenantID v1) w4 = (g, w'))"
    using h(4) c unfolding record_store_def
    by (auto simp del: sql_service_simps split: option.splits if_splits prod.splits sum.splits)
  then have "world_tables w' = world_tables w4"
    using world_le_tables [OF same.reader.get_le [OF ex4]] by metis
  with t4 w3 h(2) show ?thesis by simp
qed

lemma record_atomic_witness:
  "one_record_added (Some ex_user) ''t1'' (world_tables ex_empty) (world_tables ex_world)"
proof -
  have "exclusive ex_empty" by (simp add: ex_empty_def)
  moreover have "service_record (new_runtime_service ex_externals) (Some ex_user) ex_record ex_empty
    = (fst (service_record (new_runtime_service ex_externals) (Some ex_user) ex_record ex_empty), ex_world)"
    by (simp add: ex_world_def ex_service_def)
  ultimately have "world_tables ex_world = world_tables ex_empty \<or>
    one_record_added (Some ex_user) (trim_space (r_TenantID ex_record)) (world_tables ex_empty) (world_tables ex_world)"
    by (rule record_atomic)
  moreover have "length (t_keys (world_tables ex_world)) \<noteq> length (t_keys (world_tables ex_empty))"
    "trim_space (r_TenantID ex_record) = ''t1''" by code_simp+
  ultimately show ?thesis by auto
qed


section \<open>Record as an operation of the abstract store\<close>

text \<open>
  The contract of \<open>Record\<close> once its checks have passed, for a store that maps identifiers to
  records: a new identifier is bound, a known one of the same tenant is answered as stored, a
  known one of another tenant is refused.  \<open>full\<close> is the completed request, \<open>stored\<close> what
  the database makes of it.
\<close>

definition record_spec :: "audit_record \<Rightarrow> audit_record \<Rightarrow> (string \<rightharpoonup> audit_record)
    \<Rightarrow> audit_record option \<times> (string \<rightharpoonup> audit_record)" where
  "record_spec full stored m = (case m (r_ID stored) of
      None \<Rightarrow> (Some full, m(r_ID stored \<mapsto> stored))
    | Some old \<Rightarrow> (if r_TenantID old = r_TenantID full then Some old else None, m))"

lemma repo_create_dup:
  assumes "db_script s = []" "ss_actor (db_session s) = Some (c # cs)" "stored_as env v = Inr v1"
    "r_ID v1 \<in> k_id ` set (t_keys (db_tables s))"
  shows "repo_create env v s = (Some ErrDuplicate, s)"
  using assms stored_as_fields(1) [OF assms(3)]
  by (auto simp: repo_create_def exec_tx_quiet insert_key_def audit_actor_def list_ex_iff)

lemma repo_create_new:
  assumes "db_script s = []" "ss_actor (db_session s) = Some (c # cs)" "audit_inv (db_tables s)"
    "stored_as env v = Inr v1" "r_ID v1 \<notin> k_id ` set (t_keys (db_tables s))"
  shows "\<exists>s'. repo_create env v s = (None, s') \<and>
    store_of (db_tables s') = (store_of (db_tables s))(r_ID v1 \<mapsto> stamped (db_session s) (c # cs) v1)"
proof -
  have k: "\<not> list_ex (\<lambda>k. k_id k = r_ID v1) (t_keys (db_tables s))"
    "\<not> list_ex (\<lambda>r. r_ID r = r_ID v1 \<and> r_OccurredAt r = r_OccurredAt v1) (t_records (db_tables s))"
    using assms(5) audit_inv_keys [OF assms(3)] unfolding list_ex_iff by (metis imageI)+
  note u = stored_as_fields(1) [OF assms(4)]
  from k obtain s' where s': "repo_create env v s = (None, s')"
    using assms(1,2,4) u by (simp add: repo_create_def exec_tx_quiet insert_key_def insert_record_def audit_actor_def)
  moreover from s' k assms(1,2,4) u have
    "t_records (db_tables s') = t_records (db_tables s) @ [row_of (stamped (db_session s) (c # cs) v1)]"
    by (auto simp: repo_create_def exec_tx_quiet insert_key_def insert_record_def audit_actor_def)
  moreover obtain ss actor where st:
    "store_of (db_tables s') = (store_of (db_tables s))(r_ID v1 \<mapsto> stamped ss actor v1)"
    using repo_create_store [OF assms(3) s'] assms(4) by auto
  ultimately have "stamped ss actor v1 = stamped (db_session s) (c # cs) v1"
    using store_of_in [of "db_tables s'" "row_of (stamped (db_session s) (c # cs) v1)"]
      repo_create_order [OF s'] assms(3) by (simp add: audit_order_def)
  with st s' show ?thesis by metis
qed

text \<open>The parts of \<open>Record\<close> on a world whose database is quiet.\<close>

lemma sql_get_quiet:
  assumes "db_script (w_db w) = []" "audit_inv (world_tables w)"
    and "se_uuid (x_sql x) i = Some ident" "se_text (x_sql x) tn"
  shows "sv_get (new_runtime_service x) i tn w = (case store_of (world_tables w) ident of
      Some r \<Rightarrow> (if r_TenantID r = tn then Inr r else Inl ErrNotFound)
    | None \<Rightarrow> Inl ErrNotFound, w)"
  using assms
  by (simp add: on_db_def repo_get_def world_tables_def select_record_store split: option.splits)

lemma stored_tenant: "stored_as env v = Inr v1 \<Longrightarrow> se_text env (r_TenantID v)"
  by (auto simp: stored_as_iff text_fields_def)

lemma sql_within_quiet:
  assumes "db_script (w_db w) = []" "x_driver x = Some d" "d \<in> {''mysql'', ''pgx'', ''postgres'', ''kingbase''}"
    and "trim_space (p_ID a) \<noteq> []" "audit_inv (world_tables w)" "stored_as (x_sql x) v = Inr kept"
  defines "ss \<equiv> (db_session (w_db w))\<lparr>ss_actor := Some (p_ID a)\<rparr>"
  shows "\<exists>w'. db_script (w_db w') = [] \<and> audit_inv (world_tables w') \<and>
    sv_within (new_runtime_service x) (Some a) (sv_create (new_runtime_service x) v) w =
      (if store_of (world_tables w) (r_ID kept) = None then None else Some ErrDuplicate, w') \<and>
    store_of (world_tables w') = (if store_of (world_tables w) (r_ID kept) = None
      then (store_of (world_tables w))(r_ID kept \<mapsto> stamped ss (p_ID a) kept) else store_of (world_tables w))"
proof -
  let ?s1 = "(w_db w)\<lparr>db_session := ss\<rparr>" and ?create = "repo_create (x_sql x) v"
  obtain c cs where a: "p_ID a = c # cs" using assms(4) by (cases "p_ID a") auto
  have wq: "within (Some d) (Some a) ?create (w_db w) = (case ?create ?s1 of
      (None, s2) \<Rightarrow> (None, end_session s2)
    | (Some e, s2) \<Rightarrow> (Some e, end_session (s2\<lparr>db_tables := db_tables (w_db w)\<rparr>)))"
    unfolding ss_def by (rule within_quiet [OF assms(1,3,4) repo_create_script])
  have s1: "db_script ?s1 = []" "ss_actor (db_session ?s1) = Some (c # cs)" "audit_inv (db_tables ?s1)"
    using assms(1,5) a by (simp_all add: ss_def world_tables_def)
  have dom: "r_ID kept \<in> k_id ` set (t_keys (db_tables ?s1)) \<longleftrightarrow> store_of (world_tables w) (r_ID kept) \<noteq> None"
    using audit_inv_keys [OF s1(3)] dom_store_of [of "world_tables w"] by (auto simp: world_tables_def)
  show ?thesis
  proof (cases "store_of (world_tables w) (r_ID kept) = None")
    case True
    with dom repo_create_new [OF s1 assms(6)] obtain s' where s': "?create ?s1 = (None, s')"
      "store_of (db_tables s') = (store_of (db_tables ?s1))(r_ID kept \<mapsto> stamped (db_session ?s1) (c # cs) kept)"
      by metis
    have "audit_inv (db_tables s')" "db_script s' = []"
      using repo_create_order [OF s'(1)] repo_create_script [OF s'(1)] s1 by (simp_all add: audit_order_def)
    with s' wq True a show ?thesis
      unfolding sql_within_create assms(2)
      by (intro exI [of _ "w\<lparr>w_db := end_session s'\<rparr>"]) (simp add: on_db_def world_tables_def)
  next
    case False
    with dom have "?create ?s1 = (Some ErrDuplicate, ?s1)"
      by (intro repo_create_dup [OF s1(1,2) assms(6)]) simp
    with wq False s1 show ?thesis
      unfolding sql_within_create assms(2)
      by (intro exI [of _ "w\<lparr>w_db := end_session (?s1\<lparr>db_tables := db_tables (w_db w)\<rparr>)\<rparr>"])
        (simp add: on_db_def world_tables_def)
  qed
qed

lemma record_store_quiet:
  assumes "db_script (w_db w) = []" "x_driver x = Some d" "d \<in> {''mysql'', ''pgx'', ''postgres'', ''kingbase''}"
    and "trim_space (p_ID a) \<noteq> []" "audit_inv (world_tables w)" "stored_as (x_sql x) v = Inr kept"
  defines "ss \<equiv> (db_session (w_db w))\<lparr>ss_actor := Some (p_ID a)\<rparr>"
  shows "\<exists>w'. record_store (new_runtime_service x) a v w =
      (case fst (record_spec v (stamped ss (p_ID a) kept) (store_of (world_tables w))) of
         Some r \<Rightarrow> Inr r | None \<Rightarrow> Inl (app_internal (Some ErrDuplicate)), w') \<and>
    store_of (world_tables w') = snd (record_spec v (stamped ss (p_ID a) kept) (store_of (world_tables w)))"
proof -
  obtain w' where w': "db_script (w_db w') = []" "audit_inv (world_tables w')"
    "sv_within (new_runtime_service x) (Some a) (sv_create (new_runtime_service x) v) w =
      (if store_of (world_tables w) (r_ID kept) = None then None else Some ErrDuplicate, w')"
    "store_of (world_tables w') = (if store_of (world_tables w) (r_ID kept) = None
      then (store_of (world_tables w))(r_ID kept \<mapsto> stamped ss (p_ID a) kept) else store_of (world_tables w))"
    using sql_within_quiet [OF assms(1-6)] unfolding ss_def by blast
  note get = sql_get_quiet [OF w'(1,2) stored_as_fields(1) [OF assms(6)] stored_tenant [OF assms(6)]]
  from w' get show ?thesis
    by (intro exI [of _ w'])
      (auto simp: record_store_def record_spec_def ErrDuplicate_def simp del: sql_service_simps
        split: option.splits)
qed

text \<open>What the identifier of a record comes to when nothing disturbs: a new one, the stored record, or itself.\<close>

lemma record_identity_quiet:
  assumes "db_script (w_db w) = []" "audit_inv (world_tables w)" "r_ID v \<noteq> [] \<Longrightarrow> x_uuid_parse x (r_ID v) = None"
    and "r_ID v \<noteq> [] \<Longrightarrow> se_uuid (x_sql x) (r_ID v) = Some canon" "se_text (x_sql x) (trim_space (r_TenantID v))"
  shows "record_identity (new_runtime_service x) (trim_record v) w =
    (if r_ID v = [] then (Inr ((trim_record v)\<lparr>r_ID := x_uuid x (w_calls w)\<rparr>), w\<lparr>w_calls := Suc (w_calls w)\<rparr>)
     else (case store_of (world_tables w) canon of
         Some r \<Rightarrow> if r_TenantID r = trim_space (r_TenantID v) then Inl (Inr r) else Inr (trim_record v)
       | None \<Rightarrow> Inr (trim_record v), w))"
proof (cases "r_ID v = []")
  case True
  then show ?thesis by (simp add: record_identity_def ask_def)
next
  case False
  note get = sql_get_quiet [OF assms(1,2) assms(4) [OF False] assms(5)]
  from False assms(3) show ?thesis
    by (cases "store_of (world_tables w) canon")
      (simp_all add: record_identity_def get ErrNotFound_def del: sql_service_simps(1))
qed

text \<open>A request that passes the checks, up to its identifier.\<close>

lemma service_record_admitted:
  assumes "trim_space (r_Action v) \<noteq> []" "trim_space (r_ResourceType v) \<noteq> []"
      "trim_space (r_ResourceID v) \<noteq> []" "trim_space (r_SourceService v) \<noteq> []"
    and "enforce_tenant caller (r_TenantID v) = None"
    and "verify_user (new_runtime_service x) caller (r_TenantID v) (r_ApplicationID v) False w = (None, w1)"
    and "x_redact x (r_BeforeSummary v) = Inr old" "x_redact x (r_AfterSummary v) = Inr new"
  shows "service_record (new_runtime_service x) (Some caller) v w =
    (case record_identity (new_runtime_service x) (trim_record v) (w1\<lparr>w_calls := Suc (w_calls w1)\<rparr>) of
      (Inl answer, w3) \<Rightarrow> (answer, w3)
    | (Inr v1, w3) \<Rightarrow> record_store (new_runtime_service x) caller
        (complete_record (new_runtime_service x) caller (x_now x (w_calls w1)) old new v1) w3)"
proof -
  have "enforce_tenant caller (r_TenantID (trim_record v)) = None"
    "verify_user (new_runtime_service x) caller (r_TenantID (trim_record v)) (r_ApplicationID (trim_record v)) False w = (None, w1)"
    using assms(5,6) by simp_all
  with assms(1-4,7,8) show ?thesis
    by (simp add: service_record_def Let_def ask_def del: trim_record_fields(1,2,3))
qed

text \<open>
  C4. \<open>Record\<close> implements \<open>record_spec\<close>: on a quiet database, once the caller's checks
  have passed and the columns take the values, the answer and the new store are those of the
  specification: the answer is the request completed by the service (identifier, actor, times,
  redacted summaries, version 1), what is stored is that request as the columns keep it, stamped
  by the database, and identifiers are compared in the canonical form of the \<open>UUID\<close> column.
\<close>

lemma record_refines_store:
  fixes kept :: audit_record
  assumes "db_script (w_db w) = []" "audit_inv (world_tables w)"
    and "x_driver x = Some d" "d \<in> {''mysql'', ''pgx'', ''postgres'', ''kingbase''}"
    and "trim_space (p_ID caller) \<noteq> []"
    and "trim_space (r_Action v) \<noteq> []" "trim_space (r_ResourceType v) \<noteq> []"
      "trim_space (r_ResourceID v) \<noteq> []" "trim_space (r_SourceService v) \<noteq> []"
    and "enforce_tenant caller (r_TenantID v) = None"
    and "verify_user (new_runtime_service x) caller (r_TenantID v) (r_ApplicationID v) False w = (None, w1)"
    and "x_redact x (r_BeforeSummary v) = Inr old" "x_redact x (r_AfterSummary v) = Inr new"
    and "r_ID v \<noteq> [] \<Longrightarrow> x_uuid_parse x (r_ID v) = None"
  defines "ident \<equiv> if r_ID v = [] then x_uuid x (Suc (w_calls w1)) else r_ID v"
  defines "full \<equiv> complete_record (new_runtime_service x) caller (x_now x (w_calls w1)) old new
    ((trim_record v)\<lparr>r_ID := ident\<rparr>)"
  defines "ss \<equiv> (db_session (w_db w))\<lparr>ss_actor := Some (p_ID caller)\<rparr>"
  defines "spec \<equiv> record_spec full (stamped ss (p_ID caller) kept) (store_of (world_tables w))"
  assumes "stored_as (x_sql x) full = Inr kept"
  shows "\<exists>w'. service_record (new_runtime_service x) (Some caller) v w =
      (case fst spec of Some r \<Rightarrow> Inr r | None \<Rightarrow> Inl (app_internal (Some ErrDuplicate)), w') \<and>
    store_of (world_tables w') = snd spec"
proof -
  let ?sv = "new_runtime_service x" and ?v = "trim_record v"
  have w1: "w_db w1 = w_db w" using assms(11)
    by (auto simp: verify_user_def verify_application_def Let_def ask_def split: if_splits option.splits)
  let ?w2 = "w1\<lparr>w_calls := Suc (w_calls w1)\<rparr>"
  note start = service_record_admitted [OF assms(6-13)]
  have store: "\<exists>w'. record_store ?sv caller full w3 =
      (case fst spec of Some r \<Rightarrow> Inr r | None \<Rightarrow> Inl (app_internal (Some ErrDuplicate)), w') \<and>
    store_of (world_tables w') = snd spec" if "w_db w3 = w_db w" for w3
    using record_store_quiet [of w3, OF _ assms(3,4,5) _ assms(19)] that assms(1,2) w1
    by (simp add: spec_def ss_def world_tables_def)
  have full: "r_ID full = ident" "r_TenantID full = trim_space (r_TenantID v)"
    by (simp_all add: full_def complete_record_def Let_def)
  have canon: "r_ID v \<noteq> [] \<Longrightarrow> se_uuid (x_sql x) (r_ID v) = Some (r_ID kept)"
    and tenant_ok: "se_text (x_sql x) (trim_space (r_TenantID v))"
    using stored_as_fields(1) [OF assms(19)] stored_tenant [OF assms(19)] full by (simp_all add: ident_def)
  have identity: "record_identity ?sv ?v ?w2 = (if r_ID v = [] then (Inr (?v\<lparr>r_ID := ident\<rparr>), ?w2\<lparr>w_calls := Suc (w_calls ?w2)\<rparr>)
     else (case store_of (world_tables w) (r_ID kept) of
         Some r \<Rightarrow> if r_TenantID r = trim_space (r_TenantID v) then Inl (Inr r) else Inr ?v | None \<Rightarrow> Inr ?v, ?w2))"
    using record_identity_quiet [of ?w2, OF _ _ assms(14) canon tenant_ok] w1 assms(1,2)
    by (simp add: world_tables_def ident_def)
  have v: "?v\<lparr>r_ID := ident\<rparr> = ?v" "ident = r_ID v" if "r_ID v \<noteq> []" using that by (simp_all add: ident_def trim_record_def)
  consider (fresh) "r_ID v = []"
    | (found) r where "r_ID v \<noteq> []" "store_of (world_tables w) (r_ID kept) = Some r" "r_TenantID r = trim_space (r_TenantID v)"
    | (absent) "r_ID v \<noteq> []" "\<forall>r. store_of (world_tables w) (r_ID kept) = Some r \<longrightarrow> r_TenantID r \<noteq> trim_space (r_TenantID v)"
    by blast
  then show ?thesis
  proof cases
    case fresh
    with start store w1 identity show ?thesis by (simp add: full_def)
  next
    case found
    then have "record_identity ?sv ?v ?w2 = (Inl (Inr r), ?w2)" using identity by simp
    with start found full w1 show ?thesis
      by (simp add: spec_def record_spec_def world_tables_def)
  next
    case absent
    then have "record_identity ?sv ?v ?w2 = (Inr ?v, ?w2)" using identity by (auto split: option.splits)
    moreover from v(1) [OF absent(1)] have "full = complete_record ?sv caller (x_now x (w_calls w1)) old new ?v"
      unfolding full_def by (rule arg_cong)
    ultimately show ?thesis using start store [of ?w2] w1 by simp
  qed
qed

text \<open>
  Applied twice: a new record, answered with its nanoseconds and stored without them, and the same
  request again, answered from the store.
\<close>

lemma record_refines_store_witness:
  "(\<exists>r w'. service_record (new_runtime_service ex_externals) (Some ex_user) ex_record ex_empty = (Inr r, w') \<and>
     r_OccurredAt r = 5123 \<and> map_option r_OccurredAt (store_of (world_tables w') ''i1'') = Some 5000) \<and>
   (\<exists>w'. service_record (new_runtime_service ex_externals) (Some ex_user) ex_record ex_world =
      (Inr (the (store_of (world_tables ex_world) ''i1'')), w') \<and>
    store_of (world_tables w') = store_of (world_tables ex_world))"
proof -
  let ?x = ex_externals and ?v = ex_record
  let ?w1 = "\<lambda>w. snd (verify_user (new_runtime_service ?x) ex_user (r_TenantID ?v) (r_ApplicationID ?v) False w)"
  let ?full = "\<lambda>w. complete_record (new_runtime_service ?x) ex_user (x_now ?x (w_calls (?w1 w))) [] []
    ((trim_record ?v)\<lparr>r_ID := if r_ID ?v = [] then x_uuid ?x (Suc (w_calls (?w1 w))) else r_ID ?v\<rparr>)"
  let ?kept = "\<lambda>w. (?full w)\<lparr>r_OccurredAt := 5000\<rparr>"
  let ?stored = "\<lambda>w. stamped ((db_session (w_db w))\<lparr>ss_actor := Some (p_ID ex_user)\<rparr>) (p_ID ex_user) (?kept w)"
  let ?spec = "\<lambda>w. record_spec (?full w) (?stored w) (store_of (world_tables w))"
  have refines: "\<exists>w'. service_record (new_runtime_service ?x) (Some ex_user) ?v w =
      (case fst (?spec w) of Some r \<Rightarrow> Inr r | None \<Rightarrow> Inl (app_internal (Some ErrDuplicate)), w') \<and>
    store_of (world_tables w') = snd (?spec w)"
    if "db_script (w_db w) = []" "audit_inv (world_tables w)"
      "verify_user (new_runtime_service ?x) ex_user (r_TenantID ?v) (r_ApplicationID ?v) False w = (None, ?w1 w)"
      "stored_as (x_sql ?x) (?full w) = Inr (?kept w)" for w
  proof -
    have "x_driver ?x = Some ''pgx''" "trim_space (p_ID ex_user) \<noteq> []"
      "trim_space (r_Action ?v) \<noteq> []" "trim_space (r_ResourceType ?v) \<noteq> []"
      "trim_space (r_ResourceID ?v) \<noteq> []" "trim_space (r_SourceService ?v) \<noteq> []"
      "enforce_tenant ex_user (r_TenantID ?v) = None" "x_redact ?x (r_BeforeSummary ?v) = Inr []"
      "x_redact ?x (r_AfterSummary ?v) = Inr []" "x_uuid_parse ?x (r_ID ?v) = None" by code_simp+
    with that show ?thesis
      by (intro record_refines_store [where d = "''pgx''"]) simp_all
  qed
  have empty: "verify_user (new_runtime_service ?x) ex_user (r_TenantID ?v) (r_ApplicationID ?v) False ex_empty = (None, ?w1 ex_empty)"
    and world: "verify_user (new_runtime_service ?x) ex_user (r_TenantID ?v) (r_ApplicationID ?v) False ex_world = (None, ?w1 ex_world)"
    by (rule prod_eqI, simp_all, code_simp)+
  have facts: "db_script (w_db ex_empty) = []" "audit_inv (world_tables ex_empty)"
    "db_script (w_db ex_world) = []" "audit_inv (world_tables ex_world)"
    "stored_as (x_sql ?x) (?full ex_empty) = Inr (?kept ex_empty)"
    "stored_as (x_sql ?x) (?full ex_world) = Inr (?kept ex_world)"
    "map_of (map (\<lambda>r. (r_ID r, record_of r)) (t_records (world_tables ex_empty))) ''i1'' = None"
    "r_ID (?stored ex_empty) = ''i1''" "r_OccurredAt (?full ex_empty) = 5123"
    "r_OccurredAt (?stored ex_empty) = 5000" by code_simp+
  have "?spec ex_empty = (Some (?full ex_empty), (store_of (world_tables ex_empty))(''i1'' \<mapsto> ?stored ex_empty))"
    using facts(7,8) by (simp add: record_spec_def store_of_def)
  with refines [OF facts(1,2) empty facts(5)] facts(9,10)
  have "\<exists>r w'. service_record (new_runtime_service ex_externals) (Some ex_user) ex_record ex_empty = (Inr r, w') \<and>
     r_OccurredAt r = 5123 \<and> map_option r_OccurredAt (store_of (world_tables w') ''i1'') = Some 5000"
    by auto
  moreover have "store_of (world_tables ex_world) ''i1'' \<noteq> None"
    "r_TenantID (the (store_of (world_tables ex_world) ''i1'')) = ''t1''"
    "r_ID (?stored ex_world) = ''i1''" "r_TenantID (?full ex_world) = ''t1''" by code_simp+
  then have "?spec ex_world = (Some (the (store_of (world_tables ex_world) ''i1'')), store_of (world_tables ex_world))"
    unfolding record_spec_def by (auto split: option.splits)
  with refines [OF facts(3,4) world facts(6)]
  have "\<exists>w'. service_record (new_runtime_service ex_externals) (Some ex_user) ex_record ex_world =
      (Inr (the (store_of (world_tables ex_world) ''i1'')), w') \<and>
    store_of (world_tables w') = store_of (world_tables ex_world)" by simp
  ultimately show ?thesis by blast
qed

end
