(* ===== verification/Audit_Query_Facts.thy ===== *)
theory Audit_Query_Facts
  imports Audit_Examples "HOL-Library.Sublist"
begin

text \<open>
  What \<open>Get\<close> and \<open>Query\<close> guarantee: reads stay inside the caller's tenant and
  application, requests outside the bounds are refused, the SQL text binds every value, and a
  query returns a page of the records its filter describes.
\<close>

section \<open>Isolation\<close>

text \<open>
  C8. A user reads only records of their own tenant: whatever tenant and identifier they pass,
  in any state of the database and under any failures, a record \<open>Get\<close> returns has the
  identifier asked for, in the canonical form of the \<open>UUID\<close> column, and belongs to the tenant of the caller, and when it belongs to an
  application, the application service was asked about exactly that tenant and application
  and granted it.
\<close>

lemma get_within_tenant:
  assumes "service_get (new_runtime_service x) (Some caller) i tn w = (Inr r, w')"
    and "p_Type caller = TypeUser"
  shows "se_uuid (x_sql x) (trim_space i) = Some (r_ID r) \<and> r_TenantID r = p_TenantID caller \<and>
    (trim_space (r_ApplicationID r) \<noteq> [] \<longrightarrow>
       (\<exists>n. x_verify x n (r_TenantID r) (trim_space (r_ApplicationID r)) = None))"
  using sql_reads.get_isolated [OF assms] by (auto simp: ask_def)

lemma get_within_tenant_witness:
  "r_TenantID (the (store_of (world_tables ex_world) ''i1'')) = ''t1''"
proof -
  let ?run = "service_get (new_runtime_service ex_externals) (Some ex_user) '' i1'' ''t1'' ex_world"
  let ?r = "the (store_of (world_tables ex_world) ''i1'')"
  have "fst ?run = Inr ?r" "p_Type ex_user = TypeUser" "p_TenantID ex_user = ''t1''" by code_simp+
  then show ?thesis using get_within_tenant [of ex_externals ex_user "'' i1''" "''t1''" ex_world ?r "snd ?run"]
    by (simp add: prod_eq_iff)
qed

text \<open>
  C10. A user's query returns only records of their own tenant and of the one application they
  named, and only after the application service granted them exactly that application in that
  tenant; a user's query that names no application returns nothing but an error.
\<close>

lemma query_within_tenant:
  assumes "service_query (new_runtime_service x) (Some caller) flt w = (Inr page, w')"
    and "p_Type caller = TypeUser" "r \<in> set (pg_Records page)"
  shows "r_TenantID r = p_TenantID caller \<and> r_ApplicationID r = trim_space (f_ApplicationID flt) \<and>
    r_ApplicationID r \<noteq> [] \<and> x_verify x (w_calls w) (r_TenantID r) (r_ApplicationID r) = None"
proof -
  obtain w1 where "verify_user (new_runtime_service x) caller (trim_space (f_TenantID flt))
      (trim_space (f_ApplicationID flt)) True w = (None, w1)"
    using service_query_ok [OF assms(1)] by (metis option.inject)
  from verify_user_granted [OF this assms(2)] sql_reads.query_isolated [OF assms]
  show ?thesis by (auto simp: ask_def)
qed

lemma ex_query_runs:
  obtains page w' where
    "service_query (new_runtime_service ex_externals) (Some ex_user) ex_filter ex_world = (Inr page, w')"
    "length (pg_Records page) = 1"
proof -
  let ?run = "service_query (new_runtime_service ex_externals) (Some ex_user) ex_filter ex_world"
  have "map_sum id (\<lambda>page. length (pg_Records page)) (fst ?run) = Inr 1" by code_simp
  then show thesis using that by (cases ?run; cases "fst ?run") auto
qed

lemma query_within_tenant_witness:
  "\<exists>page w'. service_query (new_runtime_service ex_externals) (Some ex_user) ex_filter ex_world = (Inr page, w') \<and>
     pg_Records page \<noteq> [] \<and> (\<forall>r \<in> set (pg_Records page). r_TenantID r = ''t1'' \<and> r_ApplicationID r = ''app'')"
proof -
  obtain page w' where run:
    "service_query (new_runtime_service ex_externals) (Some ex_user) ex_filter ex_world = (Inr page, w')"
    "length (pg_Records page) = 1" by (rule ex_query_runs)
  have u: "p_Type ex_user = TypeUser" "p_TenantID ex_user = ''t1''" by code_simp+
  moreover have "trim_space (f_ApplicationID ex_filter) = ''app''" by code_simp
  ultimately show ?thesis using query_within_tenant [OF run(1) u(1)] run
    by (intro exI [of _ page] exI [of _ w']) auto
qed

section \<open>Bounds of a query\<close>

lemma filter_checks_ok:
  assumes "first_error (filter_checks sv f) = None"
  shows "length (f_IDs f) \<le> 100" "length (f_Keyword f) \<le> 200"
    "\<forall>i \<in> set (f_IDs f). sv_uuid_parse sv i = None"
    "f_Keyword f \<noteq> [] \<Longrightarrow> \<not> is_zero (f_OccurredFrom f) \<and> \<not> is_zero (f_OccurredTo f) \<and>
       f_OccurredFrom f \<le> f_OccurredTo f \<and> f_OccurredTo f - f_OccurredFrom f \<le> max_keyword_range"
proof -
  have "time_sub t u \<le> max_keyword_range \<Longrightarrow> t - u \<le> max_keyword_range" for t u
    by (simp add: time_sub_def max_keyword_range_def hour_def second_def)
  moreover have "\<forall>c \<in> set (filter_checks sv f). \<not> fst c" using assms by (simp only: first_error_None)
  ultimately show "length (f_IDs f) \<le> 100" "length (f_Keyword f) \<le> 200"
    "\<forall>i \<in> set (f_IDs f). sv_uuid_parse sv i = None"
    "f_Keyword f \<noteq> [] \<Longrightarrow> \<not> is_zero (f_OccurredFrom f) \<and> \<not> is_zero (f_OccurredTo f) \<and>
       f_OccurredFrom f \<le> f_OccurredTo f \<and> f_OccurredTo f - f_OccurredFrom f \<le> max_keyword_range"
    by (auto simp: filter_checks_def ball_Un not_less)
qed

text \<open>
  C13. A query that is answered was within its bounds: at most 100 identifiers, each of which
  parses, a keyword of at most 200 bytes and then a range of at most 31 days, a page number of
  at least 1 and between 1 and 100 records per page, no more of which are returned.
\<close>

lemma query_bounded:
  assumes "service_query (new_runtime_service x) ctx flt w = (Inr page, w')"
  shows "length (normalize_ids {} (f_IDs flt)) \<le> 100 \<and>
    (\<forall>i \<in> set (normalize_ids {} (f_IDs flt)). x_uuid_parse x i = None) \<and>
    length (trim_space (f_Keyword flt)) \<le> 200 \<and>
    (trim_space (f_Keyword flt) \<noteq> [] \<longrightarrow> f_OccurredFrom flt \<le> f_OccurredTo flt \<and>
       f_OccurredTo flt - f_OccurredFrom flt \<le> 31 * 24 * 3600 * 1000000000) \<and>
    1 \<le> pg_Page page \<and> 1 \<le> pg_PageSize page \<and> pg_PageSize page \<le> 100 \<and>
    int (length (pg_Records page)) \<le> pg_PageSize page"
proof -
  from assms obtain w1 where h: "first_error (filter_checks (new_runtime_service x) (normalize_filter flt)) = None"
    "f_PageSize (default_paging (normalize_filter flt)) \<le> 100"
    "sv_query (new_runtime_service x) (default_paging (normalize_filter flt)) w1 = (Inr (pg_Records page, pg_Total page), w')"
    "pg_Page page = f_Page (default_paging (normalize_filter flt))"
    "pg_PageSize page = f_PageSize (default_paging (normalize_filter flt))"
    by (rule service_query_ok)
  note c = filter_checks_ok [OF h(1), simplified]
  have "trim_space (f_Keyword flt) \<noteq> [] \<longrightarrow> f_OccurredFrom flt \<le> f_OccurredTo flt \<and>
      f_OccurredTo flt - f_OccurredFrom flt \<le> 31 * 24 * 3600 * 1000000000"
    using c(4) by (simp add: max_keyword_range_def hour_def second_def)
  moreover have "1 \<le> pg_Page page" "1 \<le> pg_PageSize page" "pg_PageSize page \<le> 100"
    using h(2,4,5) by simp_all
  moreover have "int (length (pg_Records page)) \<le> pg_PageSize page"
    using sql_reads.query_size [OF h(3)] \<open>1 \<le> pg_PageSize page\<close> unfolding h(5) by simp
  ultimately show ?thesis using c(1-3) by (intro conjI)
qed

lemma query_bounded_witness:
  "\<exists>page w'. service_query (new_runtime_service ex_externals) (Some ex_user) ex_filter ex_world = (Inr page, w') \<and>
     pg_PageSize page \<le> 100"
proof -
  obtain page w' where run:
    "service_query (new_runtime_service ex_externals) (Some ex_user) ex_filter ex_world = (Inr page, w')"
    by (rule ex_query_runs)
  from query_bounded [OF run] run show ?thesis by blast
qed


section \<open>The statement of a query\<close>

lemma count_join:
  "count_list sep c = 0 \<Longrightarrow> count_list (join sep xs) c = sum_list (map (\<lambda>x. count_list x c) xs)"
  by (induction sep xs rule: join.induct) auto

lemma count_cond_text:
  assumes "c \<in> set (query_conds uni f)"
  shows "count_list (cond_text c) (CHR ''?'') = length (cond_args c)"
proof -
  have "\<forall>x \<in> set (column_filters f). CHR ''?'' \<notin> set (fst x)" by (simp add: column_filters_def)
  then have "CHR ''?'' \<notin> set column" if "c = Equals column v" for column v
    using assms that by (auto simp: query_conds_def)
  moreover have "sum_list (map (\<lambda>x. count_list x (CHR ''?'')) (map (\<lambda>_. ''?'') ys)) = length ys" for ys :: "string list"
    by (induction ys) auto
  ultimately show ?thesis
    by (cases c) (auto simp: count_join keyword_columns_def count_notin)
qed

lemma column_texts_shape:
  "list_all2 (\<lambda>x y. fst x = fst y \<and> (snd x = [] \<longleftrightarrow> snd y = [])) xs ys \<Longrightarrow>
   map cond_text (map (\<lambda>(c, v). Equals c v) (filter (\<lambda>(c, v). v \<noteq> []) xs))
     = map cond_text (map (\<lambda>(c, v). Equals c v) (filter (\<lambda>(c, v). v \<noteq> []) ys))"
  by (induction xs ys rule: list_all2_induct) auto

text \<open>Which restrictions a filter makes, without their values.\<close>

definition filter_shape :: "audit_filter \<Rightarrow> bool list \<times> nat \<times> bool \<times> bool \<times> bool" where
  "filter_shape f = (map (\<lambda>(c, v). v = []) (column_filters f), length (f_IDs f), f_Keyword f = [],
     is_zero (f_OccurredFrom f), is_zero (f_OccurredTo f))"

text \<open>
  C12. Values reach the database only as arguments: the text of the \<open>WHERE\<close> clause has exactly
  one placeholder per argument, and it is the same for any two filters that restrict the same
  fields, so no value a caller sends can change the statement.
\<close>

lemma where_binds_values:
  assumes "filter_shape f = filter_shape g"
  shows "count_list (fst (query_where uni f)) (CHR ''?'') = length (snd (query_where uni f)) \<and>
    fst (query_where uni f) = fst (query_where uni g)"
proof
  have "sum_list (map (\<lambda>x. count_list x (CHR ''?'')) (map cond_text (query_conds uni f)))
      = sum_list (map (length \<circ> cond_args) (query_conds uni f))"
    by (simp add: count_cond_text cong: map_cong)
  then show "count_list (fst (query_where uni f)) (CHR ''?'') = length (snd (query_where uni f))"
    by (simp add: query_where_def Let_def count_join length_concat comp_def)
  have "list_all2 (\<lambda>x y. fst x = fst y \<and> (snd x = [] \<longleftrightarrow> snd y = [])) (column_filters f) (column_filters g)"
    using assms by (simp add: filter_shape_def column_filters_def)
  note c = column_texts_shape [OF this]
  have "map (\<lambda>_. ''?'') (f_IDs f) = map (\<lambda>_. ''?'') (f_IDs g)" and i: "f_IDs f = [] \<longleftrightarrow> f_IDs g = []"
    using assms by (auto simp: filter_shape_def map_replicate_const)
  then show "fst (query_where uni f) = fst (query_where uni g)"
    using assms c unfolding query_where_def Let_def query_conds_def
    by (simp add: filter_shape_def)
qed

lemma where_binds_values_witness:
  "fst (query_where (\<lambda>s. s) ex_filter)
     = fst (query_where (\<lambda>s. s) (ex_filter\<lparr>f_Action := [CHR 0x27] @ '' OR 1=1''\<rparr>))"
proof -
  have "filter_shape ex_filter = filter_shape (ex_filter\<lparr>f_Action := [CHR 0x27] @ '' OR 1=1''\<rparr>)" by code_simp
  from where_binds_values [OF this] show ?thesis by blast
qed

section \<open>What a query returns\<close>

lemma like_percent: "like (CHR ''%'' # ps) s \<longleftrightarrow> (\<exists>a b. s = a @ b \<and> like ps b)"
proof (induction s)
  case Nil
  then show ?case by (simp add: like.simps(2))
next
  case (Cons c s)
  have "like (CHR ''%'' # ps) (c # s) \<longleftrightarrow> like ps (c # s) \<or> (\<exists>a b. s = a @ b \<and> like ps b)"
    using Cons by (subst like.simps(2)) simp
  also have "\<dots> \<longleftrightarrow> (\<exists>a b. c # s = a @ b \<and> like ps b)" by (auto simp: Cons_eq_append_conv)
  finally show ?case .
qed

lemma like_plain:
  "set k \<inter> {CHR ''%'', CHR ''_'', CHR 0x5C} = {} \<Longrightarrow> like (k @ ps) s \<longleftrightarrow> (\<exists>r. s = k @ r \<and> like ps r)"
proof (induction k arbitrary: s)
  case (Cons c k)
  have c: "c \<noteq> CHR ''%''" "c \<noteq> CHR ''_''" "c \<noteq> CHR 0x5C" using Cons.prems by auto
  have "like ((c # k) @ ps) s \<longleftrightarrow> (\<exists>cs. s = c # cs \<and> like (k @ ps) cs)"
    unfolding append_Cons by (subst like.simps(2)) (simp add: c split: list.split)
  also have "\<dots> \<longleftrightarrow> (\<exists>cs r. s = c # cs \<and> cs = k @ r \<and> like ps r)"
  proof -
    have "set k \<inter> {CHR ''%'', CHR ''_'', CHR 0x5C} = {}" using Cons.prems by auto
    note ih = Cons.IH [OF this]
    show ?thesis unfolding ih by blast
  qed
  finally show ?case by auto
qed simp

lemma like_substring:
  assumes "set k \<inter> {CHR ''%'', CHR ''_'', CHR 0x5C} = {}"
  shows "like (''%'' @ k @ ''%'') s \<longleftrightarrow> sublist k s"
proof -
  have any: "like ''%'' r" for r
    unfolding like_percent by (rule exI [of _ r], rule exI [of _ "[]"]) simp
  have "like (''%'' @ k @ ''%'') s \<longleftrightarrow> (\<exists>a b. s = a @ b \<and> like (k @ ''%'') b)"
    by (simp add: like_percent)
  also have "\<dots> \<longleftrightarrow> (\<exists>a r. s = a @ k @ r)"
    unfolding like_plain [OF assms] using any by blast
  finally show ?thesis by (simp add: sublist_def)
qed

text \<open>
  What a filter means, field by field, with the keyword as a substring of one of seven columns,
  letter case aside, identifiers in their canonical form and times to the microsecond, as the
  columns keep them.
\<close>

definition filter_accepts :: "sql_env \<Rightarrow> audit_filter \<Rightarrow> audit_record \<Rightarrow> bool" where
  "filter_accepts env f r \<longleftrightarrow> r_TenantID r = f_TenantID f \<and>
     (f_ApplicationID f \<noteq> [] \<longrightarrow> r_ApplicationID r = f_ApplicationID f) \<and>
     (f_ActorID f \<noteq> [] \<longrightarrow> r_ActorID r = f_ActorID f) \<and>
     (f_ActorType f \<noteq> [] \<longrightarrow> r_ActorType r = f_ActorType f) \<and>
     (f_Action f \<noteq> [] \<longrightarrow> r_Action r = f_Action f) \<and>
     (f_ResourceType f \<noteq> [] \<longrightarrow> r_ResourceType r = f_ResourceType f) \<and>
     (f_ResourceID f \<noteq> [] \<longrightarrow> r_ResourceID r = f_ResourceID f) \<and>
     (f_RequestID f \<noteq> [] \<longrightarrow> r_RequestID r = f_RequestID f) \<and>
     (f_TraceID f \<noteq> [] \<longrightarrow> r_TraceID r = f_TraceID f) \<and>
     (f_SourceService f \<noteq> [] \<longrightarrow> r_SourceService r = f_SourceService f) \<and>
     (f_IDs f \<noteq> [] \<longrightarrow> Some (r_ID r) \<in> se_uuid env ` set (f_IDs f)) \<and>
     (f_Keyword f \<noteq> [] \<longrightarrow> (\<exists>v \<in> {r_ActorID r, r_Action r, r_ResourceType r, r_ResourceID r,
        r_RequestID r, r_TraceID r, r_SourceService r}. sublist (to_lower (se_uni env) (f_Keyword f)) (se_lower env v))) \<and>
     (\<not> is_zero (f_OccurredFrom f) \<longrightarrow> column_time (f_OccurredFrom f) \<le> r_OccurredAt r) \<and>
     (\<not> is_zero (f_OccurredTo f) \<longrightarrow> r_OccurredAt r \<le> column_time (f_OccurredTo f))"

lemma column_simps [simp]:
  "column ''application_id'' r = r_ApplicationID r" "column ''actor_id'' r = r_ActorID r"
  "column ''actor_type'' r = r_ActorType r" "column ''action'' r = r_Action r"
  "column ''resource_type'' r = r_ResourceType r" "column ''resource_id'' r = r_ResourceID r"
  "column ''request_id'' r = r_RequestID r" "column ''trace_id'' r = r_TraceID r"
  "column ''source_service'' r = r_SourceService r" "column ''tenant_id'' r = r_TenantID r"
  by (simp_all add: column_def)

lemma conds_accept:
  assumes "set (to_lower (se_uni env) (f_Keyword f)) \<inter> {CHR ''%'', CHR ''_'', CHR 0x5C} = {}"
  shows "list_all (\<lambda>c. cond_holds env c row) (query_conds (se_uni env) f) \<longleftrightarrow>
    row_deleted_at row = None \<and> filter_accepts env f (record_of row)"
proof -
  have cols: "list_all (\<lambda>c. cond_holds env c row)
      (map (\<lambda>(c, v). Equals c v) (filter (\<lambda>(c, v). v \<noteq> []) xs)) \<longleftrightarrow>
    list_all (\<lambda>(c, v). v \<noteq> [] \<longrightarrow> column c (record_of row) = v) xs" for xs
    by (induction xs) auto
  have opt: "list_all P (if b then [c] else []) \<longleftrightarrow> (b \<longrightarrow> P c)" for P b and c :: cond
    by simp
  have kw: "cond_holds env (KeywordLike (CHR ''%'' # to_lower (se_uni env) (f_Keyword f) @ ''%'')) row \<longleftrightarrow>
    (\<exists>c \<in> set keyword_columns. sublist (to_lower (se_uni env) (f_Keyword f)) (se_lower env (column c (record_of row))))"
    using like_substring [OF assms] by (simp add: list_ex_iff)
  show ?thesis
    unfolding query_conds_def filter_accepts_def list_all_append cols opt
    by (simp add: column_filters_def kw keyword_columns_def del: cond_holds.simps(4)) argo
qed

text \<open>The records a filter describes, in the order of the answer.\<close>

definition filter_hits :: "sql_env \<Rightarrow> audit_filter \<Rightarrow> audit_tables \<Rightarrow> audit_record list" where
  "filter_hits env f t = sort_key row_key (filter (filter_accepts env f) (map record_of (t_records t)))"

lemma default_paging_eq: "default_paging f = f\<lparr>f_Page := if f_Page f \<le> 0 then 1 else f_Page f,
    f_PageSize := if f_PageSize f \<le> 0 then 20 else f_PageSize f\<rparr>"
  by (simp add: default_paging_def Let_def)

lemma query_conds_paging [simp]: "query_conds uni (default_paging f) = query_conds uni f"
  unfolding query_conds_def column_filters_def default_paging_eq by simp

lemma args_valid_paging [simp]: "args_valid env (default_paging f) = args_valid env f"
  by (simp add: args_valid_def)

lemma repo_query_args: "repo_query env f s = (Inr (rs, n), s') \<Longrightarrow> args_valid env f"
  by (erule repo_query_ok) (simp add: select_page_def split: if_splits)

lemma matching_hits:
  assumes "audit_inv t" "set (to_lower (se_uni env) (f_Keyword f)) \<inter> {CHR ''%'', CHR ''_'', CHR 0x5C} = {}"
  shows "sort_key row_key (matching env f t) = filter_hits env f t"
    "length (matching env f t) = length (filter_hits env f t)"
proof -
  have "matching env f t = filter (filter_accepts env f) (map record_of (t_records t))"
    using assms(1) unfolding matching_def filter_map conds_accept [OF assms(2)]
    by (auto simp: audit_inv_def comp_def intro!: arg_cong [of _ _ "map record_of"] filter_cong)
  then show "sort_key row_key (matching env f t) = filter_hits env f t"
    "length (matching env f t) = length (filter_hits env f t)" by (simp_all add: filter_hits_def)
qed

lemma distinct_filter_hits:
  assumes "audit_inv t"
  shows "distinct (filter_hits env f t)"
proof -
  have "distinct (map r_ID (map record_of (t_records t)))"
    using assms by (simp add: audit_inv_def comp_def)
  then have "distinct (map record_of (t_records t))" unfolding distinct_map [of r_ID] by blast
  then show ?thesis by (simp add: filter_hits_def)
qed

lemma repo_query_quiet:
  assumes "db_script s = []" "audit_inv (db_tables s)" "1 \<le> f_Page f" "1 \<le> f_PageSize f"
    "f_Page f < 2 ^ 63" "(f_Page f - 1) * f_PageSize f < 2 ^ 63"
    "set (to_lower (se_uni env) (f_Keyword f)) \<inter> {CHR ''%'', CHR ''_'', CHR 0x5C} = {}"
    "args_valid env f"
  shows "repo_query env f s = (Inr (take (nat (f_PageSize f)) (drop (nat ((f_Page f - 1) * f_PageSize f))
      (filter_hits env f (db_tables s))), int (length (filter_hits env f (db_tables s)))), s)"
proof -
  have "0 \<le> (f_Page f - 1) * f_PageSize f" using assms(3,4) by simp
  with assms(3,5,6) have "query_offset f = (f_Page f - 1) * f_PageSize f"
    by (simp add: query_offset_def wrap64_id)
  with assms(1,4,8) \<open>0 \<le> (f_Page f - 1) * f_PageSize f\<close> show ?thesis
    by (simp add: repo_query_def count_records_def select_page_def matching_hits [OF assms(2,7)])
qed

text \<open>
  C11. On a quiet database, for a keyword free of the pattern characters of \<open>LIKE\<close> (percent,
  underscore, backslash) and a page within 64 bits, an answered query carries the number of all
  records of the filter's tenant that meet every restriction it makes, and of those, latest first,
  exactly the requested page; it changes nothing.
\<close>

lemma query_returns_page:
  assumes "service_query (new_runtime_service x) ctx flt w = (Inr page, w')"
    and "db_script (w_db w) = []" "audit_inv (world_tables w)"
    and "set (to_lower (se_uni (x_sql x)) (trim_space (f_Keyword flt))) \<inter> {CHR ''%'', CHR ''_'', CHR 0x5C} = {}"
    and "pg_Page page < 2 ^ 63" "(pg_Page page - 1) * pg_PageSize page < 2 ^ 63"
  defines "hits \<equiv> filter_hits (x_sql x) (normalize_filter flt) (world_tables w)"
  shows "pg_Records page = take (nat (pg_PageSize page)) (drop (nat ((pg_Page page - 1) * pg_PageSize page)) hits) \<and>
    pg_Total page = int (length hits) \<and> world_tables w' = world_tables w"
proof -
  let ?g = "default_paging (normalize_filter flt)"
  from assms(1) obtain caller w1 where h:
    "verify_user (new_runtime_service x) caller (trim_space (f_TenantID flt)) (trim_space (f_ApplicationID flt)) True w = (None, w1)"
    "sv_query (new_runtime_service x) ?g w1 = (Inr (pg_Records page, pg_Total page), w')"
    "pg_Page page = f_Page ?g" "pg_PageSize page = f_PageSize ?g"
    by (rule service_query_ok)
  have w1: "w_db w1 = w_db w" using h(1)
    by (auto simp: verify_user_def verify_application_def Let_def ask_def split: if_splits option.splits)
  have g: "filter_hits (x_sql x) ?g t = filter_hits (x_sql x) (normalize_filter flt) t" for t
    unfolding filter_hits_def filter_accepts_def default_paging_eq by simp
  have "args_valid (x_sql x) ?g" using h(2) by (auto simp: on_db_eq dest: repo_query_args)
  moreover have "f_Keyword ?g = trim_space (f_Keyword flt)" by (simp add: default_paging_eq)
  ultimately have "repo_query (x_sql x) ?g (w_db w) = (Inr (take (nat (f_PageSize ?g)) (drop (nat ((f_Page ?g - 1) * f_PageSize ?g)) hits),
      int (length hits)), w_db w)"
    using repo_query_quiet [of "w_db w" ?g "x_sql x"] assms(2-6) h(3,4)
    by (simp add: g hits_def world_tables_def)
  with h(2-4) w1 show ?thesis by (auto simp: on_db_def world_tables_def)
qed

lemma query_returns_page_witness:
  "\<exists>page w'. service_query (new_runtime_service ex_externals) (Some ex_user) ex_filter ex_world = (Inr page, w') \<and>
     pg_Total page = int (length (filter_hits ex_env (normalize_filter ex_filter) (world_tables ex_world)))"
proof -
  obtain page w' where run:
    "service_query (new_runtime_service ex_externals) (Some ex_user) ex_filter ex_world = (Inr page, w')"
    by (rule ex_query_runs)
  have "map_sum id (\<lambda>p. (pg_Page p, pg_PageSize p))
      (fst (service_query (new_runtime_service ex_externals) (Some ex_user) ex_filter ex_world)) = Inr (1, 20)" by code_simp
  then have p: "pg_Page page = 1" "pg_PageSize page = 20" by (simp_all add: run)
  have "db_script (w_db ex_world) = []" "audit_inv (world_tables ex_world)"
    "set (to_lower (se_uni (x_sql ex_externals)) (trim_space (f_Keyword ex_filter))) \<inter> {CHR ''%'', CHR ''_'', CHR 0x5C} = {}"
    by code_simp+
  from query_returns_page [OF run this] p run show ?thesis by (auto simp: ex_externals_def)
qed

end
