(* ===== verification/Audit_Export_Facts.thy ===== *)
theory Audit_Export_Facts
  imports Audit_Query_Facts
begin

text \<open>
  What \<open>Export\<close> guarantees: a text that reads back as the header and one row per exported
  record, within the bounds and the tenant of the caller, with no cell a spreadsheet would
  execute; and, on a quiet database, exactly which records those are.
\<close>

section \<open>The rows of an export\<close>

text \<open>The loop adds one row per record it was given, and no more than was asked for.\<close>

lemma query_page_within:
  assumes "service_query (new_runtime_service x) ctx flt w = (Inr page, w')" "0 < f_PageSize flt"
  shows "int (length (pg_Records page)) \<le> f_PageSize flt"
proof -
  from assms(1) obtain caller w1 where
    "sv_query (new_runtime_service x) (default_paging (normalize_filter flt)) w1 = (Inr (pg_Records page, pg_Total page), w')"
    by (rule service_query_ok)
  from sql_reads.query_size [OF this] assms(2) show ?thesis by simp
qed

lemma export_loop_rows:
  assumes "\<And>f w page w' r. service_query (new_runtime_service x) ctx f w = (Inr page, w') \<Longrightarrow>
      f_TenantID f = f_TenantID flt \<Longrightarrow> f_ApplicationID f = f_ApplicationID flt \<Longrightarrow>
      r \<in> set (pg_Records page) \<Longrightarrow> P r"
  shows "export_loop (new_runtime_service x) ctx flt m page n rows w = (Inr (rs, k), w') \<Longrightarrow> n \<le> m \<Longrightarrow>
    \<exists>recs. rs = rows @ map (export_fields (new_runtime_service x)) recs \<and> k = n + int (length recs) \<and>
      k \<le> m \<and> (\<forall>r \<in> set recs. P r)"
proof (induction "nat (m - n)" arbitrary: page n rows w rule: less_induct)
  case less
  let ?sv = "new_runtime_service x" and ?f = "export_page flt m page n"
  show ?case
  proof (cases "n < m")
    case False
    with less.prems have "rs = rows" "k = n" by (subst (asm) export_loop.simps, simp)+
    with less.prems(2) show ?thesis by auto
  next
    case True
    obtain q w1 where q: "service_query ?sv ctx ?f w = (q, w1)" by fastforce
    show ?thesis
    proof (cases q)
      case (Inl e)
      with less.prems(1) True q show ?thesis by (subst (asm) export_loop.simps) simp
    next
      case (Inr res)
      let ?l = "int (length (pg_Records res))" and ?rows = "rows @ map (export_fields ?sv) (pg_Records res)"
      have size: "?l \<le> f_PageSize ?f" "f_PageSize ?f \<le> m - n" "0 < f_PageSize ?f"
        using query_page_within [OF q [unfolded Inr]] True by (simp_all add: export_page_def)
      have ok: "\<forall>r \<in> set (pg_Records res). P r"
        using assms [OF q [unfolded Inr]] by (simp add: export_page_def)
      show ?thesis
      proof (cases "?l < f_PageSize ?f \<or> pg_Total res \<le> n + ?l")
        case True
        with less.prems(1) \<open>n < m\<close> q Inr have "rs = ?rows" "k = n + ?l"
          by (subst (asm) export_loop.simps, simp add: Let_def)+
        with ok size show ?thesis by (intro exI [of _ "pg_Records res"]) auto
      next
        case False
        with less.prems(1) \<open>n < m\<close> q Inr have e: "export_loop ?sv ctx flt m (page + 1) (n + ?l) ?rows w1 = (Inr (rs, k), w')"
          by (subst (asm) export_loop.simps) (simp add: Let_def)
        have "nat (m - (n + ?l)) < nat (m - n)" "n + ?l \<le> m" using False size \<open>n < m\<close> by linarith+
        from less.hyps [OF this(1) e this(2)] obtain recs where
          "rs = ?rows @ map (export_fields ?sv) recs" "k = n + ?l + int (length recs)" "k \<le> m"
          "\<forall>r \<in> set recs. P r" by blast
        with ok show ?thesis by (intro exI [of _ "pg_Records res @ recs"]) auto
      qed
    qed
  qed
qed

lemma service_export_ok:
  assumes "service_export sv ctx flt max_records w = (Inr (out, n), w')"
  obtains rows m where "m = (if max_records \<le> 0 then 10000 else max_records)" "0 < m" "m \<le> 10000"
    "export_loop sv ctx flt m 1 0 [] w = (Inr (rows, n), w')"
    "out = concat (map csv_line (export_header # rows))"
proof -
  define m where "m = (if max_records \<le> 0 then 10000 else max_records)"
  with assms have "m \<le> 10000" by (auto simp: service_export_def Let_def split: if_splits)
  moreover from this assms obtain rows where "export_loop sv ctx flt m 1 0 [] w = (Inr (rows, n), w')"
    "out = concat (map csv_line (export_header # rows))"
    by (auto simp: service_export_def Let_def m_def [symmetric] split: prod.splits sum.splits)
  moreover have "0 < m" by (simp add: m_def)
  ultimately show thesis using that m_def by blast
qed

lemma export_rows_read:
  assumes "service_export (new_runtime_service x) (Some caller) flt max_records w = (Inr (out, n), w')"
  shows "\<exists>recs. csv_read out = Some (export_header # map (export_fields (new_runtime_service x)) recs) \<and>
    n = int (length recs) \<and> n \<le> 10000 \<and> (0 < max_records \<longrightarrow> n \<le> max_records) \<and>
    (p_Type caller = TypeUser \<longrightarrow> (\<forall>r \<in> set recs. r_TenantID r = p_TenantID caller \<and>
       r_ApplicationID r = trim_space (f_ApplicationID flt)))"
proof -
  from assms obtain rows m where m: "m = (if max_records \<le> 0 then 10000 else max_records)" "0 < m" "m \<le> 10000"
    "export_loop (new_runtime_service x) (Some caller) flt m 1 0 [] w = (Inr (rows, n), w')"
    "out = concat (map csv_line (export_header # rows))" by (rule service_export_ok)
  have "\<exists>recs. rows = [] @ map (export_fields (new_runtime_service x)) recs \<and> n = 0 + int (length recs) \<and>
      n \<le> m \<and> (\<forall>r \<in> set recs. p_Type caller = TypeUser \<longrightarrow> r_TenantID r = p_TenantID caller \<and>
        r_ApplicationID r = trim_space (f_ApplicationID flt))"
    by (rule export_loop_rows [OF _ m(4)]) (use m(2) in \<open>auto dest: sql_reads.query_isolated\<close>)
  then obtain recs where recs: "rows = map (export_fields (new_runtime_service x)) recs" "n = int (length recs)"
    "n \<le> m" "\<forall>r \<in> set recs. p_Type caller = TypeUser \<longrightarrow> r_TenantID r = p_TenantID caller \<and>
      r_ApplicationID r = trim_space (f_ApplicationID flt)" by auto
  have "csv_read out = Some (export_header # rows)"
    unfolding m(5) by (rule csv_read_write) (auto simp: recs(1) export_header_def)
  with recs m(1,3) show ?thesis by (intro exI [of _ recs]) auto
qed

text \<open>
  C14. An exported text reads back, by the rules of RFC 4180, as the header and then one row
  per record; there are as many rows as reported, never more than asked for nor than 10,000, and
  for a user every one of them is a record of their own tenant and of the application they named.
\<close>

lemma export_reads_back:
  assumes "service_export (new_runtime_service x) (Some caller) flt max_records w = (Inr (out, n), w')"
  shows "\<exists>recs. csv_read out = Some (export_header # map (export_fields (new_runtime_service x)) recs) \<and>
    n = int (length recs) \<and> n \<le> 10000 \<and> (0 < max_records \<longrightarrow> n \<le> max_records) \<and>
    (p_Type caller = TypeUser \<longrightarrow> (\<forall>r \<in> set recs. r_TenantID r = p_TenantID caller \<and>
       r_ApplicationID r = trim_space (f_ApplicationID flt)))"
  using assms by (rule export_rows_read)

lemma ex_export_runs:
  obtains out w' where
    "service_export (new_runtime_service ex_externals) (Some ex_user) ex_filter 5 ex_world = (Inr (out, 1), w')"
proof -
  let ?run = "service_export (new_runtime_service ex_externals) (Some ex_user) ex_filter 5 ex_world"
  have "map_sum id snd (fst ?run) = Inr 1" by code_simp
  then show thesis using that by (cases ?run; cases "fst ?run") auto
qed

lemma export_reads_back_witness:
  "\<exists>out w' row. service_export (new_runtime_service ex_externals) (Some ex_user) ex_filter 5 ex_world
      = (Inr (out, 1), w') \<and> csv_read out = Some [export_header, row]"
proof -
  obtain out w' where run:
    "service_export (new_runtime_service ex_externals) (Some ex_user) ex_filter 5 ex_world = (Inr (out, 1), w')"
    by (rule ex_export_runs)
  from export_reads_back [OF this] obtain recs where
    "csv_read out = Some (export_header # map (export_fields (new_runtime_service ex_externals)) recs)"
    "1 = int (length recs)" by blast
  with run show ?thesis by (cases recs) auto
qed

text \<open>
  C15. No exported cell can start a formula: read back, no cell of any row begins with one of
  the four characters spreadsheets take for one.
\<close>

lemma export_cells_inert:
  assumes "service_export (new_runtime_service x) ctx flt max_records w = (Inr (out, n), w')"
    and "csv_read out = Some (header # rows)" "row \<in> set rows" "cell \<in> set row"
  shows "cell = [] \<or> hd cell \<notin> {CHR ''='', CHR ''+'', CHR ''-'', CHR ''@''}"
proof -
  from assms(1) obtain rs m where m: "0 < m"
    "export_loop (new_runtime_service x) ctx flt m 1 0 [] w = (Inr (rs, n), w')"
    "out = concat (map csv_line (export_header # rs))" by (rule service_export_ok)
  have "\<exists>recs. rs = [] @ map (export_fields (new_runtime_service x)) recs \<and> n = 0 + int (length recs) \<and>
      n \<le> m \<and> (\<forall>r \<in> set recs. True)"
    by (rule export_loop_rows [OF _ m(2)]) (use m(1) in auto)
  then obtain recs where rs: "rs = map (export_fields (new_runtime_service x)) recs" by auto
  then have "csv_read out = Some (export_header # rs)"
    unfolding m(3) by (intro csv_read_write) (auto simp: rs export_header_def)
  with assms(2,3) rs obtain r where "row = export_fields (new_runtime_service x) r" by auto
  with assms(4) obtain v where "cell = csv_safe v" unfolding export_fields_def by auto
  then show ?thesis using csv_safe_hd [of v "hd cell" "tl cell"] by (cases "cell = []") auto
qed

lemma export_cells_inert_witness:
  "\<exists>out w' header row. service_export (new_runtime_service ex_externals) (Some ex_user) ex_filter 5 ex_world
      = (Inr (out, 1), w') \<and> csv_read out = Some [header, row] \<and> (\<forall>cell \<in> set row. cell = [] \<or> hd cell \<noteq> CHR ''='')"
proof -
  let ?run = "service_export (new_runtime_service ex_externals) (Some ex_user) ex_filter 5 ex_world"
  have "case fst ?run of Inr (out, n) \<Rightarrow> n = 1 \<and> (case csv_read out of Some [h, r] \<Rightarrow> True | _ \<Rightarrow> False) | _ \<Rightarrow> False"
    by code_simp
  then obtain out w' header row where run: "?run = (Inr (out, 1), w')" "csv_read out = Some [header, row]"
    by (cases ?run; cases "fst ?run") (auto split: option.splits list.splits)
  have "row \<in> set [row]" by simp
  from export_cells_inert [OF run this] run show ?thesis by blast
qed


section \<open>Which records an export holds\<close>

text \<open>
  The loop over a list of hits that stays the same: with \<open>q\<close> full pages of 100 and a last page
  of \<open>r\<close>, the last page is read at offset \<open>q * r\<close>, because its smaller size scales the
  offset too.
\<close>

definition exported_records :: "nat \<Rightarrow> 'a list \<Rightarrow> 'a list" where
  "exported_records m hits = (let q = m div 100; r = m mod 100 in
     if length hits \<le> 100 * q then hits else take (100 * q) hits @ take r (drop (q * r) hits))"

lemma export_loop_hits:
  assumes pages: "\<And>p n w. ok w \<Longrightarrow> 1 \<le> p \<Longrightarrow> 0 \<le> n \<Longrightarrow> n < m \<Longrightarrow> p \<le> 101 \<Longrightarrow> \<exists>page w'. ok w' \<and>
      service_query sv ctx (export_page flt m p n) w = (Inr page, w') \<and> pg_Total page = int (length hits) \<and>
      pg_Records page = take (nat (min 100 (m - n))) (drop (nat ((p - 1) * min 100 (m - n))) hits)"
    and "m \<le> 10000"
  shows "ok w \<Longrightarrow> 100 * k \<le> nat m \<Longrightarrow> 100 * k < length hits \<or> k = 0 \<Longrightarrow>
    \<exists>w'. ok w' \<and> export_loop sv ctx flt m (int k + 1) (100 * int k) (map (export_fields sv) (take (100 * k) hits)) w =
      (Inr (map (export_fields sv) (exported_records (nat m) hits), int (length (exported_records (nat m) hits))), w')"
proof (induction "nat m - 100 * k" arbitrary: k w rule: less_induct)
  case less
  show ?case
  proof (cases "100 * k = nat m")
    case True
    then have q: "nat m div 100 = k" "nat m mod 100 = 0" and stop: "\<not> 100 * int k < m"
      using nonzero_mult_div_cancel_left [of 100 k] mod_mult_self1_is_0 [of 100 k] by simp_all
    then have "exported_records (nat m) hits = take (100 * k) hits"
      by (simp add: exported_records_def)
    moreover note stop
    moreover have "length (take (100 * k) hits) = 100 * k" using less.prems(3) by auto
    ultimately show ?thesis using less.prems(1) by (subst export_loop.simps) auto
  next
    case False
    with less.prems(2) have lt: "100 * k < nat m" by simp
    then have "100 * int k < m" "int k + 1 \<le> 101" using assms(2) by linarith+
    with pages [OF less.prems(1), of "int k + 1" "100 * int k"] obtain page w1 where w1: "ok w1"
      "service_query sv ctx (export_page flt m (int k + 1) (100 * int k)) w = (Inr page, w1)"
      "pg_Total page = int (length hits)"
      "pg_Records page = take (nat (min 100 (m - 100 * int k))) (drop (nat (int k * min 100 (m - 100 * int k))) hits)"
      by auto
    show ?thesis
    proof (cases "nat m < 100 * k + 100")
      case last: True
      define r where "r = nat m mod 100"
      have q: "nat m div 100 = k" using last lt by linarith
      have "r = nat m - 100 * k"
        using minus_mult_div_eq_mod [of "nat m" 100] q by (simp add: r_def)
      then have r: "min 100 (m - 100 * int k) = int r" "0 < r" "m - 100 * int k = int r"
        using last lt by linarith+
      have recs: "pg_Records page = take r (drop (k * r) hits)"
        using w1(4) r(1) by (simp add: nat_mult_distrib)
      have hits: "exported_records (nat m) hits = take (100 * k) hits @ pg_Records page"
        using less.prems(3) recs by (auto simp: exported_records_def q r_def [symmetric])
      have len: "length (take (100 * k) hits) = 100 * k" using less.prems(3) by auto
      have size: "f_PageSize (export_page flt m (int k + 1) (100 * int k)) = int r"
        using r(1) by (simp add: export_page_def)
      show ?thesis
      proof (cases "int (length (pg_Records page)) < int r \<or> int (length hits) \<le> 100 * int k + int (length (pg_Records page))")
        case True
        with w1 hits len size \<open>100 * int k < m\<close> show ?thesis
          by (subst export_loop.simps) (auto simp: Let_def)
      next
        case False
        moreover have "length (pg_Records page) \<le> r" unfolding recs by simp
        ultimately have full: "int (length (pg_Records page)) = int r" by linarith
        then have "export_loop sv ctx flt m (int k + 2) (100 * int k + int (length (pg_Records page))) rs w1
          = (Inr (rs, 100 * int k + int r), w1)" for rs
          using r(3) by (subst export_loop.simps) simp
        with False w1 hits len size full \<open>100 * int k < m\<close> show ?thesis
          by (subst export_loop.simps) (simp add: Let_def add.commute)
      qed
    next
      case full: False
      then have size: "f_PageSize (export_page flt m (int k + 1) (100 * int k)) = 100"
        and recs: "pg_Records page = take 100 (drop (100 * k) hits)"
        using w1(4) by (auto simp: export_page_def nat_mult_distrib mult.commute)
      have rows: "take (100 * k) hits @ pg_Records page = take (100 * Suc k) hits"
        using take_drop_pages [of "100 * k" 0 hits 100] recs by (simp add: add.commute)
      show ?thesis
      proof (cases "length (pg_Records page) < 100 \<or> length hits \<le> 100 * k + length (pg_Records page)")
        case True
        then have all: "length hits \<le> 100 * Suc k" using recs by auto
        note all
        moreover have "Suc k \<le> nat m div 100" using full by linarith
        ultimately have "length hits \<le> 100 * (nat m div 100)" by (metis le_trans mult_le_mono2)
        then have e: "exported_records (nat m) hits = hits" by (auto simp: exported_records_def Let_def)
        have a: "take (100 * k) hits @ pg_Records page = hits" using rows all by simp
        have l: "length hits = 100 * k + length (pg_Records page)"
          using arg_cong [OF a, of length] less.prems(3) by auto
        have lp: "export_loop sv ctx flt m (int k + 1) (100 * int k) rs w =
          (Inr (rs @ map (export_fields sv) (pg_Records page), 100 * int k + int (length (pg_Records page))), w1)" for rs
        proof -
          have "int (length (pg_Records page)) < 100 \<or> int (length hits) \<le> 100 * int k + int (length (pg_Records page))"
            using True by linarith
          with w1(2,3) size \<open>100 * int k < m\<close> show ?thesis
            by (subst export_loop.simps) (simp add: Let_def)
        qed
        show ?thesis
          using w1(1) lp [of "map (export_fields sv) (take (100 * k) hits)"]
            arg_cong [OF a, of "map (export_fields sv)"] unfolding e by (auto simp: l)
      next
        case False
        then have L: "length (pg_Records page) = 100" and more: "100 * Suc k < length hits" using recs by auto
        have "nat m - 100 * Suc k < nat m - 100 * k" "100 * Suc k \<le> nat m"
          using lt full unfolding mult_Suc_right by linarith+
        from less.hyps [OF this(1) w1(1) this(2)] more obtain w' where w': "ok w'"
          "export_loop sv ctx flt m (int (Suc k) + 1) (100 * int (Suc k)) (map (export_fields sv) (take (100 * Suc k) hits)) w1 =
            (Inr (map (export_fields sv) (exported_records (nat m) hits), int (length (exported_records (nat m) hits))), w')"
          by blast
        have "export_loop sv ctx flt m (int k + 1) (100 * int k) (map (export_fields sv) (take (100 * k) hits)) w
          = export_loop sv ctx flt m (int (Suc k) + 1) (100 * int (Suc k)) (map (export_fields sv) (take (100 * Suc k) hits)) w1"
          using w1(2,3) size L False \<open>100 * int k < m\<close> unfolding rows [symmetric]
          by (subst export_loop.simps) (simp add: Let_def algebra_simps)
        with w' show ?thesis by auto
      qed
    qed
  qed
qed


section \<open>Exports of a quiet database\<close>

lemma nat_dvd_100: "0 < m \<Longrightarrow> 100 dvd nat m \<longleftrightarrow> (100::int) dvd m"
  by (metis int_dvd_int_iff less_le nat_0_le of_nat_numeral)

text \<open>
  The requests \<open>Query\<close> and so \<open>Export\<close> do not refuse: they pass the checks, the application
  is granted, and the database takes the values as arguments.
\<close>

definition admitted :: "externals \<Rightarrow> principal \<Rightarrow> audit_filter \<Rightarrow> bool" where
  "admitted x caller flt \<longleftrightarrow> trim_space (f_TenantID flt) \<noteq> [] \<and>
     enforce_tenant caller (f_TenantID flt) = None \<and>
     first_error (filter_checks (new_runtime_service x) (normalize_filter flt)) = None \<and>
     args_valid (x_sql x) (normalize_filter flt) \<and>
     (p_Type caller = TypeUser \<longrightarrow> trim_space (f_ApplicationID flt) \<noteq> [] \<and>
        (\<forall>n. x_verify x n (trim_space (f_TenantID flt)) (trim_space (f_ApplicationID flt)) = None))"

lemma normalize_filter_paging:
  "normalize_filter (flt\<lparr>f_Page := p, f_PageSize := s\<rparr>) = (normalize_filter flt)\<lparr>f_Page := p, f_PageSize := s\<rparr>"
  by (simp add: normalize_filter_def)

lemma filter_checks_paging:
  "filter_checks sv (f\<lparr>f_Page := p, f_PageSize := s\<rparr>) = filter_checks sv f"
  by (simp add: filter_checks_def)

lemma filter_hits_paging: "filter_hits env (f\<lparr>f_Page := p, f_PageSize := s\<rparr>) t = filter_hits env f t"
  unfolding filter_hits_def filter_accepts_def by simp

lemma args_valid_page: "args_valid env (f\<lparr>f_Page := p, f_PageSize := s\<rparr>) = args_valid env f"
  by (simp add: args_valid_def query_conds_def column_filters_def)

lemma service_query_quiet:
  assumes "admitted x caller flt" "w_db w = d" "db_script d = []" "audit_inv (db_tables d)"
    and "1 \<le> p" "1 \<le> s" "s \<le> 100" "p \<le> 101"
    and "set (to_lower (se_uni (x_sql x)) (trim_space (f_Keyword flt))) \<inter> {CHR ''%'', CHR ''_'', CHR 0x5C} = {}"
  defines "hits \<equiv> filter_hits (x_sql x) (normalize_filter flt) (db_tables d)"
  shows "\<exists>page w'. service_query (new_runtime_service x) (Some caller) (flt\<lparr>f_Page := p, f_PageSize := s\<rparr>) w = (Inr page, w') \<and>
    w_db w' = d \<and> pg_Total page = int (length hits) \<and> pg_Records page = take (nat s) (drop (nat ((p - 1) * s)) hits)"
proof -
  let ?g = "(normalize_filter flt)\<lparr>f_Page := p, f_PageSize := s\<rparr>"
  have g: "normalize_filter (flt\<lparr>f_Page := p, f_PageSize := s\<rparr>) = ?g" "default_paging ?g = ?g"
    using assms(5,6) by (simp_all add: normalize_filter_paging default_paging_eq)
  have "(p - 1) * s \<le> 100 * 100" using assms(5-8) by (intro mult_mono) auto
  then have off: "(p - 1) * s < 2 ^ 63" "p < 2 ^ 63" using assms(8) by simp_all
  have q: "repo_query (x_sql x) ?g d = (Inr (take (nat s) (drop (nat ((p - 1) * s)) hits), int (length hits)), d)"
    using repo_query_quiet [of d ?g "x_sql x"] assms(1,3-6,9) off by (simp add: filter_hits_paging hits_def admitted_def args_valid_page)
  obtain w1 where v: "verify_user (new_runtime_service x) caller (f_TenantID flt) (f_ApplicationID flt) True w = (None, w1)"
    "w_db w1 = d"
  proof (cases "p_Type caller = TypeUser")
    case True
    with assms(1,2) show thesis
      by (intro that [of "w\<lparr>w_calls := Suc (w_calls w)\<rparr>"])
        (simp_all add: admitted_def verify_user_def verify_application_def ask_def)
  next
    case False
    with assms(2) show thesis by (intro that [of w]) simp_all
  qed
  have "service_query (new_runtime_service x) (Some caller) (flt\<lparr>f_Page := p, f_PageSize := s\<rparr>) w
    = (Inr \<lparr>pg_Records = take (nat s) (drop (nat ((p - 1) * s)) hits), pg_Total = int (length hits),
        pg_Page = p, pg_PageSize = s\<rparr>, w1\<lparr>w_db := d\<rparr>)"
    using assms(1,7) v q unfolding service_query_def
    by (simp add: g admitted_def filter_checks_paging on_db_def Let_def del: default_paging_fields first_error_None)
  then show ?thesis by auto
qed

lemma service_export_quiet:
  assumes "admitted x caller flt" "db_script (w_db w) = []" "audit_inv (world_tables w)"
    and "set (to_lower (se_uni (x_sql x)) (trim_space (f_Keyword flt))) \<inter> {CHR ''%'', CHR ''_'', CHR 0x5C} = {}"
    and "0 < m" "m \<le> 10000"
  defines "recs \<equiv> exported_records (nat m) (filter_hits (x_sql x) (normalize_filter flt) (world_tables w))"
  shows "\<exists>w'. world_tables w' = world_tables w \<and> service_export (new_runtime_service x) (Some caller) flt m w =
    (Inr (concat (map csv_line (export_header # map (export_fields (new_runtime_service x)) recs)), int (length recs)), w')"
proof -
  let ?sv = "new_runtime_service x" and ?hits = "filter_hits (x_sql x) (normalize_filter flt) (world_tables w)"
  have page: "\<exists>page w'. w_db w' = w_db w \<and>
      service_query ?sv (Some caller) (export_page flt m p n) w1 = (Inr page, w') \<and> pg_Total page = int (length ?hits) \<and>
      pg_Records page = take (nat (min 100 (m - n))) (drop (nat ((p - 1) * min 100 (m - n))) ?hits)"
    if "w_db w1 = w_db w" "1 \<le> p" "0 \<le> n" "n < m" "p \<le> 101" for w1 p n
  proof -
    have "1 \<le> min 100 (m - n)" "min 100 (m - n) \<le> 100" using that(4) by simp_all
    from service_query_quiet [OF assms(1) that(1) assms(2) _ that(2) this that(5) assms(4)] assms(3)
    show ?thesis unfolding export_page_def world_tables_def by blast
  qed
  have "\<exists>w'. w_db w' = w_db w \<and> export_loop ?sv (Some caller) flt m (int 0 + 1) (100 * int 0)
      (map (export_fields ?sv) (take (100 * 0) ?hits)) w =
      (Inr (map (export_fields ?sv) recs, int (length recs)), w')"
    unfolding recs_def
    by (rule export_loop_hits [where ok = "\<lambda>w1. w_db w1 = w_db w", OF page assms(6)]) simp_all
  then obtain w' where "w_db w' = w_db w" "export_loop ?sv (Some caller) flt m 1 0 [] w =
      (Inr (map (export_fields ?sv) recs, int (length recs)), w')" by auto
  with assms(5,6) show ?thesis
    by (intro exI [of _ w']) (simp add: service_export_def world_tables_def)
qed

text \<open>
  C16. An export is complete and exact: on a quiet database, for a request that is not refused, with
  a keyword free of the pattern characters of \<open>LIKE\<close> (percent, underscore, backslash), and a
  limit up to 100 or a multiple of 100, it holds exactly the first records, latest first,
  that the filter describes, all of them when there are no more than the limit.
\<close>

lemma export_exact:
  assumes "admitted x caller flt" "db_script (w_db w) = []" "audit_inv (world_tables w)"
    and "set (to_lower (se_uni (x_sql x)) (trim_space (f_Keyword flt))) \<inter> {CHR ''%'', CHR ''_'', CHR 0x5C} = {}"
    and "0 < m" "m \<le> 10000" "m \<le> 100 \<or> 100 dvd m"
  defines "recs \<equiv> take (nat m) (filter_hits (x_sql x) (normalize_filter flt) (world_tables w))"
  shows "\<exists>w'. world_tables w' = world_tables w \<and> service_export (new_runtime_service x) (Some caller) flt m w =
    (Inr (concat (map csv_line (export_header # map (export_fields (new_runtime_service x)) recs)), int (length recs)), w')"
proof -
  have "exported_records (nat m) hits = take (nat m) hits" for hits :: "audit_record list"
  proof (cases "nat m < 100")
    case True
    then show ?thesis by (auto simp: exported_records_def Let_def)
  next
    case False
    with assms(7) have "nat m = 100 \<or> 100 dvd nat m" using assms(5) by (auto simp: nat_dvd_100)
    then have "nat m mod 100 = 0" "100 * (nat m div 100) = nat m" by auto
    then show ?thesis by (simp add: exported_records_def Let_def)
  qed
  with service_export_quiet [OF assms(1-6)] show ?thesis unfolding recs_def by simp
qed

lemma ex_admitted: "admitted ex_externals ex_user ex_filter" "db_script (w_db ex_world) = []"
  "audit_inv (world_tables ex_world)"
  "set (to_lower (se_uni (x_sql ex_externals)) (trim_space (f_Keyword ex_filter))) \<inter> {CHR ''%'', CHR ''_'', CHR 0x5C} = {}"
proof -
  have "trim_space (f_TenantID ex_filter) = ''t1''" "trim_space (f_ApplicationID ex_filter) = ''app''"
    "enforce_tenant ex_user (f_TenantID ex_filter) = None"
    "first_error (filter_checks (new_runtime_service ex_externals) (normalize_filter ex_filter)) = None"
    "args_valid (x_sql ex_externals) (normalize_filter ex_filter)" by code_simp+
  then show "admitted ex_externals ex_user ex_filter"
    by (simp add: admitted_def ex_externals_def del: first_error_None)
qed code_simp+

lemma export_exact_witness:
  "\<exists>w'. service_export (new_runtime_service ex_externals) (Some ex_user) ex_filter 5 ex_world =
    (Inr (concat (map csv_line (export_header # map (export_fields (new_runtime_service ex_externals))
       (take 5 (filter_hits ex_env (normalize_filter ex_filter) (world_tables ex_world))))), 1), w')"
proof -
  have "length (filter_hits ex_env (normalize_filter ex_filter) (world_tables ex_world)) = 1" by code_simp
  moreover have "x_sql ex_externals = ex_env" by (simp add: ex_externals_def)
  ultimately show ?thesis using export_exact [OF ex_admitted, of 5] by auto
qed

text \<open>
  A limit above 100 that is not a multiple of 100 repeats records: when enough records match,
  the last, smaller page is read from a smaller offset, so records already exported come a second
  time, the row count includes them, and the records after the full pages are missing.
\<close>

lemma export_repeats_records:
  assumes "admitted x caller flt" "db_script (w_db w) = []" "audit_inv (world_tables w)"
    and "set (to_lower (se_uni (x_sql x)) (trim_space (f_Keyword flt))) \<inter> {CHR ''%'', CHR ''_'', CHR 0x5C} = {}"
    and "100 < m" "m \<le> 10000" "\<not> 100 dvd m"
  defines "hits \<equiv> filter_hits (x_sql x) (normalize_filter flt) (world_tables w)"
  assumes "nat m \<le> length hits"
  shows "\<exists>recs w'. service_export (new_runtime_service x) (Some caller) flt m w =
      (Inr (concat (map csv_line (export_header # map (export_fields (new_runtime_service x)) recs)), m), w') \<and>
    length recs = nat m \<and> \<not> distinct recs \<and> recs \<noteq> take (nat m) hits"
proof -
  define q where "q = nat m div 100"
  define r where "r = nat m mod 100"
  have q: "1 \<le> q" using assms(5) unfolding q_def by simp
  have r: "0 < r" "r < 100" using assms(5,7) by (auto simp: r_def nat_dvd_100 dvd_eq_mod_eq_0 [of 100 "nat m", symmetric] simp flip: neq0_conv)
  have m: "nat m = 100 * q + r" unfolding q_def r_def by simp
  have "r \<le> q * r" "q * r < 100 * q" using q r by simp_all
  let ?last = "take r (drop (q * r) hits)"
  have recs: "exported_records (nat m) hits = take (100 * q) hits @ ?last"
    using assms(9) m r by (simp add: exported_records_def q_def [symmetric] r_def [symmetric])
  have "q * r + r \<le> length hits"
    using assms(9) m \<open>q * r < 100 * q\<close> by linarith
  then have len: "length (take (100 * q) hits @ ?last) = nat m"
    using assms(9) m by simp
  have "hits ! (q * r) \<in> set (take (100 * q) hits)"
    using \<open>q * r < 100 * q\<close> assms(9) m by (auto simp: in_set_conv_nth intro!: exI [of _ "q * r"])
  moreover have "hits ! (q * r) \<in> set ?last"
    using \<open>q * r + r \<le> length hits\<close> r(1) by (auto simp: in_set_conv_nth intro!: exI [of _ 0])
  ultimately have "\<not> distinct (take (100 * q) hits @ ?last)" by auto
  moreover have "distinct (take (nat m) hits)"
    using distinct_filter_hits [OF assms(3)] unfolding hits_def by (rule distinct_take)
  ultimately have "\<not> distinct (exported_records (nat m) hits)"
    "exported_records (nat m) hits \<noteq> take (nat m) hits" "length (exported_records (nat m) hits) = nat m"
    unfolding recs using len by metis+
  then show ?thesis
    using service_export_quiet [OF assms(1-4) _ assms(6)] assms(5)
    unfolding hits_def [symmetric] by (intro exI [of _ "exported_records (nat m) hits"]) auto
qed

text \<open>A store of 101 records that all match.\<close>

definition ex_row :: "nat \<Rightarrow> audit_row" where
  "ex_row n = row_of (ex_record\<lparr>r_ID := replicate n (CHR ''a''), r_TenantID := ''t1'', r_Version := 1,
     r_OccurredAt := 5000, r_CreatedBy := ''alice''\<rparr>)"

definition ex_key :: "nat \<Rightarrow> key_row" where
  "ex_key n = \<lparr>k_id = replicate n (CHR ''a''), k_occurred_at = 5000, k_version = 1, k_created_at = 9,
     k_updated_at = 9, k_created_by = ''alice'', k_updated_by = ''alice'', k_deleted_at = None,
     k_deleted_by = None\<rparr>"

definition ex_full :: world where
  "ex_full = ex_empty\<lparr>w_db := (w_db ex_empty)\<lparr>db_tables :=
     \<lparr>t_keys = map ex_key [0..<101], t_records = map ex_row [0..<101]\<rparr>\<rparr>\<rparr>"

lemma ex_full_inv: "audit_inv (world_tables ex_full)" "db_script (w_db ex_full) = []"
  by (auto simp: audit_inv_def world_tables_def ex_full_def ex_empty_def ex_row_def ex_key_def comp_def
      distinct_map inj_on_def)

lemma ex_full_hits: "length (filter_hits ex_env (normalize_filter ex_filter) (world_tables ex_full)) = 101"
proof -
  have f: "normalize_filter ex_filter = ex_filter\<lparr>f_ApplicationID := ''app''\<rparr>" by code_simp
  have "filter_accepts ex_env (normalize_filter ex_filter) (record_of (ex_row n))" for n
    unfolding f by (simp add: filter_accepts_def ex_filter_def zero_filter_def ex_row_def ex_record_def is_zero_def)
  then show ?thesis by (simp add: filter_hits_def world_tables_def ex_full_def filter_id_conv_all)
qed

lemma export_repeats_records_witness:
  "\<exists>recs w'. service_export (new_runtime_service ex_externals) (Some ex_user) ex_filter 101 ex_full =
      (Inr (concat (map csv_line (export_header # map (export_fields (new_runtime_service ex_externals)) recs)), 101), w') \<and>
    length recs = 101 \<and> \<not> distinct recs"
proof -
  have x: "x_sql ex_externals = ex_env" by (simp add: ex_externals_def)
  show ?thesis
    using export_repeats_records [OF ex_admitted(1) ex_full_inv(2,1) ex_admitted(4), of 101] ex_full_hits
    unfolding x by auto
qed

end
