(* ===== verification/Policy_Repository.thy ===== *)
theory Policy_Repository
  imports Audit_Repository
begin

text \<open>
  \<open>internal/routepolicy/repository.go\<close>: route definitions, the policy of a route and the
  permissions a policy refers to, in three audited tables.  Each SQL statement of the file is an
  operation on the tables; \<open>audit_mutable_row\<close>, the trigger of the PostgreSQL migration, stamps
  every row it inserts or updates, and the constraints of the migration are checked after each
  statement.  The column \<open>last_discovered_at\<close>, which no statement reads, is left out.  What
  \<open>platformpolicy\<close> makes of a definition is not the service's code.
\<close>

section \<open>Rows\<close>

record stamps =
  au_created_at :: time
  au_created_by :: string
  au_updated_at :: time
  au_updated_by :: string
  au_version :: int
  au_deleted_at :: "time option"
  au_deleted_by :: "string option"

record route_row = stamps +
  rt_id :: string
  rt_protocol :: string
  rt_method :: string
  rt_path :: string
  rt_operation :: string
  rt_description :: string
  rt_service :: string
  rt_source_version :: string
  rt_status :: string

record policy_row = stamps +
  pl_id :: string
  pl_route_id :: string
  pl_expression :: string
  pl_description :: string
  pl_status :: string

record ref_row = stamps +
  rf_id :: string
  rf_policy_id :: string
  rf_key :: string
  rf_resource :: string
  rf_action :: string
  rf_scope :: string

record policy_tables =
  pt_routes :: "route_row list"
  pt_policies :: "policy_row list"
  pt_refs :: "ref_row list"

definition live :: "'a stamps_scheme \<Rightarrow> bool" where
  "live r \<longleftrightarrow> au_deleted_at r = None"

section \<open>The trigger and the constraints\<close>

text \<open>
  \<open>audit_mutable_row\<close>: an insert starts version 1, an update counts it up and keeps the
  creation stamps; a row becomes deleted or live again only with the database's own stamp.
\<close>

definition stamp_insert :: "session \<Rightarrow> string \<Rightarrow> 'a stamps_scheme \<Rightarrow> 'a stamps_scheme" where
  "stamp_insert ss actor new = new\<lparr>au_created_at := ss_now ss, au_updated_at := ss_now ss,
     au_created_by := actor, au_updated_by := actor, au_version := 1, au_deleted_at := None,
     au_deleted_by := None\<rparr>"

definition stamp_update :: "session \<Rightarrow> string \<Rightarrow> 'a stamps_scheme \<Rightarrow> 'a stamps_scheme \<Rightarrow> 'a stamps_scheme" where
  "stamp_update ss actor old new =
     (let (at, by) =
        (if au_deleted_at old = None \<and> au_deleted_at new \<noteq> None then (Some (ss_now ss), Some actor)
         else if au_deleted_at old \<noteq> None \<and> au_deleted_at new = None then (None, None)
         else (au_deleted_at old, au_deleted_by old))
      in new\<lparr>au_created_at := au_created_at old, au_created_by := au_created_by old,
           au_updated_at := ss_now ss, au_updated_by := actor, au_version := au_version old + 1,
           au_deleted_at := at, au_deleted_by := by\<rparr>)"

text \<open>An \<open>UPDATE\<close> of the rows with property \<open>P\<close>; without such a row no trigger fires.\<close>

definition update_rows :: "session \<Rightarrow> ('a stamps_scheme \<Rightarrow> bool) \<Rightarrow> ('a stamps_scheme \<Rightarrow> 'a stamps_scheme)
    \<Rightarrow> 'a stamps_scheme list \<Rightarrow> goerr + 'a stamps_scheme list" where
  "update_rows ss P f rows =
     (if list_ex P rows
      then map_sum id (\<lambda>actor. map (\<lambda>r. if P r then stamp_update ss actor r (f r) else r) rows) (audit_actor ss)
      else Inr rows)"

definition insert_row :: "session \<Rightarrow> 'a stamps_scheme \<Rightarrow> 'a stamps_scheme list \<Rightarrow> goerr + 'a stamps_scheme list" where
  "insert_row ss r rows = map_sum id (\<lambda>actor. rows @ [stamp_insert ss actor r]) (audit_actor ss)"

definition unique_ok :: "policy_tables \<Rightarrow> bool" where
  "unique_ok t \<longleftrightarrow> distinct (map rt_id (pt_routes t)) \<and>
     distinct (map (\<lambda>r. (rt_service r, rt_protocol r, rt_method r, rt_path r)) (filter live (pt_routes t))) \<and>
     distinct (map pl_id (pt_policies t)) \<and> distinct (map pl_route_id (filter live (pt_policies t))) \<and>
     distinct (map rf_id (pt_refs t)) \<and>
     distinct (map (\<lambda>r. (rf_policy_id r, rf_key r)) (filter live (pt_refs t)))"

definition foreign_ok :: "policy_tables \<Rightarrow> bool" where
  "foreign_ok t \<longleftrightarrow> set (map pl_route_id (pt_policies t)) \<subseteq> set (map rt_id (pt_routes t)) \<and>
     set (map rf_policy_id (pt_refs t)) \<subseteq> set (map pl_id (pt_policies t))"

definition checks_ok :: "policy_tables \<Rightarrow> bool" where
  "checks_ok t \<longleftrightarrow> list_all (\<lambda>r. rt_status r \<in> {''active'', ''inactive''} \<and> au_version r > 0) (pt_routes t) \<and>
     list_all (\<lambda>p. pl_status p \<in> {''active'', ''disabled''} \<and> au_version p > 0) (pt_policies t) \<and>
     list_all (\<lambda>r. rf_scope r \<in> {''tenant'', ''platform'', ''principal''} \<and> au_version r > 0) (pt_refs t)"

definition policy_inv :: "policy_tables \<Rightarrow> bool" where
  "policy_inv t \<longleftrightarrow> unique_ok t \<and> foreign_ok t \<and> checks_ok t"

definition constrained :: "policy_tables \<Rightarrow> 'a \<Rightarrow> goerr + policy_tables \<times> 'a" where
  "constrained t x =
     (if \<not> unique_ok t then Inl unique_error
      else if \<not> foreign_ok t then Inl (PgError ''23503'' ''violates foreign key constraint'')
      else if \<not> checks_ok t then Inl (PgError ''23514'' ''violates check constraint'')
      else Inr (t, x))"

section \<open>Values of the interface\<close>

datatype scope = ScopeTenant | ScopePlatform | ScopePrincipal

record permission =
  pm_ID :: string
  pm_Key :: string
  pm_Resource :: string
  pm_Action :: string
  pm_Scope :: scope

text \<open>\<open>platformpolicy.Definition\<close> and \<open>platformpolicy.Route\<close>.\<close>

record policy_def =
  pd_ID :: string
  pd_RouteID :: string
  pd_Expression :: string
  pd_Permissions :: "string \<rightharpoonup> permission"
  pd_Version :: int

record route =
  ro_ID :: string
  ro_Protocol :: string
  ro_Method :: string
  ro_Path :: string
  ro_Operation :: string
  ro_Description :: string
  ro_ServiceName :: string
  ro_SourceVersion :: string

record policy_filter =
  pf_Keyword :: string
  pf_Protocol :: string
  pf_RouteStatus :: string
  pf_PolicyStatus :: string

record perm_input =
  pi_Key :: string
  pi_Resource :: string
  pi_Action :: string
  pi_Scope :: string

record set_input =
  si_RouteID :: string
  si_Expression :: string
  si_Description :: string
  si_Status :: string
  si_ExpectedVersion :: int
  si_Permissions :: "perm_input list"

record detail =
  dt_RouteID :: string
  dt_Protocol :: string
  dt_Method :: string
  dt_Path :: string
  dt_Operation :: string
  dt_RouteStatus :: string
  dt_PolicyID :: string
  dt_Expression :: string
  dt_Description :: string
  dt_PolicyStatus :: string
  dt_Version :: int
  dt_Permissions :: "perm_input list"

definition ErrPolicyNotFound :: goerr where
  "ErrPolicyNotFound = ErrVar ''route policy resource not found''"

definition ErrStaleVersion :: goerr where
  "ErrStaleVersion = ErrVar ''stale route policy version''"

definition ErrPolicyInvalid :: goerr where
  "ErrPolicyInvalid = ErrVar ''platformpolicy.ErrInvalid''"

text \<open>Its error wraps \<open>ErrInvalid\<close>; the message, which names the value, is shortened.\<close>

definition parse_scope :: "string \<Rightarrow> goerr + scope" where
  "parse_scope v = (if v = ''tenant'' then Inr ScopeTenant
     else if v = ''platform'' then Inr ScopePlatform
     else if v = ''principal'' then Inr ScopePrincipal
     else Inl (ErrWrap ''invalid scope'' ErrPolicyInvalid))"

section \<open>Load\<close>

text \<open>The two statements of \<open>Load\<close>, and the loop that attaches the references.\<close>

definition select_active :: "session \<Rightarrow> policy_tables \<Rightarrow> goerr + policy_row list" where
  "select_active ss t = Inr (sort_key pl_route_id (filter (\<lambda>p. pl_status p = ''active'' \<and> live p) (pt_policies t)))"

definition select_active_refs :: "session \<Rightarrow> policy_tables \<Rightarrow> goerr + ref_row list" where
  "select_active_refs ss t = Inr (sort_key (\<lambda>r. (rf_policy_id r, rf_key r))
     (filter (\<lambda>r. live r \<and> list_ex (\<lambda>p. pl_id p = rf_policy_id r \<and> live p \<and> pl_status p = ''active'')
        (pt_policies t)) (pt_refs t)))"

definition new_def :: "policy_row \<Rightarrow> policy_def" where
  "new_def p = \<lparr>pd_ID = pl_id p, pd_RouteID = pl_route_id p, pd_Expression = pl_expression p,
     pd_Permissions = Map.empty, pd_Version = au_version p\<rparr>"

definition new_permission :: "ref_row \<Rightarrow> scope \<Rightarrow> permission" where
  "new_permission r sc = \<lparr>pm_ID = rf_id r, pm_Key = rf_key r, pm_Resource = rf_resource r,
     pm_Action = rf_action r, pm_Scope = sc\<rparr>"

fun attach_refs :: "policy_def list \<Rightarrow> ref_row list \<Rightarrow> goerr + policy_def list" where
  "attach_refs defs [] = Inr defs"
| "attach_refs defs (r # rest) =
     (if list_ex (\<lambda>d. pd_ID d = rf_policy_id r) defs then
        (case parse_scope (rf_scope r) of
           Inl err \<Rightarrow> Inl err
         | Inr sc \<Rightarrow> attach_refs
             (map (\<lambda>d. if pd_ID d = rf_policy_id r
                then d\<lparr>pd_Permissions := (pd_Permissions d)(rf_key r \<mapsto> new_permission r sc)\<rparr> else d) defs) rest)
      else attach_refs defs rest)"

definition policy_load :: "string option \<Rightarrow> policy_tables db \<Rightarrow> (goerr + policy_def list) \<times> policy_tables db" where
  "policy_load tdb s = (case tdb of
      None \<Rightarrow> (Inl (ErrText ''route policy database is disabled''), s)
    | Some driver \<Rightarrow> (case exec_db (reads select_active) s of
          (Inl err, s1) \<Rightarrow> (Inl (ErrWrap ''select route policies'' err), s1)
        | (Inr policies, s1) \<Rightarrow> (case exec_db (reads select_active_refs) s1 of
              (Inl err, s2) \<Rightarrow> (Inl (ErrWrap ''select route policy references'' err), s2)
            | (Inr refs, s2) \<Rightarrow> (attach_refs (map new_def policies) refs, s2))))"

text \<open>\<open>max(updated_at)\<close> over both tables; \<open>NULL\<close>, for two empty ones, is the zero time.\<close>

definition select_revision :: "session \<Rightarrow> policy_tables \<Rightarrow> goerr + time" where
  "select_revision ss t = Inr (let ts = map au_updated_at (pt_policies t) @ map au_updated_at (pt_refs t)
     in if ts = [] then 0 else Max (set ts))"

definition policy_revision :: "policy_tables db \<Rightarrow> (goerr + time) \<times> policy_tables db" where
  "policy_revision s = exec_db (reads select_revision) s"

definition active_route_ids :: "string \<Rightarrow> policy_tables db \<Rightarrow> (goerr + string list) \<times> policy_tables db" where
  "active_route_ids service s = exec_db (reads (\<lambda>ss t. Inr (sort (map rt_id
     (filter (\<lambda>r. rt_service r = service \<and> rt_status r = ''active'' \<and> live r) (pt_routes t)))))) s"

section \<open>SyncRoutes\<close>

definition deactivate_routes :: "string \<Rightarrow> string \<Rightarrow> (policy_tables, nat) stmt" where
  "deactivate_routes service protocol ss t =
     (let P = (\<lambda>r. rt_service r = service \<and> rt_protocol r = protocol \<and> rt_status r = ''active'' \<and> live r) in
      case update_rows ss P (\<lambda>r. r\<lparr>rt_status := ''inactive''\<rparr>) (pt_routes t) of
        Inl e \<Rightarrow> Inl e
      | Inr rows \<Rightarrow> constrained (t\<lparr>pt_routes := rows\<rparr>) (length (filter P (pt_routes t))))"

definition route_exists :: "string \<Rightarrow> session \<Rightarrow> policy_tables \<Rightarrow> goerr + unit" where
  "route_exists ident ss t =
     (if list_ex (\<lambda>r. rt_id r = ident \<and> live r) (pt_routes t) then Inr () else Inl ErrNoRows)"

definition route_columns :: "route \<Rightarrow> 'a route_row_scheme \<Rightarrow> 'a route_row_scheme" where
  "route_columns v r = r\<lparr>rt_protocol := ro_Protocol v, rt_method := ro_Method v, rt_path := ro_Path v,
     rt_operation := ro_Operation v, rt_description := ro_Description v, rt_service := ro_ServiceName v,
     rt_source_version := ro_SourceVersion v, rt_status := ''active''\<rparr>"

definition blank_route :: "string \<Rightarrow> route_row" where
  "blank_route ident = \<lparr>au_created_at = 0, au_created_by = [], au_updated_at = 0, au_updated_by = [],
     au_version = 1, au_deleted_at = None, au_deleted_by = None, rt_id = ident, rt_protocol = [],
     rt_method = [], rt_path = [], rt_operation = [], rt_description = [], rt_service = [],
     rt_source_version = [], rt_status = ''active''\<rparr>"

definition insert_route :: "route \<Rightarrow> (policy_tables, unit) stmt" where
  "insert_route v ss t = (case insert_row ss (route_columns v (blank_route (ro_ID v))) (pt_routes t) of
      Inl e \<Rightarrow> Inl e
    | Inr rows \<Rightarrow> constrained (t\<lparr>pt_routes := rows\<rparr>) ())"

definition update_route :: "route \<Rightarrow> (policy_tables, unit) stmt" where
  "update_route v ss t =
     (case update_rows ss (\<lambda>r. rt_id r = ro_ID v \<and> live r) (route_columns v) (pt_routes t) of
        Inl e \<Rightarrow> Inl e
      | Inr rows \<Rightarrow> constrained (t\<lparr>pt_routes := rows\<rparr>) ())"

fun sync_each :: "route list \<Rightarrow> policy_tables db \<Rightarrow> goerr option \<times> policy_tables db" where
  "sync_each [] s = (None, s)"
| "sync_each (v # rest) s =
     (let (found, s1) = exec_tx (reads (route_exists (ro_ID v))) s;
          (done1, s2) = (case found of
             Inr _ \<Rightarrow> exec_tx (update_route v) s1
           | Inl err \<Rightarrow> if errors_is err ErrNoRows then exec_tx (insert_route v) s1 else (Inl err, s1))
      in (case done1 of
            Inl err \<Rightarrow> (Some (ErrWrap (''sync route '' @ ro_Path v) err), s2)
          | Inr _ \<Rightarrow> sync_each rest s2))"

definition sync_routes :: "string option \<Rightarrow> route list \<Rightarrow> string \<Rightarrow> policy_tables db
    \<Rightarrow> goerr option \<times> policy_tables db" where
  "sync_routes tdb routes actor s = (case routes of
      [] \<Rightarrow> (Some (ErrText ''route sync requires routes''), s)
    | v # _ \<Rightarrow> within tdb (Some (system_principal actor)) (\<lambda>s1.
        case exec_tx (deactivate_routes (ro_ServiceName v) (ro_Protocol v)) s1 of
          (Inl err, s2) \<Rightarrow> (Some err, s2)
        | (Inr _, s2) \<Rightarrow> sync_each routes s2) s)"

section \<open>Page and Get\<close>

text \<open>The \<open>LEFT JOIN\<close> of the live routes with their live policies, and a row of its result.\<close>

definition joined :: "policy_tables \<Rightarrow> (route_row \<times> policy_row option) list" where
  "joined t = concat (map (\<lambda>r. case filter (\<lambda>p. pl_route_id p = rt_id r \<and> live p) (pt_policies t) of
       [] \<Rightarrow> [(r, None)]
     | ps \<Rightarrow> map (\<lambda>p. (r, Some p)) ps) (pt_routes t))"

definition new_detail :: "route_row \<times> policy_row option \<Rightarrow> detail" where
  "new_detail rp = (case rp of (r, p) \<Rightarrow> \<lparr>dt_RouteID = rt_id r, dt_Protocol = rt_protocol r,
     dt_Method = rt_method r, dt_Path = rt_path r, dt_Operation = rt_operation r, dt_RouteStatus = rt_status r,
     dt_PolicyID = (case p of None \<Rightarrow> [] | Some q \<Rightarrow> pl_id q),
     dt_Expression = (case p of None \<Rightarrow> [] | Some q \<Rightarrow> pl_expression q),
     dt_Description = (case p of None \<Rightarrow> [] | Some q \<Rightarrow> pl_description q),
     dt_PolicyStatus = (case p of None \<Rightarrow> [] | Some q \<Rightarrow> pl_status q),
     dt_Version = (case p of None \<Rightarrow> 0 | Some q \<Rightarrow> au_version q), dt_Permissions = []\<rparr>)"

datatype policy_cond = RouteLive | RouteKeyword string | RouteProtocol string | RouteStatus string | PolicyStatus string

definition policy_conds :: "(string \<Rightarrow> string) \<Rightarrow> policy_filter \<Rightarrow> policy_cond list" where
  "policy_conds uni f = [RouteLive]
     @ (let v = trim_space (pf_Keyword f) in
        if v \<noteq> [] then [RouteKeyword (''%'' @ to_lower uni v @ ''%'')] else [])
     @ map (\<lambda>(column, v). column v) (filter (\<lambda>(column, v). v \<noteq> [])
         [(RouteProtocol, trim_space (pf_Protocol f)), (RouteStatus, trim_space (pf_RouteStatus f)),
          (PolicyStatus, trim_space (pf_PolicyStatus f))])"

fun policy_cond_text :: "policy_cond \<Rightarrow> string" where
  "policy_cond_text RouteLive = ''r.deleted_at IS NULL''"
| "policy_cond_text (RouteKeyword v) = ''(LOWER(r.path) LIKE ? OR LOWER(r.operation) LIKE ?)''"
| "policy_cond_text (RouteProtocol v) = ''r.protocol=?''"
| "policy_cond_text (RouteStatus v) = ''r.status=?''"
| "policy_cond_text (PolicyStatus v) = ''p.status=?''"

fun policy_cond_args :: "policy_cond \<Rightarrow> sql_arg list" where
  "policy_cond_args RouteLive = []"
| "policy_cond_args (RouteKeyword v) = [SText v, SText v]"
| "policy_cond_args (RouteProtocol v) = [SText v]"
| "policy_cond_args (RouteStatus v) = [SText v]"
| "policy_cond_args (PolicyStatus v) = [SText v]"

definition route_policy_where :: "(string \<Rightarrow> string) \<Rightarrow> policy_filter \<Rightarrow> string \<times> sql_arg list" where
  "route_policy_where uni f = (let conds = policy_conds uni f in
     (join '' AND '' (map policy_cond_text conds), concat (map policy_cond_args conds)))"

fun policy_cond_holds :: "(string \<Rightarrow> string) \<Rightarrow> policy_cond \<Rightarrow> route_row \<times> policy_row option \<Rightarrow> bool" where
  "policy_cond_holds lower RouteLive (r, p) \<longleftrightarrow> live r"
| "policy_cond_holds lower (RouteKeyword pat) (r, p) \<longleftrightarrow>
     like pat (lower (rt_path r)) \<or> like pat (lower (rt_operation r))"
| "policy_cond_holds lower (RouteProtocol v) (r, p) \<longleftrightarrow> rt_protocol r = v"
| "policy_cond_holds lower (RouteStatus v) (r, p) \<longleftrightarrow> rt_status r = v"
| "policy_cond_holds lower (PolicyStatus v) (r, p) \<longleftrightarrow> (case p of None \<Rightarrow> False | Some q \<Rightarrow> pl_status q = v)"

definition policy_matching :: "sql_env \<Rightarrow> policy_filter \<Rightarrow> policy_tables \<Rightarrow> (route_row \<times> policy_row option) list" where
  "policy_matching env f t = filter (\<lambda>rp. list_all (\<lambda>c. policy_cond_holds (se_lower env) c rp)
     (policy_conds (se_uni env) f)) (joined t)"

definition select_details :: "sql_env \<Rightarrow> policy_filter \<Rightarrow> int \<Rightarrow> int \<Rightarrow> session \<Rightarrow> policy_tables
    \<Rightarrow> goerr + detail list" where
  "select_details env f limit offset ss t =
     (if limit < 0 then Inl (PgError ''2201W'' ''LIMIT must not be negative'')
      else if offset < 0 then Inl (PgError ''2201X'' ''OFFSET must not be negative'')
      else Inr (take (nat limit) (drop (nat offset) (map new_detail
        (sort_key (\<lambda>(r, p). (rt_protocol r, rt_path r)) (policy_matching env f t))))))"

definition policy_page :: "sql_env \<Rightarrow> policy_filter \<Rightarrow> int \<Rightarrow> int \<Rightarrow> policy_tables db
    \<Rightarrow> (goerr + detail list \<times> int) \<times> policy_tables db" where
  "policy_page env f limit offset s =
     (case exec_db (reads (\<lambda>ss t. Inr (int (length (policy_matching env f t))))) s of
        (Inl err, s1) \<Rightarrow> (Inl err, s1)
      | (Inr n, s1) \<Rightarrow> (case exec_db (reads (select_details env f limit offset)) s1 of
            (Inl err, s2) \<Rightarrow> (Inl err, s2)
          | (Inr items, s2) \<Rightarrow> (Inr (items, n), s2)))"

definition select_detail :: "string \<Rightarrow> session \<Rightarrow> policy_tables \<Rightarrow> goerr + detail" where
  "select_detail route_id ss t = (case filter (\<lambda>(r, p). rt_id r = route_id \<and> live r) (joined t) of
      [] \<Rightarrow> Inl ErrNoRows
    | rp # _ \<Rightarrow> Inr (new_detail rp))"

definition select_permissions :: "string \<Rightarrow> session \<Rightarrow> policy_tables \<Rightarrow> goerr + perm_input list" where
  "select_permissions policy_id ss t = Inr (map
     (\<lambda>r. \<lparr>pi_Key = rf_key r, pi_Resource = rf_resource r, pi_Action = rf_action r, pi_Scope = rf_scope r\<rparr>)
     (sort_key rf_key (filter (\<lambda>r. rf_policy_id r = policy_id \<and> live r) (pt_refs t))))"

definition policy_get :: "string \<Rightarrow> policy_tables db \<Rightarrow> (goerr + detail) \<times> policy_tables db" where
  "policy_get route_id s = (case exec_db (reads (select_detail route_id)) s of
      (Inl err, s1) \<Rightarrow> (Inl (if errors_is err ErrNoRows then ErrPolicyNotFound else err), s1)
    | (Inr d, s1) \<Rightarrow>
        if dt_PolicyID d \<noteq> [] then
          (case exec_db (reads (select_permissions (dt_PolicyID d))) s1 of
             (Inl err, s2) \<Rightarrow> (Inl err, s2)
           | (Inr perms, s2) \<Rightarrow> (Inr (d\<lparr>dt_Permissions := perms\<rparr>), s2))
        else (Inr d, s1))"

section \<open>Set\<close>

definition select_policy :: "string \<Rightarrow> session \<Rightarrow> policy_tables \<Rightarrow> goerr + policy_row" where
  "select_policy route_id ss t =
     (case filter (\<lambda>p. pl_route_id p = route_id \<and> live p) (pt_policies t) of
        [] \<Rightarrow> Inl ErrNoRows
      | p # _ \<Rightarrow> Inr p)"

definition policy_columns :: "set_input \<Rightarrow> 'a policy_row_scheme \<Rightarrow> 'a policy_row_scheme" where
  "policy_columns v p = p\<lparr>pl_expression := si_Expression v, pl_description := si_Description v,
     pl_status := si_Status v\<rparr>"

definition blank_policy :: "string \<Rightarrow> string \<Rightarrow> policy_row" where
  "blank_policy ident route_id = \<lparr>au_created_at = 0, au_created_by = [], au_updated_at = 0,
     au_updated_by = [], au_version = 1, au_deleted_at = None, au_deleted_by = None, pl_id = ident,
     pl_route_id = route_id, pl_expression = [], pl_description = [], pl_status = []\<rparr>"

definition insert_policy :: "string \<Rightarrow> set_input \<Rightarrow> (policy_tables, unit) stmt" where
  "insert_policy ident v ss t =
     (case insert_row ss (policy_columns v (blank_policy ident (si_RouteID v))) (pt_policies t) of
        Inl e \<Rightarrow> Inl e
      | Inr rows \<Rightarrow> constrained (t\<lparr>pt_policies := rows\<rparr>) ())"

text \<open>The update and the number of rows it changed.\<close>

definition update_policy :: "string \<Rightarrow> set_input \<Rightarrow> (policy_tables, nat) stmt" where
  "update_policy ident v ss t =
     (let P = (\<lambda>p. pl_id p = ident \<and> au_version p = si_ExpectedVersion v \<and> live p) in
      case update_rows ss P (policy_columns v) (pt_policies t) of
        Inl e \<Rightarrow> Inl e
      | Inr rows \<Rightarrow> constrained (t\<lparr>pt_policies := rows\<rparr>) (length (filter P (pt_policies t))))"

definition save_policy :: "string \<Rightarrow> set_input \<Rightarrow> policy_tables db \<Rightarrow> (goerr + string) \<times> policy_tables db" where
  "save_policy fresh v s = (case exec_tx (reads (select_policy (si_RouteID v))) s of
      (Inl err, s1) \<Rightarrow>
        if errors_is err ErrNoRows then
          (if si_ExpectedVersion v \<noteq> 0 then (Inl ErrStaleVersion, s1)
           else (case exec_tx (insert_policy fresh v) s1 of
               (Inl e, s2) \<Rightarrow> (Inl e, s2)
             | (Inr _, s2) \<Rightarrow> (Inr fresh, s2)))
        else (Inl err, s1)
    | (Inr row, s1) \<Rightarrow>
        if au_version row \<noteq> si_ExpectedVersion v then (Inl ErrStaleVersion, s1)
        else (case exec_tx (update_policy (pl_id row) v) s1 of
            (Inl e, s2) \<Rightarrow> (Inl e, s2)
          | (Inr n, s2) \<Rightarrow> if n = 0 then (Inl ErrStaleVersion, s2) else (Inr (pl_id row), s2)))"

definition select_refs :: "string \<Rightarrow> session \<Rightarrow> policy_tables \<Rightarrow> goerr + ref_row list" where
  "select_refs policy_id ss t = Inr (filter (\<lambda>r. rf_policy_id r = policy_id) (pt_refs t))"

definition update_ref :: "perm_input \<Rightarrow> string \<Rightarrow> (policy_tables, unit) stmt" where
  "update_ref v ident ss t = (case update_rows ss (\<lambda>r. rf_id r = ident)
       (\<lambda>r. r\<lparr>rf_resource := pi_Resource v, rf_action := pi_Action v, rf_scope := pi_Scope v,
          au_deleted_at := None, au_deleted_by := None\<rparr>) (pt_refs t) of
      Inl e \<Rightarrow> Inl e
    | Inr rows \<Rightarrow> constrained (t\<lparr>pt_refs := rows\<rparr>) ())"

definition new_ref :: "string \<Rightarrow> string \<Rightarrow> perm_input \<Rightarrow> ref_row" where
  "new_ref ident policy_id v = \<lparr>au_created_at = 0, au_created_by = [], au_updated_at = 0,
     au_updated_by = [], au_version = 1, au_deleted_at = None, au_deleted_by = None, rf_id = ident,
     rf_policy_id = policy_id, rf_key = pi_Key v, rf_resource = pi_Resource v, rf_action = pi_Action v,
     rf_scope = pi_Scope v\<rparr>"

definition insert_ref :: "string \<Rightarrow> string \<Rightarrow> perm_input \<Rightarrow> (policy_tables, unit) stmt" where
  "insert_ref ident policy_id v ss t = (case insert_row ss (new_ref ident policy_id v) (pt_refs t) of
      Inl e \<Rightarrow> Inl e
    | Inr rows \<Rightarrow> constrained (t\<lparr>pt_refs := rows\<rparr>) ())"

text \<open>The soft delete of a reference; which time the statement passes does not matter, the trigger sets its own.\<close>

definition delete_ref :: "string \<Rightarrow> (policy_tables, unit) stmt" where
  "delete_ref ident ss t = (case update_rows ss (\<lambda>r. rf_id r = ident \<and> live r)
       (\<lambda>r. r\<lparr>au_deleted_at := Some (ss_now ss)\<rparr>) (pt_refs t) of
      Inl e \<Rightarrow> Inl e
    | Inr rows \<Rightarrow> constrained (t\<lparr>pt_refs := rows\<rparr>) ())"

text \<open>
  The loops over the permissions and over the references that are to go.  \<open>fresh\<close> gives the
  identifiers \<open>uuid.NewString\<close> makes, by the position of the permission.
\<close>

fun write_refs :: "(nat \<Rightarrow> string) \<Rightarrow> string \<Rightarrow> ref_row list \<Rightarrow> nat \<Rightarrow> perm_input list \<Rightarrow> policy_tables db
    \<Rightarrow> goerr option \<times> policy_tables db" where
  "write_refs fresh policy_id existing n [] s = (None, s)"
| "write_refs fresh policy_id existing n (v # rest) s =
     (case (case map_of (rev (map (\<lambda>r. (rf_key r, r)) existing)) (pi_Key v) of
              Some old \<Rightarrow> exec_tx (update_ref v (rf_id old)) s
            | None \<Rightarrow> exec_tx (insert_ref (fresh n) policy_id v) s) of
        (Inl e, s1) \<Rightarrow> (Some e, s1)
      | (Inr _, s1) \<Rightarrow> write_refs fresh policy_id existing (Suc n) rest s1)"

fun drop_refs :: "string set \<Rightarrow> ref_row list \<Rightarrow> policy_tables db \<Rightarrow> goerr option \<times> policy_tables db" where
  "drop_refs desired [] s = (None, s)"
| "drop_refs desired (old # rest) s =
     (if rf_key old \<in> desired then drop_refs desired rest s
      else (case exec_tx (delete_ref (rf_id old)) s of
          (Inl e, s1) \<Rightarrow> (Some e, s1)
        | (Inr _, s1) \<Rightarrow> drop_refs desired rest s1))"

definition set_body :: "(nat \<Rightarrow> string) \<Rightarrow> set_input \<Rightarrow> policy_tables db \<Rightarrow> goerr option \<times> policy_tables db" where
  "set_body fresh v s = (case exec_tx (reads (route_exists (si_RouteID v))) s of
      (Inl err, s1) \<Rightarrow> (Some (if errors_is err ErrNoRows then ErrPolicyNotFound else err), s1)
    | (Inr _, s1) \<Rightarrow> (case save_policy (fresh 0) v s1 of
          (Inl err, s2) \<Rightarrow> (Some err, s2)
        | (Inr policy_id, s2) \<Rightarrow> (case exec_tx (reads (select_refs policy_id)) s2 of
              (Inl err, s3) \<Rightarrow> (Some err, s3)
            | (Inr existing, s3) \<Rightarrow>
                (case write_refs fresh policy_id existing 1 (si_Permissions v) s3 of
                   (Some err, s4) \<Rightarrow> (Some err, s4)
                 | (None, s4) \<Rightarrow> drop_refs (pi_Key ` set (si_Permissions v)) existing s4))))"

definition policy_set :: "string option \<Rightarrow> (nat \<Rightarrow> string) \<Rightarrow> set_input \<Rightarrow> string \<Rightarrow> policy_tables db
    \<Rightarrow> goerr option \<times> policy_tables db" where
  "policy_set tdb fresh v actor s = within tdb (Some (system_principal actor)) (set_body fresh v) s"

end
