(* ===== verification/Policy_Store.thy ===== *)
theory Policy_Store
  imports Policy_Repository
begin

text \<open>
  What the route-policy repository keeps and implements: the constraints of the tables as an
  invariant of every statement, and what a successful \<open>Set\<close> or \<open>SyncRoutes\<close> leaves.
\<close>

section \<open>Statements\<close>

lemma constrained_ok: "constrained t x = Inr (t', y) \<longleftrightarrow> policy_inv t \<and> t' = t \<and> y = x"
  by (auto simp: constrained_def policy_inv_def)

lemma update_rows_ok:
  assumes "update_rows ss P f rows = Inr rows'"
  obtains a where "rows' = map (\<lambda>r. if P r then stamp_update ss a r (f r) else r) rows"
    "list_ex P rows \<Longrightarrow> ss_actor ss = Some a"
proof (cases "list_ex P rows")
  case True
  with assms show thesis
    by (intro that [of "the (ss_actor ss)"]) (auto simp: update_rows_def map_sum_def audit_actor_def
        split: sum.splits option.splits list.splits)
next
  case False
  then have "map (\<lambda>r. if P r then stamp_update ss [] r (f r) else r) rows = rows"
    by (auto simp: list_ex_iff intro: map_idI)
  with False assms show thesis by (intro that [of "[]"]) (simp_all add: update_rows_def)
qed

lemma insert_row_ok:
  assumes "insert_row ss r rows = Inr rows'"
  obtains a where "rows' = rows @ [stamp_insert ss a r]" "ss_actor ss = Some a"
  using assms by (auto simp: insert_row_def map_sum_def audit_actor_def
      split: sum.splits option.splits list.splits)

lemma live_stamps [simp]:
  "live (stamp_insert ss a r)"
  "au_deleted_at new = au_deleted_at old \<Longrightarrow> live (stamp_update ss a old new) \<longleftrightarrow> live old"
  "au_deleted_at new = None \<Longrightarrow> live (stamp_update ss a old new)"
  by (auto simp: live_def stamp_insert_def stamp_update_def)

lemma stamped_columns [simp]:
  "rf_id (stamp_update ss a old new) = rf_id new" "rf_policy_id (stamp_update ss a old new) = rf_policy_id new"
  "rf_key (stamp_update ss a old new) = rf_key new" "rf_resource (stamp_update ss a old new) = rf_resource new"
  "rf_action (stamp_update ss a old new) = rf_action new" "rf_scope (stamp_update ss a old new) = rf_scope new"
  for new :: ref_row
  by (auto simp: stamp_update_def split: prod.splits)

lemma stamped_policy [simp]:
  "pl_id (stamp_update ss a old new) = pl_id new" "pl_route_id (stamp_update ss a old new) = pl_route_id new"
  "pl_expression (stamp_update ss a old new) = pl_expression new"
  "pl_description (stamp_update ss a old new) = pl_description new"
  "pl_status (stamp_update ss a old new) = pl_status new"
  "au_version (stamp_update ss a old new) = au_version old + 1"
  for new :: policy_row
  by (auto simp: stamp_update_def split: prod.splits)

lemma stamped_route [simp]:
  "rt_id (stamp_update ss a old new) = rt_id new" "rt_protocol (stamp_update ss a old new) = rt_protocol new"
  "rt_service (stamp_update ss a old new) = rt_service new" "rt_status (stamp_update ss a old new) = rt_status new"
  "rt_method (stamp_update ss a old new) = rt_method new" "rt_path (stamp_update ss a old new) = rt_path new"
  for new :: route_row
  by (auto simp: stamp_update_def split: prod.splits)

lemma inserted_columns [simp]:
  "rf_id (stamp_insert ss a r) = rf_id r" "rf_policy_id (stamp_insert ss a r) = rf_policy_id r"
  "rf_key (stamp_insert ss a r) = rf_key r" "rf_resource (stamp_insert ss a r) = rf_resource r"
  "rf_action (stamp_insert ss a r) = rf_action r" "rf_scope (stamp_insert ss a r) = rf_scope r"
  "pl_id (stamp_insert ss a p) = pl_id p" "pl_route_id (stamp_insert ss a p) = pl_route_id p"
  "pl_expression (stamp_insert ss a p) = pl_expression p" "pl_description (stamp_insert ss a p) = pl_description p"
  "pl_status (stamp_insert ss a p) = pl_status p" "au_version (stamp_insert ss a p) = 1"
  "rt_id (stamp_insert ss a v) = rt_id v" "rt_protocol (stamp_insert ss a v) = rt_protocol v"
  "rt_service (stamp_insert ss a v) = rt_service v" "rt_status (stamp_insert ss a v) = rt_status v"
  for r :: ref_row and p :: policy_row and v :: route_row
  by (simp_all add: stamp_insert_def)

section \<open>The constraints are an invariant\<close>

definition policy_order :: "policy_tables \<Rightarrow> policy_tables \<Rightarrow> bool" where
  "policy_order t t' \<longleftrightarrow> (policy_inv t \<longrightarrow> policy_inv t')"

interpretation policy: table_order policy_order
  by unfold_locales (auto simp: policy_order_def)

lemma statements_keep_policy_inv:
  "deactivate_routes sv pr ss t = Inr (t', n) \<Longrightarrow> policy_inv t'"
  "insert_route v ss t = Inr (t', u) \<Longrightarrow> policy_inv t'"
  "update_route v ss t = Inr (t', u) \<Longrightarrow> policy_inv t'"
  "insert_policy i inp ss t = Inr (t', u) \<Longrightarrow> policy_inv t'"
  "update_policy i inp ss t = Inr (t', n) \<Longrightarrow> policy_inv t'"
  "update_ref p i ss t = Inr (t', u) \<Longrightarrow> policy_inv t'"
  "insert_ref i j p ss t = Inr (t', u) \<Longrightarrow> policy_inv t'"
  "delete_ref i ss t = Inr (t', u) \<Longrightarrow> policy_inv t'"
  by (auto simp: deactivate_routes_def insert_route_def update_route_def insert_policy_def update_policy_def
      update_ref_def insert_ref_def delete_ref_def constrained_ok Let_def split: sum.splits)


lemma filter_hd: "filter P xs = y # ys \<Longrightarrow> y \<in> set xs \<and> P y"
  using set_filter [of P xs] by auto

lemma exec_tx_reads:
  fixes s :: "'t db"
  assumes "exec_tx (reads q) s = (Inr x, s')"
  obtains ss where "q ss (db_tables s) = Inr x" "db_tables s' = db_tables s"
  using assms by (rule exec_tx_ok) (use that in \<open>auto dest: reads_same\<close>)

lemma exec_tx_reads_tables:
  assumes "exec_tx (reads q) s = (r, s')"
  shows "db_tables s' = db_tables s"
proof -
  obtain x s0 where x: "next_step s = (x, s0)" by fastforce
  with assms have run: "run_stmt (reads q) (st_outcome x) s0 = (r, s')" by (simp add: exec_tx_def)
  from run_stmt_effect [OF run] have "db_tables s' = db_tables s0" by (auto dest: reads_same)
  with next_step_tables [OF x] show ?thesis by simp
qed

lemma exec_tx_stmt:
  fixes s :: "'t db"
  assumes "exec_tx stmt s = (Inr x, s')"
  obtains ss where "stmt ss (db_tables s) = Inr (db_tables s', x)"
  using assms by (rule exec_tx_ok) (use that in blast)

section \<open>Writing the references of a policy\<close>

text \<open>
  How the reference rows may move: \<open>same_refs\<close> relates two tables that agree but for the
  references of one policy with keys in a set, whose identifiers and keys stay.
\<close>

definition perm_of :: "ref_row \<Rightarrow> perm_input" where
  "perm_of r = \<lparr>pi_Key = rf_key r, pi_Resource = rf_resource r, pi_Action = rf_action r, pi_Scope = rf_scope r\<rparr>"

definition refs_touched :: "string \<Rightarrow> string set \<Rightarrow> policy_tables \<Rightarrow> policy_tables \<Rightarrow> bool" where
  "refs_touched pid keys t t' \<longleftrightarrow> pt_routes t' = pt_routes t \<and> pt_policies t' = pt_policies t \<and>
     (policy_inv t \<longrightarrow> policy_inv t') \<and>
     (\<forall>r' \<in> set (pt_refs t'). r' \<in> set (pt_refs t) \<or> (rf_policy_id r' = pid \<and> rf_key r' \<in> keys)) \<and>
     (\<forall>r \<in> set (pt_refs t). r \<in> set (pt_refs t') \<or> (rf_policy_id r = pid \<and> rf_key r \<in> keys)) \<and>
     (\<forall>r \<in> set (pt_refs t). \<exists>r' \<in> set (pt_refs t'). rf_id r' = rf_id r \<and> rf_key r' = rf_key r \<and>
        rf_policy_id r' = rf_policy_id r)"

lemma refs_touched_refl: "refs_touched pid keys t t"
  by (auto simp: refs_touched_def)

lemma refs_touched_trans:
  assumes "refs_touched pid keys t u" "refs_touched pid keys' u v"
  shows "refs_touched pid (keys \<union> keys') t v"
proof -
  note tu = assms(1) [unfolded refs_touched_def] and uv = assms(2) [unfolded refs_touched_def]
  have "\<exists>r' \<in> set (pt_refs v). rf_id r' = rf_id r \<and> rf_key r' = rf_key r \<and> rf_policy_id r' = rf_policy_id r"
    if r: "r \<in> set (pt_refs t)" for r
  proof -
    from tu r obtain r1 where r1: "r1 \<in> set (pt_refs u)" "rf_id r1 = rf_id r" "rf_key r1 = rf_key r"
      "rf_policy_id r1 = rf_policy_id r" by blast
    with uv obtain r2 where "r2 \<in> set (pt_refs v)" "rf_id r2 = rf_id r1" "rf_key r2 = rf_key r1"
      "rf_policy_id r2 = rf_policy_id r1" by blast
    with r1 show ?thesis by auto
  qed
  moreover have "r' \<in> set (pt_refs t) \<or> (rf_policy_id r' = pid \<and> rf_key r' \<in> keys \<union> keys')"
    if "r' \<in> set (pt_refs v)" for r' using tu uv that by blast
  moreover have "r \<in> set (pt_refs v) \<or> (rf_policy_id r = pid \<and> rf_key r \<in> keys \<union> keys')"
    if "r \<in> set (pt_refs t)" for r using tu uv that by blast
  ultimately show ?thesis using tu uv unfolding refs_touched_def by simp
qed

lemma refs_touched_mono: "refs_touched pid keys t u \<Longrightarrow> keys \<subseteq> keys' \<Longrightarrow> refs_touched pid keys' t u"
  unfolding refs_touched_def by blast

lemma distinct_map_eq: "distinct (map f xs) \<Longrightarrow> x \<in> set xs \<Longrightarrow> y \<in> set xs \<Longrightarrow> f x = f y \<Longrightarrow> x = y"
  by (auto simp: distinct_map inj_on_def)

lemma image_if_single:
  assumes "row \<in> S" "P row" and only: "\<And>r. r \<in> S \<Longrightarrow> P r \<Longrightarrow> r = row"
  shows "(\<lambda>r. if P r then g r else r) ` S = {r \<in> S. \<not> P r} \<union> {g row}"
proof (rule set_eqI)
  fix y
  have g: "(\<exists>r \<in> S. P r \<and> y = g r) \<longleftrightarrow> y = g row" using assms by blast
  have "y \<in> (\<lambda>r. if P r then g r else r) ` S \<longleftrightarrow> (\<exists>r \<in> S. \<not> P r \<and> y = r) \<or> (\<exists>r \<in> S. P r \<and> y = g r)"
    by auto
  then show "y \<in> (\<lambda>r. if P r then g r else r) ` S \<longleftrightarrow> y \<in> {r \<in> S. \<not> P r} \<union> {g row}"
    unfolding g by auto
qed

lemma update_ref_touches:
  assumes "update_ref v (rf_id old) ss t = Inr (t', u)" "policy_inv t" "row \<in> set (pt_refs t)"
    "rf_id row = rf_id old" "rf_policy_id row = pid" "rf_key row = pi_Key v"
  shows "refs_touched pid {pi_Key v} t t'" "\<exists>r \<in> set (pt_refs t'). live r \<and> rf_policy_id r = pid \<and> perm_of r = v"
proof -
  let ?f = "\<lambda>r. r\<lparr>rf_resource := pi_Resource v, rf_action := pi_Action v, rf_scope := pi_Scope v,
          au_deleted_at := None, au_deleted_by := None\<rparr>"
  from assms(1) obtain rows where rows: "update_rows ss (\<lambda>r. rf_id r = rf_id old) ?f (pt_refs t) = Inr rows"
    "t' = t\<lparr>pt_refs := rows\<rparr>" "policy_inv t'"
    by (auto simp: update_ref_def constrained_ok split: sum.splits)
  obtain a where a: "rows = map (\<lambda>r. if rf_id r = rf_id old then stamp_update ss a r (?f r) else r) (pt_refs t)"
    by (rule update_rows_ok [OF rows(1)])
  have d: "distinct (map rf_id (pt_refs t))" using assms(2) by (simp add: policy_inv_def unique_ok_def)
  have only: "r = row" if "r \<in> set (pt_refs t)" "rf_id r = rf_id old" for r
    using distinct_map_eq [OF d that(1) assms(3)] that(2) assms(4) by simp
  define new where "new = stamp_update ss a row (?f row)"
  have new: "rf_id new = rf_id old" "rf_policy_id new = pid" "rf_key new = pi_Key v" "live new" "perm_of new = v"
    using assms(4-6) by (simp_all add: new_def perm_of_def)
  have mem: "r' \<in> set (pt_refs t') \<longleftrightarrow> (r' \<in> set (pt_refs t) \<and> rf_id r' \<noteq> rf_id old) \<or> r' = new" for r'
  proof -
    have "set (pt_refs t') = (\<lambda>r. if rf_id r = rf_id old then stamp_update ss a r (?f r) else r) ` set (pt_refs t)"
      using rows(2) a by simp
    also have "\<dots> = {r \<in> set (pt_refs t). rf_id r \<noteq> rf_id old} \<union> {new}"
      unfolding new_def by (rule image_if_single [where P = "\<lambda>r. rf_id r = rf_id old", OF assms(3,4) only])
    finally show ?thesis by auto
  qed
  have tabs: "pt_routes t' = pt_routes t" "pt_policies t' = pt_policies t" using rows(2) by simp_all
  show "refs_touched pid {pi_Key v} t t'"
    unfolding refs_touched_def
  proof (intro conjI ballI)
    show "\<exists>r' \<in> set (pt_refs t'). rf_id r' = rf_id r \<and> rf_key r' = rf_key r \<and> rf_policy_id r' = rf_policy_id r"
      if "r \<in> set (pt_refs t)" for r
      using that mem new(1-3) only assms(4-6) by (cases "rf_id r = rf_id old") auto
  qed (use tabs rows(3) mem new(2,3) only assms(4-6) in auto)
  show "\<exists>r \<in> set (pt_refs t'). live r \<and> rf_policy_id r = pid \<and> perm_of r = v"
    using mem new by blast
qed

lemma insert_ref_touches:
  assumes "insert_ref i pid v ss t = Inr (t', u)"
  shows "refs_touched pid {pi_Key v} t t'" "\<exists>r \<in> set (pt_refs t'). live r \<and> rf_policy_id r = pid \<and> perm_of r = v"
proof -
  from assms obtain rows where rows: "insert_row ss (new_ref i pid v) (pt_refs t) = Inr rows"
    "t' = t\<lparr>pt_refs := rows\<rparr>" "policy_inv t'"
    by (auto simp: insert_ref_def constrained_ok split: sum.splits)
  obtain a where a: "rows = pt_refs t @ [stamp_insert ss a (new_ref i pid v)]"
    using insert_row_ok [OF rows(1)] by metis
  show "refs_touched pid {pi_Key v} t t'"
    unfolding refs_touched_def using rows(2,3) a by (auto simp: new_ref_def)
  show "\<exists>r \<in> set (pt_refs t'). live r \<and> rf_policy_id r = pid \<and> perm_of r = v"
    using rows(2) a by (auto simp: perm_of_def new_ref_def)
qed

lemma write_refs_ok:
  assumes "write_refs fresh pid existing n vs s = (None, s')" "policy_inv (db_tables s)" "distinct (map pi_Key vs)"
    "\<forall>old \<in> set existing. \<exists>row \<in> set (pt_refs (db_tables s)). rf_id row = rf_id old \<and> rf_policy_id row = pid \<and> rf_key row = rf_key old"
  shows "refs_touched pid (pi_Key ` set vs) (db_tables s) (db_tables s') \<and> policy_inv (db_tables s') \<and>
    (\<forall>v \<in> set vs. \<exists>r \<in> set (pt_refs (db_tables s')). live r \<and> rf_policy_id r = pid \<and> perm_of r = v)"
  using assms
proof (induction fresh pid existing n vs s rule: write_refs.induct)
  case (1 fresh pid existing n s)
  then show ?case by (simp add: refs_touched_refl)
next
  case (2 fresh pid existing n v rest s)
  let ?old = "map_of (rev (map (\<lambda>r. (rf_key r, r)) existing)) (pi_Key v)"
  let ?step = "case ?old of Some old \<Rightarrow> exec_tx (update_ref v (rf_id old)) s
            | None \<Rightarrow> exec_tx (insert_ref (fresh n) pid v) s"
  obtain s1 where s1: "?step = (Inr (), s1)" "write_refs fresh pid existing (Suc n) rest s1 = (None, s')"
    using "2.prems"(1) by (auto split: prod.splits sum.splits)
  have step: "refs_touched pid {pi_Key v} (db_tables s) (db_tables s1) \<and>
    (\<exists>r \<in> set (pt_refs (db_tables s1)). live r \<and> rf_policy_id r = pid \<and> perm_of r = v)"
  proof (cases ?old)
    case None
    with s1(1) have "exec_tx (insert_ref (fresh n) pid v) s = (Inr (), s1)" by simp
    from exec_tx_stmt [OF this] insert_ref_touches show ?thesis by metis
  next
    case (Some old)
    then have old: "old \<in> set existing" "rf_key old = pi_Key v" by (auto dest!: map_of_SomeD)
    with "2.prems"(4) obtain row where row: "row \<in> set (pt_refs (db_tables s))" "rf_id row = rf_id old"
      "rf_policy_id row = pid" "rf_key row = pi_Key v" by metis
    from Some s1(1) have "exec_tx (update_ref v (rf_id old)) s = (Inr (), s1)" by simp
    from exec_tx_stmt [OF this] obtain ss where "update_ref v (rf_id old) ss (db_tables s) = Inr (db_tables s1, ())" .
    from update_ref_touches [OF this "2.prems"(2) row] show ?thesis by blast
  qed
  then have inv1: "policy_inv (db_tables s1)" using "2.prems"(2) by (simp add: refs_touched_def)
  have ex1: "\<forall>old \<in> set existing. \<exists>row \<in> set (pt_refs (db_tables s1)). rf_id row = rf_id old \<and> rf_policy_id row = pid \<and> rf_key row = rf_key old"
    using "2.prems"(4) step unfolding refs_touched_def by metis
  have ih: "refs_touched pid (pi_Key ` set rest) (db_tables s1) (db_tables s') \<and> policy_inv (db_tables s') \<and>
    (\<forall>v \<in> set rest. \<exists>r \<in> set (pt_refs (db_tables s')). live r \<and> rf_policy_id r = pid \<and> perm_of r = v)"
    using "2.IH" s1 inv1 "2.prems"(3) ex1 by auto
  have kept: "\<exists>r \<in> set (pt_refs (db_tables s')). live r \<and> rf_policy_id r = pid \<and> perm_of r = v"
  proof -
    from step obtain r where r: "r \<in> set (pt_refs (db_tables s1))" "live r" "rf_policy_id r = pid" "perm_of r = v" by blast
    moreover have "rf_key r \<notin> pi_Key ` set rest" using r(4) "2.prems"(3) by (auto simp: perm_of_def)
    ultimately show ?thesis using ih unfolding refs_touched_def by blast
  qed
  have "refs_touched pid ({pi_Key v} \<union> pi_Key ` set rest) (db_tables s) (db_tables s')"
    using refs_touched_trans step ih by blast
  then show ?case using ih kept by simp
qed


section \<open>Deleting references\<close>

lemma delete_ref_deletes:
  assumes "delete_ref i ss t = Inr (t', u)"
  shows "pt_routes t' = pt_routes t" "pt_policies t' = pt_policies t" "policy_inv t'"
    "r \<in> set (pt_refs t') \<Longrightarrow> live r \<Longrightarrow> r \<in> set (pt_refs t) \<and> rf_id r \<noteq> i"
    "r \<in> set (pt_refs t) \<Longrightarrow> rf_id r \<noteq> i \<Longrightarrow> r \<in> set (pt_refs t')"
proof -
  let ?f = "\<lambda>r. r\<lparr>au_deleted_at := Some (ss_now ss)\<rparr>"
  from assms obtain rows where rows: "update_rows ss (\<lambda>r. rf_id r = i \<and> live r) ?f (pt_refs t) = Inr rows"
    "t' = t\<lparr>pt_refs := rows\<rparr>" "policy_inv t'"
    by (auto simp: delete_ref_def constrained_ok split: sum.splits)
  obtain a where a: "rows = map (\<lambda>r. if rf_id r = i \<and> live r then stamp_update ss a r (?f r) else r) (pt_refs t)"
    by (rule update_rows_ok [OF rows(1)])
  have dead: "\<not> live (stamp_update ss a r (?f r))" if "live r" for r :: ref_row
    using that by (simp add: live_def stamp_update_def)
  show "pt_routes t' = pt_routes t" "pt_policies t' = pt_policies t" "policy_inv t'" using rows by simp_all
  show "r \<in> set (pt_refs t') \<Longrightarrow> live r \<Longrightarrow> r \<in> set (pt_refs t) \<and> rf_id r \<noteq> i"
    using rows(2) a dead by (auto split: if_splits)
  show "r \<in> set (pt_refs t) \<Longrightarrow> rf_id r \<noteq> i \<Longrightarrow> r \<in> set (pt_refs t')"
    using rows(2) a by (auto simp: image_iff)
qed

lemma drop_refs_ok:
  assumes "drop_refs desired olds s = (None, s')" "policy_inv (db_tables s)"
  shows "pt_routes (db_tables s') = pt_routes (db_tables s) \<and> pt_policies (db_tables s') = pt_policies (db_tables s) \<and>
    policy_inv (db_tables s') \<and>
    (\<forall>r \<in> set (pt_refs (db_tables s')). live r \<longrightarrow> r \<in> set (pt_refs (db_tables s)) \<and>
       rf_id r \<notin> rf_id ` {old \<in> set olds. rf_key old \<notin> desired}) \<and>
    (\<forall>r \<in> set (pt_refs (db_tables s)). rf_id r \<notin> rf_id ` {old \<in> set olds. rf_key old \<notin> desired} \<longrightarrow>
       r \<in> set (pt_refs (db_tables s')))"
  using assms
proof (induction desired olds s rule: drop_refs.induct)
  case (1 desired s)
  then show ?case by simp
next
  case (2 desired old rest s)
  show ?case
  proof (cases "rf_key old \<in> desired")
    case True
    then have "{o' \<in> set (old # rest). rf_key o' \<notin> desired} = {o' \<in> set rest. rf_key o' \<notin> desired}" by auto
    with "2.IH"(1) [OF True] "2.prems" True show ?thesis by simp
  next
    case False
    obtain s1 where s1: "exec_tx (delete_ref (rf_id old)) s = (Inr (), s1)" "drop_refs desired rest s1 = (None, s')"
      using "2.prems"(1) False by (auto split: prod.splits sum.splits)
    obtain ss where "delete_ref (rf_id old) ss (db_tables s) = Inr (db_tables s1, ())"
      by (rule exec_tx_stmt [OF s1(1)])
    note del = delete_ref_deletes [OF this]
    note ih = "2.IH"(2) [OF False s1(1) [symmetric] refl s1(2) del(3)]
    have ids: "rf_id ` {o' \<in> set (old # rest). rf_key o' \<notin> desired} =
        insert (rf_id old) (rf_id ` {o' \<in> set rest. rf_key o' \<notin> desired})" using False by auto
    have "r \<in> set (pt_refs (db_tables s)) \<and> rf_id r \<notin> insert (rf_id old) (rf_id ` {o' \<in> set rest. rf_key o' \<notin> desired})"
      if "r \<in> set (pt_refs (db_tables s'))" "live r" for r
    proof -
      from ih that have "r \<in> set (pt_refs (db_tables s1))" "rf_id r \<notin> rf_id ` {o' \<in> set rest. rf_key o' \<notin> desired}" by auto
      with del(4) [OF this(1) that(2)] show ?thesis by simp
    qed
    moreover have "r \<in> set (pt_refs (db_tables s'))" if "r \<in> set (pt_refs (db_tables s))"
      "rf_id r \<notin> insert (rf_id old) (rf_id ` {o' \<in> set rest. rf_key o' \<notin> desired})" for r
    proof -
      from that del(5) have "r \<in> set (pt_refs (db_tables s1))" by simp
      with ih that(2) show ?thesis by simp
    qed
    moreover have "pt_routes (db_tables s') = pt_routes (db_tables s)" "pt_policies (db_tables s') = pt_policies (db_tables s)"
      "policy_inv (db_tables s')"
      using ih [THEN conjunct1] ih [THEN conjunct2, THEN conjunct1] ih [THEN conjunct2, THEN conjunct2, THEN conjunct1]
        del(1,2) by simp_all
    ultimately show ?thesis unfolding ids by blast
  qed
qed

section \<open>Saving the policy row\<close>

lemma insert_policy_saves:
  assumes "insert_policy i v ss t = Inr (t', u)"
  shows "pt_routes t' = pt_routes t \<and> pt_refs t' = pt_refs t \<and> policy_inv t' \<and>
    (\<exists>p. pt_policies t' = pt_policies t @ [p] \<and> live p \<and> pl_id p = i \<and> pl_route_id p = si_RouteID v \<and>
      pl_expression p = si_Expression v \<and> pl_description p = si_Description v \<and> pl_status p = si_Status v \<and>
      au_version p = 1)"
proof -
  from assms obtain rows where rows:
    "insert_row ss (policy_columns v (blank_policy i (si_RouteID v))) (pt_policies t) = Inr rows"
    "t' = t\<lparr>pt_policies := rows\<rparr>" "policy_inv t'"
    by (auto simp: insert_policy_def constrained_ok split: sum.splits)
  obtain a where "rows = pt_policies t @ [stamp_insert ss a (policy_columns v (blank_policy i (si_RouteID v)))]"
    by (rule insert_row_ok [OF rows(1)])
  with rows show ?thesis by (auto simp: policy_columns_def blank_policy_def)
qed

lemma update_policy_saves:
  assumes "update_policy i v ss t = Inr (t', n)" "p \<in> set (pt_policies t)" "pl_id p = i"
    "au_version p = si_ExpectedVersion v" "live p" "policy_inv t"
  shows "pt_routes t' = pt_routes t \<and> pt_refs t' = pt_refs t \<and> policy_inv t' \<and>
    (\<exists>q. set (pt_policies t') = {r \<in> set (pt_policies t). pl_id r \<noteq> i} \<union> {q} \<and> live q \<and> pl_id q = i \<and>
      pl_route_id q = pl_route_id p \<and>
      pl_expression q = si_Expression v \<and> pl_description q = si_Description v \<and> pl_status q = si_Status v \<and>
      au_version q = si_ExpectedVersion v + 1)"
proof -
  let ?P = "\<lambda>p. pl_id p = i \<and> au_version p = si_ExpectedVersion v \<and> live p"
  from assms(1) obtain rows where rows: "update_rows ss ?P (policy_columns v) (pt_policies t) = Inr rows"
    "t' = t\<lparr>pt_policies := rows\<rparr>" "policy_inv t'"
    by (auto simp: update_policy_def constrained_ok Let_def split: sum.splits)
  obtain a where a: "rows = map (\<lambda>r. if ?P r then stamp_update ss a r (policy_columns v r) else r) (pt_policies t)"
    by (rule update_rows_ok [OF rows(1)])
  have d: "distinct (map pl_id (pt_policies t))" using assms(6) by (simp add: policy_inv_def unique_ok_def)
  have only: "r = p" if "r \<in> set (pt_policies t)" "pl_id r = i" for r
    using distinct_map_eq [OF d that(1) assms(2)] that(2) assms(3) by simp
  then have only': "r = p" if "r \<in> set (pt_policies t)" "?P r" for r using that by blast
  have "?P p" using assms(3-5) by blast
  define q where "q = stamp_update ss a p (policy_columns v p)"
  have "set (pt_policies t') = (\<lambda>r. if ?P r then stamp_update ss a r (policy_columns v r) else r) ` set (pt_policies t)"
    using rows(2) a by simp
  also have "\<dots> = {r \<in> set (pt_policies t). \<not> ?P r} \<union> {q}"
    unfolding q_def by (rule image_if_single [where P = ?P, OF assms(2) \<open>?P p\<close> only'])
  also have "{r \<in> set (pt_policies t). \<not> ?P r} = {r \<in> set (pt_policies t). pl_id r \<noteq> i}"
    using only \<open>?P p\<close> by blast
  finally have "set (pt_policies t') = {r \<in> set (pt_policies t). pl_id r \<noteq> i} \<union> {q}" .
  moreover have "live q" using assms(5) by (simp add: q_def policy_columns_def)
  ultimately show ?thesis using rows assms(3,4)
    by (auto simp: q_def policy_columns_def)
qed

text \<open>What the policy row was before and is after.\<close>

definition policy_saved :: "set_input \<Rightarrow> string \<Rightarrow> policy_tables \<Rightarrow> policy_tables \<Rightarrow> bool" where
  "policy_saved v pid t t' \<longleftrightarrow> policy_inv t' \<and> pt_routes t' = pt_routes t \<and>
     (if \<exists>q \<in> set (pt_policies t). live q \<and> pl_route_id q = si_RouteID v
      then \<exists>q \<in> set (pt_policies t). live q \<and> pl_route_id q = si_RouteID v \<and> pl_id q = pid \<and>
        au_version q = si_ExpectedVersion v
      else si_ExpectedVersion v = 0) \<and>
     (\<exists>p \<in> set (pt_policies t'). live p \<and> pl_id p = pid \<and> pl_route_id p = si_RouteID v \<and>
        pl_expression p = si_Expression v \<and> pl_description p = si_Description v \<and> pl_status p = si_Status v \<and>
        au_version p = si_ExpectedVersion v + 1) \<and>
     (\<forall>q. pl_id q \<noteq> pid \<longrightarrow> (q \<in> set (pt_policies t') \<longleftrightarrow> q \<in> set (pt_policies t)))"

lemma save_policy_ok:
  assumes "save_policy fresh v s = (Inr pid, s')" "policy_inv (db_tables s)"
  shows "policy_saved v pid (db_tables s) (db_tables s') \<and> pt_refs (db_tables s') = pt_refs (db_tables s)"
proof -
  let ?t = "db_tables s"
  obtain r s1 where r: "exec_tx (reads (select_policy (si_RouteID v))) s = (r, s1)" by fastforce
  show ?thesis
  proof (cases r)
    case (Inl err)
    with assms(1) r have e: "si_ExpectedVersion v = 0" "pid = fresh"
      "exec_tx (insert_policy fresh v) s1 = (Inr (), s')"
      by (auto simp: save_policy_def split: if_splits prod.splits sum.splits)
    have s1: "db_tables s1 = ?t" by (rule exec_tx_reads_tables [OF r])
    obtain ss where "insert_policy fresh v ss ?t = Inr (db_tables s', ())"
      using exec_tx_stmt [OF e(3)] s1 by metis
    from insert_policy_saves [OF this] obtain p where p: "pt_routes (db_tables s') = pt_routes ?t"
      "pt_refs (db_tables s') = pt_refs ?t" "policy_inv (db_tables s')"
      "pt_policies (db_tables s') = pt_policies ?t @ [p]" "live p" "pl_id p = fresh" "pl_route_id p = si_RouteID v"
      "pl_expression p = si_Expression v" "pl_description p = si_Description v" "pl_status p = si_Status v"
      "au_version p = 1" by blast
    have "distinct (map pl_route_id (filter live (pt_policies ?t @ [p])))"
      using p(3) unfolding policy_inv_def unique_ok_def p(4) by blast
    then have "si_RouteID v \<notin> pl_route_id ` {q \<in> set (pt_policies ?t). live q}" using p(5,7) by simp
    then have "\<not> (\<exists>q \<in> set (pt_policies ?t). live q \<and> pl_route_id q = si_RouteID v)" by (force simp: image_iff)
    with p e show ?thesis unfolding policy_saved_def by auto
  next
    case (Inr row)
    with assms(1) r obtain n where e: "au_version row = si_ExpectedVersion v" "pid = pl_id row"
      "exec_tx (update_policy (pl_id row) v) s1 = (Inr n, s')"
      by (auto simp: save_policy_def split: if_splits prod.splits sum.splits)
    obtain ss where "select_policy (si_RouteID v) ss ?t = Inr row" and s1: "db_tables s1 = ?t"
      using exec_tx_reads [OF r [unfolded Inr]] by metis
    then obtain rest where "filter (\<lambda>p. pl_route_id p = si_RouteID v \<and> live p) (pt_policies ?t) = row # rest"
      by (auto simp: select_policy_def split: list.splits)
    from filter_hd [OF this] have row: "row \<in> set (pt_policies ?t)" "pl_route_id row = si_RouteID v" "live row" by auto
    obtain ss where "update_policy (pl_id row) v ss ?t = Inr (db_tables s', n)"
      using exec_tx_stmt [OF e(3)] s1 by metis
    from update_policy_saves [OF this row(1) refl e(1) row(3) assms(2)] obtain q where q:
      "pt_routes (db_tables s') = pt_routes ?t" "pt_refs (db_tables s') = pt_refs ?t" "policy_inv (db_tables s')"
      "set (pt_policies (db_tables s')) = {r \<in> set (pt_policies ?t). pl_id r \<noteq> pl_id row} \<union> {q}"
      "live q" "pl_id q = pl_id row" "pl_route_id q = pl_route_id row"
      "pl_expression q = si_Expression v" "pl_description q = si_Description v" "pl_status q = si_Status v"
      "au_version q = si_ExpectedVersion v + 1" by blast
    have "\<exists>p \<in> set (pt_policies (db_tables s')). live p \<and> pl_id p = pid \<and> pl_route_id p = si_RouteID v \<and>
        pl_expression p = si_Expression v \<and> pl_description p = si_Description v \<and> pl_status p = si_Status v \<and>
        au_version p = si_ExpectedVersion v + 1"
      using q row(2) e(2) by (intro bexI [of _ q]) simp_all
    moreover have "q' \<in> set (pt_policies (db_tables s')) \<longleftrightarrow> q' \<in> set (pt_policies ?t)" if "pl_id q' \<noteq> pid" for q'
      using q(4,6) e(2) that by auto
    ultimately show ?thesis using q(1-3) row e unfolding policy_saved_def by auto
  qed
qed

section \<open>Set\<close>

text \<open>
  The contract of \<open>Set\<close>: the one live policy of the route carries the input and the next
  version, it was at the expected version before (0 for none), its live references are exactly
  the input's permissions, and everything else is as before.
\<close>

definition policy_set_spec :: "set_input \<Rightarrow> policy_tables \<Rightarrow> policy_tables \<Rightarrow> bool" where
  "policy_set_spec v t t' \<longleftrightarrow> (\<exists>pid. policy_saved v pid t t' \<and>
     perm_of ` {r \<in> set (pt_refs t'). live r \<and> rf_policy_id r = pid} = set (si_Permissions v) \<and>
     (\<forall>r. rf_policy_id r \<noteq> pid \<and> live r \<longrightarrow> (r \<in> set (pt_refs t') \<longleftrightarrow> r \<in> set (pt_refs t))))"

lemma set_body_ok:
  assumes "set_body fresh v s = (None, s')" "policy_inv (db_tables s)" "distinct (map pi_Key (si_Permissions v))"
  shows "policy_set_spec v (db_tables s) (db_tables s')"
proof -
  obtain s1 s2 s3 s4 pid existing where run: "exec_tx (reads (route_exists (si_RouteID v))) s = (Inr (), s1)"
    "save_policy (fresh 0) v s1 = (Inr pid, s2)" "exec_tx (reads (select_refs pid)) s2 = (Inr existing, s3)"
    "write_refs fresh pid existing 1 (si_Permissions v) s3 = (None, s4)"
    "drop_refs (pi_Key ` set (si_Permissions v)) existing s4 = (None, s')"
    using assms(1) by (auto simp: set_body_def split: prod.splits sum.splits option.splits)
  let ?keys = "pi_Key ` set (si_Permissions v)"
  let ?t = "db_tables s" and ?t2 = "db_tables s2" and ?t4 = "db_tables s4" and ?t' = "db_tables s'"
  have s1: "db_tables s1 = ?t" by (rule exec_tx_reads_tables [OF run(1)])
  have s3: "db_tables s3 = ?t2" by (rule exec_tx_reads_tables [OF run(3)])
  have saved: "policy_saved v pid ?t ?t2" "pt_refs ?t2 = pt_refs ?t"
    using save_policy_ok [OF run(2)] assms(2) s1 by simp_all
  then have inv2: "policy_inv ?t2" by (simp add: policy_saved_def)
  obtain ss where "select_refs pid ss ?t2 = Inr existing" using exec_tx_reads [OF run(3)] by metis
  then have ex: "existing = filter (\<lambda>r. rf_policy_id r = pid) (pt_refs ?t2)" by (simp add: select_refs_def)
  then have "\<forall>old \<in> set existing. \<exists>row \<in> set (pt_refs (db_tables s3)). rf_id row = rf_id old \<and>
      rf_policy_id row = pid \<and> rf_key row = rf_key old" unfolding s3 by auto
  from write_refs_ok [OF run(4) _ assms(3) this] inv2 s3 have w: "refs_touched pid ?keys ?t2 ?t4" "policy_inv ?t4"
    "\<And>u. u \<in> set (si_Permissions v) \<Longrightarrow> \<exists>r \<in> set (pt_refs ?t4). live r \<and> rf_policy_id r = pid \<and> perm_of r = u"
    by auto
  let ?gone = "rf_id ` {old \<in> set existing. rf_key old \<notin> ?keys}"
  have d: "pt_routes ?t' = pt_routes ?t4" "pt_policies ?t' = pt_policies ?t4" "policy_inv ?t'"
    "\<And>r. r \<in> set (pt_refs ?t') \<Longrightarrow> live r \<Longrightarrow> r \<in> set (pt_refs ?t4) \<and> rf_id r \<notin> ?gone"
    "\<And>r. r \<in> set (pt_refs ?t4) \<Longrightarrow> rf_id r \<notin> ?gone \<Longrightarrow> r \<in> set (pt_refs ?t')"
    using drop_refs_ok [OF run(5) w(2)] by blast+
  have ids4: "distinct (map rf_id (pt_refs ?t4))"
    and keys4: "distinct (map (\<lambda>r. (rf_policy_id r, rf_key r)) (filter live (pt_refs ?t4)))"
    using w(2) by (simp_all add: policy_inv_def unique_ok_def)
  text \<open>A row that is to go has one row of its identifier, of the same key and policy.\<close>
  have gone: "rf_key r \<notin> ?keys \<and> rf_policy_id r = pid" if r: "r \<in> set (pt_refs ?t4)" "rf_id r \<in> ?gone" for r
  proof -
    from r(2) obtain old where old: "old \<in> set (pt_refs ?t2)" "rf_policy_id old = pid" "rf_key old \<notin> ?keys" "rf_id r = rf_id old"
      using ex by auto
    from w(1) old(1) obtain r4 where r4: "r4 \<in> set (pt_refs ?t4)" "rf_id r4 = rf_id old" "rf_key r4 = rf_key old"
      "rf_policy_id r4 = rf_policy_id old" unfolding refs_touched_def by blast
    have "r = r4" using distinct_map_eq [OF ids4 r(1) r4(1)] old(4) r4(2) by simp
    with old r4 show ?thesis by simp
  qed
  have perms: "perm_of ` {r \<in> set (pt_refs ?t'). live r \<and> rf_policy_id r = pid} = set (si_Permissions v)"
  proof
    show "set (si_Permissions v) \<subseteq> perm_of ` {r \<in> set (pt_refs ?t'). live r \<and> rf_policy_id r = pid}"
    proof
      fix u assume u: "u \<in> set (si_Permissions v)"
      from w(3) [OF u] obtain r where r: "r \<in> set (pt_refs ?t4)" "live r" "rf_policy_id r = pid" "perm_of r = u" by blast
      then have "pi_Key u = rf_key r" by (auto simp: perm_of_def)
      with u have "rf_key r \<in> ?keys" by (metis imageI)
      with gone r have "rf_id r \<notin> ?gone" by blast
      with d(5) r show "u \<in> perm_of ` {r \<in> set (pt_refs ?t'). live r \<and> rf_policy_id r = pid}" by blast
    qed
    show "perm_of ` {r \<in> set (pt_refs ?t'). live r \<and> rf_policy_id r = pid} \<subseteq> set (si_Permissions v)"
    proof
      fix u assume "u \<in> perm_of ` {r \<in> set (pt_refs ?t'). live r \<and> rf_policy_id r = pid}"
      then obtain r where r: "r \<in> set (pt_refs ?t')" "live r" "rf_policy_id r = pid" "u = perm_of r" by blast
      from d(4) [OF r(1,2)] have r4: "r \<in> set (pt_refs ?t4)" "rf_id r \<notin> ?gone" by blast+
      have "rf_key r \<in> ?keys"
      proof (rule ccontr)
        assume k: "rf_key r \<notin> ?keys"
        with w(1) r4(1) have "r \<in> set (pt_refs ?t2)" unfolding refs_touched_def by blast
        with r(3) ex k have "rf_id r \<in> ?gone" by auto
        with r4(2) show False ..
      qed
      then obtain v' where v': "v' \<in> set (si_Permissions v)" "pi_Key v' = rf_key r" by auto
      from w(3) [OF v'(1)] obtain r' where r': "r' \<in> set (pt_refs ?t4)" "live r'" "rf_policy_id r' = pid" "perm_of r' = v'"
        by blast
      have "rf_key r' = rf_key r" using r'(4) v'(2) by (auto simp: perm_of_def)
      then have "r' = r" using distinct_map_eq [OF keys4, of r' r] r' r r4(1) by simp
      with r'(4) r(4) v'(1) show "u \<in> set (si_Permissions v)" by simp
    qed
  qed
  have others: "r \<in> set (pt_refs ?t') \<longleftrightarrow> r \<in> set (pt_refs ?t)" if "rf_policy_id r \<noteq> pid" "live r" for r
  proof
    assume "r \<in> set (pt_refs ?t')"
    from d(4) [OF this that(2)] w(1) that(1) saved(2) show "r \<in> set (pt_refs ?t)"
      unfolding refs_touched_def by auto
  next
    assume "r \<in> set (pt_refs ?t)"
    with w(1) that(1) saved(2) have r4: "r \<in> set (pt_refs ?t4)" unfolding refs_touched_def by auto
    have "rf_id r \<notin> ?gone" using gone [OF r4] that(1) by blast
    with d(5) r4 show "r \<in> set (pt_refs ?t')" by blast
  qed
  have "policy_saved v pid ?t ?t'"
    using saved(1) w(1) d(1-3) unfolding policy_saved_def refs_touched_def by simp
  with perms others show ?thesis unfolding policy_set_spec_def by blast
qed

text \<open>The tables a transaction finds when it begins.\<close>

abbreviation begun :: "'t db \<Rightarrow> 't" where
  "begun s \<equiv> st_others (fst (next_step s)) (db_tables s)"

lemma policy_set_ok:
  assumes "policy_set tdb fresh v actor s = (None, s')" "policy_inv (begun s)"
    and "distinct (map pi_Key (si_Permissions v))"
  shows "policy_set_spec v (begun s) (db_tables s')"
proof -
  obtain s2 s3 where "db_tables s2 = begun s" "set_body fresh v s2 = (None, s3)" "db_tables s' = db_tables s3"
    using within_ok [OF assms(1) [unfolded policy_set_def]] by metis
  with set_body_ok [OF _ _ assms(3)] assms(2) show ?thesis by metis
qed


section \<open>SyncRoutes\<close>

definition active_ids :: "string \<Rightarrow> string \<Rightarrow> policy_tables \<Rightarrow> string set" where
  "active_ids service protocol t = rt_id ` {r \<in> set (pt_routes t). rt_service r = service \<and>
     rt_protocol r = protocol \<and> rt_status r = ''active'' \<and> live r}"

lemma route_columns_simps [simp]:
  "rt_id (route_columns v r) = rt_id r" "rt_service (route_columns v r) = ro_ServiceName v"
  "rt_protocol (route_columns v r) = ro_Protocol v" "rt_status (route_columns v r) = ''active''"
  "au_deleted_at (route_columns v r) = au_deleted_at r"
  for r :: route_row
  by (simp_all add: route_columns_def)

lemma blank_route_simps [simp]: "rt_id (blank_route i) = i"
  by (simp add: blank_route_def)

lemma deactivate_routes_ok:
  assumes "deactivate_routes service protocol ss t = Inr (t', n)"
  shows "active_ids service protocol t' = {}" "pt_policies t' = pt_policies t" "pt_refs t' = pt_refs t"
    "policy_inv t'" "rt_id ` set (pt_routes t') = rt_id ` set (pt_routes t)"
proof -
  let ?P = "\<lambda>r. rt_service r = service \<and> rt_protocol r = protocol \<and> rt_status r = ''active'' \<and> live r"
  from assms obtain rows where rows: "update_rows ss ?P (\<lambda>r. r\<lparr>rt_status := ''inactive''\<rparr>) (pt_routes t) = Inr rows"
    "t' = t\<lparr>pt_routes := rows\<rparr>" "policy_inv t'"
    by (auto simp: deactivate_routes_def constrained_ok Let_def split: sum.splits)
  obtain a where a: "rows = map (\<lambda>r. if ?P r then stamp_update ss a r (r\<lparr>rt_status := ''inactive''\<rparr>) else r) (pt_routes t)"
    by (rule update_rows_ok [OF rows(1)])
  define g where "g r = (if ?P r then stamp_update ss a r (r\<lparr>rt_status := ''inactive''\<rparr>) else r)" for r :: route_row
  have "\<not> ?P (g r)" for r by (cases "?P r") (auto simp: g_def)
  moreover have "set (pt_routes t') = g ` set (pt_routes t)" using rows(2) a by (simp add: g_def)
  ultimately show "active_ids service protocol t' = {}" unfolding active_ids_def by auto
  have "rt_id (if ?P r then stamp_update ss a r (r\<lparr>rt_status := ''inactive''\<rparr>) else r) = rt_id r" for r :: route_row
    by simp
  then have "set (map rt_id rows) = set (map rt_id (pt_routes t))" unfolding a by simp
  then show "rt_id ` set (pt_routes t') = rt_id ` set (pt_routes t)"
    using rows(2) by simp
  show "pt_policies t' = pt_policies t" "pt_refs t' = pt_refs t" "policy_inv t'" using rows by simp_all
qed

lemma active_ids_add:
  assumes "set (pt_routes t') = {r \<in> set (pt_routes t). Q r} \<union> {new}"
    "\<And>r. r \<in> set (pt_routes t) \<Longrightarrow> \<not> Q r \<Longrightarrow> rt_id r = rt_id new"
    "rt_service new = service" "rt_protocol new = protocol" "rt_status new = ''active''" "live new"
  shows "active_ids service protocol t' = insert (rt_id new) (active_ids service protocol t)"
proof -
  let ?A = "\<lambda>r. rt_service r = service \<and> rt_protocol r = protocol \<and> rt_status r = ''active'' \<and> live r"
  define X where "X = rt_id ` {r \<in> set (pt_routes t). Q r \<and> ?A r}"
  define Y where "Y = rt_id ` {r \<in> set (pt_routes t). \<not> Q r \<and> ?A r}"
  have "active_ids service protocol t' = X \<union> {rt_id new}"
    unfolding active_ids_def assms(1) X_def using assms(3-6) by auto
  moreover have "Y \<subseteq> {rt_id new}" using assms(2) unfolding Y_def by blast
  moreover have "{r \<in> set (pt_routes t). ?A r} = {r \<in> set (pt_routes t). Q r \<and> ?A r} \<union> {r \<in> set (pt_routes t). \<not> Q r \<and> ?A r}"
    by blast
  then have "active_ids service protocol t = X \<union> Y"
    unfolding active_ids_def X_def Y_def image_Un [symmetric] by (rule arg_cong)
  ultimately show ?thesis by auto
qed

lemma insert_route_ok:
  assumes "insert_route v ss t = Inr (t', u)"
  shows "active_ids (ro_ServiceName v) (ro_Protocol v) t' = insert (ro_ID v) (active_ids (ro_ServiceName v) (ro_Protocol v) t)"
    "pt_policies t' = pt_policies t" "pt_refs t' = pt_refs t" "policy_inv t'"
    "rt_id ` set (pt_routes t) \<subseteq> rt_id ` set (pt_routes t')"
proof -
  from assms obtain rows where rows: "insert_row ss (route_columns v (blank_route (ro_ID v))) (pt_routes t) = Inr rows"
    "t' = t\<lparr>pt_routes := rows\<rparr>" "policy_inv t'"
    by (auto simp: insert_route_def constrained_ok split: sum.splits)
  obtain a where "rows = pt_routes t @ [stamp_insert ss a (route_columns v (blank_route (ro_ID v)))]"
    by (rule insert_row_ok [OF rows(1)])
  define new where "new = stamp_insert ss a (route_columns v (blank_route (ro_ID v)))"
  with \<open>rows = _\<close> have set': "set (pt_routes t') = {r \<in> set (pt_routes t). True} \<union> {new}"
    using rows(2) by simp
  have "active_ids (ro_ServiceName v) (ro_Protocol v) t' = insert (rt_id new) (active_ids (ro_ServiceName v) (ro_Protocol v) t)"
    by (rule active_ids_add [OF set']) (simp_all add: new_def)
  then show "active_ids (ro_ServiceName v) (ro_Protocol v) t' = insert (ro_ID v) (active_ids (ro_ServiceName v) (ro_Protocol v) t)"
    by (simp add: new_def)
  show "rt_id ` set (pt_routes t) \<subseteq> rt_id ` set (pt_routes t')" unfolding set' by auto
  show "pt_policies t' = pt_policies t" "pt_refs t' = pt_refs t" "policy_inv t'" using rows by simp_all
qed

lemma update_route_ok:
  assumes "update_route v ss t = Inr (t', u)" "row \<in> set (pt_routes t)" "rt_id row = ro_ID v" "live row"
    "policy_inv t"
  shows "active_ids (ro_ServiceName v) (ro_Protocol v) t' = insert (ro_ID v) (active_ids (ro_ServiceName v) (ro_Protocol v) t)"
    "pt_policies t' = pt_policies t" "pt_refs t' = pt_refs t" "policy_inv t'"
    "rt_id ` set (pt_routes t) \<subseteq> rt_id ` set (pt_routes t')"
proof -
  let ?P = "\<lambda>r. rt_id r = ro_ID v \<and> live r"
  from assms(1) obtain rows where rows: "update_rows ss ?P (route_columns v) (pt_routes t) = Inr rows"
    "t' = t\<lparr>pt_routes := rows\<rparr>" "policy_inv t'"
    by (auto simp: update_route_def constrained_ok split: sum.splits)
  obtain a where a: "rows = map (\<lambda>r. if ?P r then stamp_update ss a r (route_columns v r) else r) (pt_routes t)"
    by (rule update_rows_ok [OF rows(1)])
  have d: "distinct (map rt_id (pt_routes t))" using assms(5) by (simp add: policy_inv_def unique_ok_def)
  have only: "r = row" if "r \<in> set (pt_routes t)" "rt_id r = ro_ID v" for r
    using distinct_map_eq [OF d that(1) assms(2)] that(2) assms(3) by simp
  then have only': "r = row" if "r \<in> set (pt_routes t)" "?P r" for r using that by blast
  have "?P row" using assms(3,4) by blast
  define new where "new = stamp_update ss a row (route_columns v row)"
  have new: "rt_id new = ro_ID v" "rt_service new = ro_ServiceName v" "rt_protocol new = ro_Protocol v"
    "rt_status new = ''active''" "live new" using assms(3,4) by (simp_all add: new_def)
  have "set (pt_routes t') = (\<lambda>r. if ?P r then stamp_update ss a r (route_columns v r) else r) ` set (pt_routes t)"
    using rows(2) a by simp
  also have "\<dots> = {r \<in> set (pt_routes t). \<not> ?P r} \<union> {new}"
    unfolding new_def by (rule image_if_single [where P = ?P, OF assms(2) \<open>?P row\<close> only'])
  also have "{r \<in> set (pt_routes t). \<not> ?P r} = {r \<in> set (pt_routes t). rt_id r \<noteq> ro_ID v}"
    using only \<open>?P row\<close> by blast
  finally have set': "set (pt_routes t') = {r \<in> set (pt_routes t). rt_id r \<noteq> ro_ID v} \<union> {new}" .
  show "active_ids (ro_ServiceName v) (ro_Protocol v) t' = insert (ro_ID v) (active_ids (ro_ServiceName v) (ro_Protocol v) t)"
    using active_ids_add [OF set' _ new(2-5)] new(1) by simp
  show "rt_id ` set (pt_routes t) \<subseteq> rt_id ` set (pt_routes t')" unfolding set' using new(1) by auto
  show "pt_policies t' = pt_policies t" "pt_refs t' = pt_refs t" "policy_inv t'" using rows by simp_all
qed

lemma sync_each_ok:
  assumes "sync_each routes s = (None, s')" "policy_inv (db_tables s)"
    "\<forall>v \<in> set routes. ro_ServiceName v = service \<and> ro_Protocol v = protocol"
  shows "active_ids service protocol (db_tables s') = ro_ID ` set routes \<union> active_ids service protocol (db_tables s) \<and>
    pt_policies (db_tables s') = pt_policies (db_tables s) \<and> pt_refs (db_tables s') = pt_refs (db_tables s) \<and>
    policy_inv (db_tables s') \<and> rt_id ` set (pt_routes (db_tables s)) \<subseteq> rt_id ` set (pt_routes (db_tables s'))"
  using assms
proof (induction routes s rule: sync_each.induct)
  case (1 s)
  then show ?case by simp
next
  case (2 v rest s)
  obtain found s1 where f: "exec_tx (reads (route_exists (ro_ID v))) s = (found, s1)" by fastforce
  have s1: "db_tables s1 = db_tables s" by (rule exec_tx_reads_tables [OF f])
  have svc: "ro_ServiceName v = service" "ro_Protocol v = protocol" using "2.prems"(3) by simp_all
  obtain s2 where s2: "(case found of Inr _ \<Rightarrow> exec_tx (update_route v) s1
      | Inl err \<Rightarrow> if errors_is err ErrNoRows then exec_tx (insert_route v) s1 else (Inl err, s1)) = (Inr (), s2)"
    "sync_each rest s2 = (None, s')"
    using "2.prems"(1) f by (auto simp: Let_def split: prod.splits sum.splits if_splits)
  have step: "active_ids service protocol (db_tables s2) = insert (ro_ID v) (active_ids service protocol (db_tables s)) \<and>
    pt_policies (db_tables s2) = pt_policies (db_tables s) \<and> pt_refs (db_tables s2) = pt_refs (db_tables s) \<and>
    policy_inv (db_tables s2) \<and> rt_id ` set (pt_routes (db_tables s)) \<subseteq> rt_id ` set (pt_routes (db_tables s2))"
  proof (cases found)
    case (Inl err)
    with s2(1) have "exec_tx (insert_route v) s1 = (Inr (), s2)" by (simp split: if_splits)
    from exec_tx_stmt [OF this] obtain ss where "insert_route v ss (db_tables s) = Inr (db_tables s2, ())"
      unfolding s1 .
    from insert_route_ok [OF this] show ?thesis using svc by simp
  next
    case (Inr x)
    with f have "exec_tx (reads (route_exists (ro_ID v))) s = (Inr (), s1)" by simp
    then obtain ss where "route_exists (ro_ID v) ss (db_tables s) = Inr ()" using exec_tx_reads by metis
    then obtain row where row: "row \<in> set (pt_routes (db_tables s))" "rt_id row = ro_ID v" "live row"
      by (auto simp: route_exists_def list_ex_iff split: if_splits)
    from s2(1) Inr have "exec_tx (update_route v) s1 = (Inr (), s2)" by simp
    from exec_tx_stmt [OF this] obtain ss where "update_route v ss (db_tables s) = Inr (db_tables s2, ())"
      unfolding s1 .
    from update_route_ok [OF this row "2.prems"(2)] show ?thesis using svc by simp
  qed
  have ih: "active_ids service protocol (db_tables s') = ro_ID ` set rest \<union> active_ids service protocol (db_tables s2) \<and>
    pt_policies (db_tables s') = pt_policies (db_tables s2) \<and> pt_refs (db_tables s') = pt_refs (db_tables s2) \<and>
    policy_inv (db_tables s') \<and> rt_id ` set (pt_routes (db_tables s2)) \<subseteq> rt_id ` set (pt_routes (db_tables s'))"
    using "2.IH" f s2 step "2.prems"(3) by (auto split: sum.splits if_splits)
  have "rt_id ` set (pt_routes (db_tables s)) \<subseteq> rt_id ` set (pt_routes (db_tables s'))"
    using step ih by (meson subset_trans)
  with step ih show ?case by simp
qed

end
