(* ===== verification/Policy_Service.thy ===== *)
theory Policy_Service
  imports Policy_Store
begin

text \<open>
  \<open>internal/routepolicy/manager.go\<close> and \<open>internal/routepolicy/service.go\<close>.  The manager keeps
  the compiled policies (a platform \<open>Snapshot\<close>, of type \<open>'p\<close>), the revision it loaded and a
  cache of route identifiers; the service validates a change, writes it, refreshes the manager,
  tells its peers, and records the operation.  The compiler, the snapshot, the route identifiers
  of the platform library, Redis and the operation log are parameters.  The metrics of a refresh
  are not modelled.
\<close>

section \<open>The surroundings\<close>

record op_entry =
  oe_ResourceID :: string
  oe_Status :: string
  oe_ExpectedVersion :: int
  oe_RequestID :: string
  oe_Succeeded :: bool
  oe_ErrorMessage :: string

record ('p, 'u) policy_externals =
  px_driver :: "string option"
  px_sql :: sql_env
  px_compile :: "policy_def \<Rightarrow> goerr option"
  px_reload :: "goerr + policy_def list \<Rightarrow> 'p \<Rightarrow> goerr option \<times> 'p"
  px_evaluate :: "'p \<Rightarrow> string \<Rightarrow> 'u option \<Rightarrow> goerr option"
  px_new_route :: "string \<Rightarrow> string \<Rightarrow> string \<Rightarrow> string \<Rightarrow> goerr + string"
  px_publish :: "(nat \<Rightarrow> goerr option) option"
  px_operations :: "(nat \<Rightarrow> op_entry \<Rightarrow> goerr option) option"
  px_uuid :: "nat \<Rightarrow> nat \<Rightarrow> string"

record 'p manager =
  mg_snapshot :: 'p
  mg_revision :: int
  mg_routeIDs :: "string \<rightharpoonup> string"

record 'p policy_world =
  pw_db :: "policy_tables db"
  pw_manager :: "'p manager"
  pw_calls :: nat
  pw_operations :: "op_entry list"

definition ErrPolicyDenied :: goerr where
  "ErrPolicyDenied = ErrVar ''platformpolicy.ErrDenied''"

text \<open>\<open>Time.UnixNano\<close>; of the zero time it is the wrapped number, as in Go.\<close>

definition unix_nano :: "time \<Rightarrow> int" where
  "unix_nano t = wrap64 (t - 62135596800 * second)"

section \<open>The manager\<close>

definition refresh_source :: "('p, 'u) policy_externals \<Rightarrow> 'p policy_world \<Rightarrow> goerr option \<times> 'p policy_world" where
  "refresh_source x w =
     (let (defs, s1) = policy_load (px_driver x) (pw_db w);
          (err, snap) = px_reload x defs (mg_snapshot (pw_manager w));
          w1 = w\<lparr>pw_db := s1, pw_manager := (pw_manager w)\<lparr>mg_snapshot := snap\<rparr>\<rparr>
      in (case err of
            Some e \<Rightarrow> (Some e, w1)
          | None \<Rightarrow> (case policy_revision s1 of
                (Inl e, s2) \<Rightarrow> (Some e, w1\<lparr>pw_db := s2\<rparr>)
              | (Inr revision, s2) \<Rightarrow>
                  (None, w1\<lparr>pw_db := s2, pw_manager := (pw_manager w1)\<lparr>mg_revision := unix_nano revision\<rparr>\<rparr>))))"

fun validate_ids :: "('p, 'u) policy_externals \<Rightarrow> 'p \<Rightarrow> string list \<Rightarrow> goerr option" where
  "validate_ids x snap [] = None"
| "validate_ids x snap (ident # rest) = (case px_evaluate x snap ident None of
      None \<Rightarrow> validate_ids x snap rest
    | Some err \<Rightarrow> if errors_is err ErrPolicyDenied then validate_ids x snap rest else Some err)"

definition validate_routes :: "('p, 'u) policy_externals \<Rightarrow> string \<Rightarrow> 'p policy_world
    \<Rightarrow> goerr option \<times> 'p policy_world" where
  "validate_routes x service w = (case active_route_ids service (pw_db w) of
      (Inl err, s1) \<Rightarrow> (Some err, w\<lparr>pw_db := s1\<rparr>)
    | (Inr ids, s1) \<Rightarrow> (validate_ids x (mg_snapshot (pw_manager w)) ids, w\<lparr>pw_db := s1\<rparr>))"

definition route_key :: "string \<Rightarrow> string \<Rightarrow> string \<Rightarrow> string \<Rightarrow> string" where
  "route_key protocol method path service =
     protocol @ [CHR 0x00] @ method @ [CHR 0x00] @ path @ [CHR 0x00] @ service"

definition evaluate_route :: "('p, 'u) policy_externals \<Rightarrow> string \<Rightarrow> string \<Rightarrow> string \<Rightarrow> string \<Rightarrow> 'u option
    \<Rightarrow> 'p manager \<Rightarrow> goerr option \<times> 'p manager" where
  "evaluate_route x protocol method path service authorizer m =
     (let key = route_key protocol method path service in
      case mg_routeIDs m key of
        Some ident \<Rightarrow> (px_evaluate x (mg_snapshot m) ident authorizer, m)
      | None \<Rightarrow> (case px_new_route x protocol method path service of
            Inl err \<Rightarrow> (Some err, m)
          | Inr ident \<Rightarrow> (px_evaluate x (mg_snapshot m) ident authorizer,
              m\<lparr>mg_routeIDs := (mg_routeIDs m)(key \<mapsto> ident)\<rparr>)))"

definition policy_notify :: "('p, 'u) policy_externals \<Rightarrow> 'p policy_world \<Rightarrow> goerr option \<times> 'p policy_world" where
  "policy_notify x w = (case px_publish x of
      None \<Rightarrow> (None, w)
    | Some publish \<Rightarrow> (map_option (ErrWrap ''notify route policy'') (publish (pw_calls w)),
        w\<lparr>pw_calls := Suc (pw_calls w)\<rparr>))"

text \<open>
  One round of \<open>Run\<close>: a message of a peer reloads, a tick reloads when the stored revision
  differs from the database's.
\<close>

datatype run_event = PeerMessage | PollTick

fun run_step :: "('p, 'u) policy_externals \<Rightarrow> run_event \<Rightarrow> 'p policy_world \<Rightarrow> 'p policy_world" where
  "run_step x PeerMessage w = snd (refresh_source x w)"
| "run_step x PollTick w = (case policy_revision (pw_db w) of
      (Inl err, s1) \<Rightarrow> w\<lparr>pw_db := s1\<rparr>
    | (Inr revision, s1) \<Rightarrow>
        (let w1 = w\<lparr>pw_db := s1\<rparr> in
         if unix_nano revision \<noteq> mg_revision (pw_manager w) then snd (refresh_source x w1) else w1))"

section \<open>The service\<close>

definition policy_service_page :: "('p, 'u) policy_externals \<Rightarrow> policy_filter \<Rightarrow> int \<Rightarrow> int \<Rightarrow> 'p policy_world
    \<Rightarrow> (goerr + detail list \<times> int) \<times> 'p policy_world" where
  "policy_service_page x flt page psize w =
     (if page < 1 \<or> psize < 1 \<or> psize > 200
      then (Inl (app_invalid ''page must be positive and page_size must be between 1 and 200'' None), w)
      else (case policy_page (px_sql x) flt psize (wrap64 (wrap64 (page - 1) * psize)) (pw_db w) of
          (Inl err, s1) \<Rightarrow> (Inl (app_internal (Some err)), w\<lparr>pw_db := s1\<rparr>)
        | (Inr r, s1) \<Rightarrow> (Inr r, w\<lparr>pw_db := s1\<rparr>)))"

definition policy_service_get :: "string \<Rightarrow> 'p policy_world \<Rightarrow> (goerr + detail) \<times> 'p policy_world" where
  "policy_service_get route_id w = (case policy_get (trim_space route_id) (pw_db w) of
      (Inl err, s1) \<Rightarrow>
        (Inl (if errors_is err ErrPolicyNotFound then app_not_found ''route policy not found''
              else app_internal (Some err)), w\<lparr>pw_db := s1\<rparr>)
    | (Inr d, s1) \<Rightarrow> (Inr d, w\<lparr>pw_db := s1\<rparr>))"

text \<open>The loop over the permissions: trimmed copies are checked and enter the definition to compile.\<close>

definition trim_perm :: "perm_input \<Rightarrow> perm_input" where
  "trim_perm p = \<lparr>pi_Key = trim_space (pi_Key p), pi_Resource = trim_space (pi_Resource p),
     pi_Action = trim_space (pi_Action p), pi_Scope = trim_space (pi_Scope p)\<rparr>"

fun check_perms :: "(string \<rightharpoonup> permission) \<Rightarrow> perm_input list \<Rightarrow> goerr + (string \<rightharpoonup> permission)" where
  "check_perms perms [] = Inr perms"
| "check_perms perms (p # rest) = (let ref = trim_perm p in
     case parse_scope (pi_Scope ref) of
       Inl err \<Rightarrow> Inl (app_invalid ''invalid permission reference'' (Some err))
     | Inr sc \<Rightarrow>
         if pi_Key ref = [] \<or> pi_Resource ref = [] \<or> pi_Action ref = []
         then Inl (app_invalid ''invalid permission reference'' None)
         else if perms (pi_Key ref) \<noteq> None then Inl (app_invalid ''duplicate permission key'' None)
         else check_perms (perms(pi_Key ref \<mapsto> \<lparr>pm_ID = [], pm_Key = pi_Key ref,
            pm_Resource = pi_Resource ref, pm_Action = pi_Action ref, pm_Scope = sc\<rparr>)) rest)"

definition trim_input :: "set_input \<Rightarrow> set_input" where
  "trim_input v = v\<lparr>si_RouteID := trim_space (si_RouteID v), si_Expression := trim_space (si_Expression v),
     si_Description := trim_space (si_Description v), si_Status := trim_space (si_Status v)\<rparr>"

definition validation_def :: "set_input \<Rightarrow> (string \<rightharpoonup> permission) \<Rightarrow> policy_def" where
  "validation_def v perms = \<lparr>pd_ID = ''validation'', pd_RouteID = si_RouteID v,
     pd_Expression = si_Expression v, pd_Permissions = perms, pd_Version = 0\<rparr>"

text \<open>All that \<open>Set\<close> checks before it writes.\<close>

definition check_input :: "('p, 'u) policy_externals \<Rightarrow> set_input \<Rightarrow> goerr option" where
  "check_input x v =
     (if si_RouteID v = [] \<or> si_Expression v = [] \<or> (si_Status v \<noteq> ''active'' \<and> si_Status v \<noteq> ''disabled'') \<or>
         si_ExpectedVersion v < 0
      then Some (app_invalid ''route_id, expression, valid status and non-negative expected_version are required'' None)
      else (case check_perms Map.empty (si_Permissions v) of
          Inl err \<Rightarrow> Some err
        | Inr perms \<Rightarrow> map_option (\<lambda>e. app_invalid ''invalid route policy expression'' (Some e))
            (px_compile x (validation_def v perms))))"

definition write_error :: "goerr option \<Rightarrow> goerr option" where
  "write_error err = (case err of
      None \<Rightarrow> None
    | Some e \<Rightarrow>
        if errors_is e ErrPolicyNotFound then Some (app_not_found ''route not found'')
        else if errors_is e ErrStaleVersion then Some (app_conflict ''route policy version is stale'' (Some e))
        else Some (app_internal (Some e)))"

text \<open>The write, the refresh and the notification, whose failure is only logged.\<close>

definition set_and_refresh :: "('p, 'u) policy_externals \<Rightarrow> set_input \<Rightarrow> string \<Rightarrow> 'p policy_world
    \<Rightarrow> goerr option \<times> 'p policy_world" where
  "set_and_refresh x v actor w =
     (let (err, s1) = policy_set (px_driver x) (px_uuid x (pw_calls w)) v actor (pw_db w);
          w1 = w\<lparr>pw_db := s1, pw_calls := Suc (pw_calls w)\<rparr>
      in (case write_error err of
            Some e \<Rightarrow> (Some e, w1)
          | None \<Rightarrow> (case refresh_source x w1 of
                (Some e, w2) \<Rightarrow> (Some (app_unavailable ''refresh route policy cache'' (Some e)), w2)
              | (None, w2) \<Rightarrow> (None, snd (policy_notify x w2)))))"

definition op_entry_of :: "set_input \<Rightarrow> string option \<Rightarrow> goerr option \<Rightarrow> op_entry" where
  "op_entry_of v request_id err = \<lparr>oe_ResourceID = si_RouteID v, oe_Status = si_Status v,
     oe_ExpectedVersion = si_ExpectedVersion v, oe_RequestID = (case request_id of None \<Rightarrow> [] | Some i \<Rightarrow> i),
     oe_Succeeded = (err = None), oe_ErrorMessage = (case err of None \<Rightarrow> [] | Some e \<Rightarrow> err_text e)\<rparr>"

definition record_operation :: "('p, 'u) policy_externals \<Rightarrow> op_entry \<Rightarrow> 'p policy_world
    \<Rightarrow> goerr option \<times> 'p policy_world" where
  "record_operation x entry w = (case px_operations x of
      None \<Rightarrow> (None, w)
    | Some rec \<Rightarrow> (rec (pw_calls w) entry,
        w\<lparr>pw_calls := Suc (pw_calls w), pw_operations := pw_operations w @ [entry]\<rparr>))"

definition policy_service_set :: "('p, 'u) policy_externals \<Rightarrow> principal option \<Rightarrow> string option \<Rightarrow> set_input
    \<Rightarrow> 'p policy_world \<Rightarrow> (goerr + detail) \<times> 'p policy_world" where
  "policy_service_set x ctx request_id input w = (case ctx of
      None \<Rightarrow> (Inl (app_unauthorized ''authenticated principal is required''), w)
    | Some actor \<Rightarrow>
        if trim_space (p_ID actor) = []
        then (Inl (app_unauthorized ''authenticated principal is required''), w)
        else
          (let v = trim_input input in
           case check_input x v of
             Some err \<Rightarrow> (Inl err, w)
           | None \<Rightarrow>
               (let (err, w1) = set_and_refresh x v (p_ID actor) w;
                    (rec_err, w2) = record_operation x (op_entry_of v request_id err) w1
                in (case err of
                      Some e \<Rightarrow> (Inl e, w2)
                    | None \<Rightarrow> (case rec_err of
                          Some e \<Rightarrow> (Inl (app_unavailable ''operation log unavailable'' (Some e)), w2)
                        | None \<Rightarrow> policy_service_get (si_RouteID v) w2)))))"

end
