(* ===== verification/Policy_Facts.thy ===== *)
theory Policy_Facts
  imports Policy_Service
begin

text \<open>
  What the route policies guarantee: a change is all or nothing and never lost to a concurrent
  one, what was set is what is read, loaded and enforced, discovery replaces exactly the routes of
  its service and protocol, and the manager follows the database, up to one race.
\<close>

section \<open>Set is all or nothing\<close>

text \<open>
  C17. Setting a policy is all or nothing and refused when stale: for any failures, lost replies
  and other writers, the tables either end as they were or carry exactly the change asked for (one
  live policy of the route at the next version, with exactly the given permissions, on top of the
  expected version), and a reported success means they carry it; the constraints always hold.
\<close>

lemma policy_set_atomic:
  assumes "policy_set tdb fresh v actor s = (r, s')" "policy_inv (db_tables s)" "policy_inv (begun s)"
    and "distinct (map pi_Key (si_Permissions v))"
  shows "policy_inv (db_tables s') \<and>
    ((r \<noteq> None \<and> db_tables s' \<in> {db_tables s, begun s}) \<or> policy_set_spec v (begun s) (db_tables s'))"
proof -
  from within_atomic [OF assms(1) [unfolded policy_set_def]]
  have "(db_tables s' \<in> {db_tables s, begun s} \<and> r \<noteq> None) \<or>
    (\<exists>s2 s3. db_tables s2 = begun s \<and> set_body fresh v s2 = (None, s3) \<and> db_tables s' = db_tables s3)" by blast
  then show ?thesis
  proof
    assume "db_tables s' \<in> {db_tables s, begun s} \<and> r \<noteq> None"
    with assms(2,3) show ?thesis by auto
  next
    assume "\<exists>s2 s3. db_tables s2 = begun s \<and> set_body fresh v s2 = (None, s3) \<and> db_tables s' = db_tables s3"
    then obtain s2 s3 where h: "db_tables s2 = begun s" "set_body fresh v s2 = (None, s3)" "db_tables s' = db_tables s3"
      by blast
    then have "policy_set_spec v (begun s) (db_tables s')"
      using set_body_ok [OF h(2) _ assms(4)] assms(3) by simp
    then show ?thesis by (auto simp: policy_set_spec_def policy_saved_def)
  qed
qed

text \<open>The bootstrap of the examples: one route of the service without a policy.\<close>

definition ex_route :: route where
  "ex_route = \<lparr>ro_ID = ''r1'', ro_Protocol = ''http'', ro_Method = ''post'', ro_Path = ''/api/v1/me'',
     ro_Operation = ''me'', ro_Description = [], ro_ServiceName = ''audit-service'', ro_SourceVersion = ''1''\<rparr>"

definition ex_policy_db :: "policy_tables db" where
  "ex_policy_db = \<lparr>db_tables = \<lparr>pt_routes = [route_columns ex_route (blank_route ''r1'')], pt_policies = [],
     pt_refs = []\<rparr>, db_session = \<lparr>ss_actor = None, ss_now = 7\<rparr>, db_script = []\<rparr>"

definition ex_input :: set_input where
  "ex_input = \<lparr>si_RouteID = ''r1'', si_Expression = ''authenticated'', si_Description = [], si_Status = ''active'',
     si_ExpectedVersion = 0, si_Permissions = [\<lparr>pi_Key = ''k'', pi_Resource = ''doc'', pi_Action = ''read'',
       pi_Scope = ''tenant''\<rparr>]\<rparr>"

definition ex_fresh :: "nat \<Rightarrow> string" where
  "ex_fresh n = CHR ''u'' # show_nat n"

lemma policy_set_atomic_witness:
  "policy_set_spec ex_input (db_tables ex_policy_db)
     (db_tables (snd (policy_set (Some ''pgx'') ex_fresh ex_input ''admin'' ex_policy_db)))"
proof -
  let ?run = "policy_set (Some ''pgx'') ex_fresh ex_input ''admin'' ex_policy_db"
  have "fst ?run = None" "policy_inv (db_tables ex_policy_db)" "distinct (map pi_Key (si_Permissions ex_input))"
    by code_simp+
  moreover have "begun ex_policy_db = db_tables ex_policy_db" by (simp add: ex_policy_db_def)
  ultimately show ?thesis
    using policy_set_atomic [OF run_result [of ?run None]] by simp
qed

section \<open>Load\<close>

definition scope_of :: "string \<Rightarrow> scope" where
  "scope_of v = (case parse_scope v of Inr sc \<Rightarrow> sc | Inl _ \<Rightarrow> ScopeTenant)"

lemma parse_scope_valid: "v \<in> {''tenant'', ''platform'', ''principal''} \<Longrightarrow> parse_scope v = Inr (scope_of v)"
  by (auto simp: parse_scope_def scope_of_def)

definition refs_map :: "string \<Rightarrow> ref_row list \<Rightarrow> string \<rightharpoonup> permission" where
  "refs_map pid refs = map_of (rev (map (\<lambda>r. (rf_key r, new_permission r (scope_of (rf_scope r))))
     (filter (\<lambda>r. rf_policy_id r = pid) refs)))"

lemma attach_refs_ok:
  "\<forall>r \<in> set refs. rf_scope r \<in> {''tenant'', ''platform'', ''principal''} \<Longrightarrow>
   attach_refs defs refs = Inr (map (\<lambda>d. d\<lparr>pd_Permissions := pd_Permissions d ++ refs_map (pd_ID d) refs\<rparr>) defs)"
proof (induction defs refs rule: attach_refs.induct)
  case (1 defs)
  have "map (\<lambda>d. d\<lparr>pd_Permissions := pd_Permissions d\<rparr>) defs = defs" by (rule map_idI) simp
  then show ?case by (simp add: refs_map_def)
next
  case (2 defs r rest)
  have p: "parse_scope (rf_scope r) = Inr (scope_of (rf_scope r))" using "2.prems" by (intro parse_scope_valid) simp
  let ?upd = "\<lambda>d. if pd_ID d = rf_policy_id r
      then d\<lparr>pd_Permissions := (pd_Permissions d)(rf_key r \<mapsto> new_permission r (scope_of (rf_scope r)))\<rparr> else d"
  show ?case
  proof (cases "list_ex (\<lambda>d. pd_ID d = rf_policy_id r) defs")
    case True
    have "attach_refs defs (r # rest) = attach_refs (map ?upd defs) rest" using True p by simp
    also have "\<dots> = Inr (map (\<lambda>d. d\<lparr>pd_Permissions := pd_Permissions d ++ refs_map (pd_ID d) rest\<rparr>) (map ?upd defs))"
      using "2.IH"(1) True p "2.prems" by simp
    also have "\<dots> = Inr (map (\<lambda>d. d\<lparr>pd_Permissions := pd_Permissions d ++ refs_map (pd_ID d) (r # rest)\<rparr>) defs)"
      by (auto simp: refs_map_def fun_upd_def map_add_def fun_eq_iff split: option.splits)
    finally show ?thesis .
  next
    case False
    then have "attach_refs defs (r # rest) = Inr (map (\<lambda>d. d\<lparr>pd_Permissions := pd_Permissions d ++ refs_map (pd_ID d) rest\<rparr>) defs)"
      using "2.IH"(2) "2.prems" by simp
    also have "\<dots> = Inr (map (\<lambda>d. d\<lparr>pd_Permissions := pd_Permissions d ++ refs_map (pd_ID d) (r # rest)\<rparr>) defs)"
      using False by (auto simp: refs_map_def list_ex_iff)
    finally show ?thesis .
  qed
qed

text \<open>The definitions \<open>Load\<close> makes of the tables.\<close>

definition loaded_defs :: "policy_tables \<Rightarrow> policy_def list" where
  "loaded_defs t = (case select_active \<lparr>ss_actor = None, ss_now = 0\<rparr> t of Inr ps \<Rightarrow>
     (case select_active_refs \<lparr>ss_actor = None, ss_now = 0\<rparr> t of Inr refs \<Rightarrow>
       map (\<lambda>d. d\<lparr>pd_Permissions := refs_map (pd_ID d) refs\<rparr>) (map new_def ps)))"

lemma policy_load_quiet:
  assumes "db_script s = []" "policy_inv (db_tables s)"
  shows "policy_load (Some d) s = (Inr (loaded_defs (db_tables s)), s)"
proof -
  let ?t = "db_tables s" and ?refs = "sort_key (\<lambda>r. (rf_policy_id r, rf_key r))
     (filter (\<lambda>r. live r \<and> list_ex (\<lambda>p. pl_id p = rf_policy_id r \<and> live p \<and> pl_status p = ''active'')
        (pt_policies (db_tables s))) (pt_refs (db_tables s)))"
  have "\<forall>r \<in> set ?refs. rf_scope r \<in> {''tenant'', ''platform'', ''principal''}"
    using assms(2) by (auto simp: policy_inv_def checks_ok_def list_all_iff)
  note a = attach_refs_ok [OF this]
  show ?thesis using assms(1)
    by (simp add: policy_load_def select_active_refs_def select_active_def a loaded_defs_def comp_def new_def_def)
qed

lemma map_of_rev_single:
  assumes "distinct (map f xs)"
  shows "map_of (rev (map (\<lambda>x. (f x, g x)) xs)) k = Some y \<longleftrightarrow> (\<exists>x \<in> set xs. f x = k \<and> g x = y)"
proof -
  have "distinct (map fst (rev (map (\<lambda>x. (f x, g x)) xs)))" using assms by (simp add: rev_map [symmetric] comp_def)
  from map_of_eq_Some_iff [OF this] show ?thesis by auto
qed

text \<open>
  What is loaded is what the tables say: \<open>Load\<close> on a quiet, consistent database answers one
  definition per live, active policy, in the order of the routes and with its expression and
  version, and the permissions of each are exactly its live references.
\<close>

lemma load_reflects_tables:
  assumes "db_script s = []" "policy_inv (db_tables s)"
  shows "\<exists>defs. policy_load (Some driver) s = (Inr defs, s) \<and>
    map (\<lambda>d. (pd_ID d, pd_RouteID d, pd_Expression d, pd_Version d)) defs =
      map (\<lambda>p. (pl_id p, pl_route_id p, pl_expression p, au_version p))
        (sort_key pl_route_id (filter (\<lambda>p. pl_status p = ''active'' \<and> live p) (pt_policies (db_tables s)))) \<and>
    (\<forall>d \<in> set defs. \<forall>k pm. pd_Permissions d k = Some pm \<longleftrightarrow>
      (\<exists>r \<in> set (pt_refs (db_tables s)). live r \<and> rf_policy_id r = pd_ID d \<and> rf_key r = k \<and>
         pm = new_permission r (scope_of (rf_scope r))))"
proof -
  let ?t = "db_tables s" and ?P = "\<lambda>p. pl_status p = ''active'' \<and> live p"
  let ?refs = "sort_key (\<lambda>r. (rf_policy_id r, rf_key r)) (filter (\<lambda>r. live r \<and>
     list_ex (\<lambda>p. pl_id p = rf_policy_id r \<and> live p \<and> pl_status p = ''active'') (pt_policies ?t)) (pt_refs ?t))"
  have perms: "refs_map (pl_id p) ?refs k = Some pm \<longleftrightarrow>
      (\<exists>r \<in> set (pt_refs ?t). live r \<and> rf_policy_id r = pl_id p \<and> rf_key r = k \<and>
         pm = new_permission r (scope_of (rf_scope r)))"
    if p: "p \<in> set (pt_policies ?t)" "?P p" for p k pm
  proof -
    have d: "distinct (map (\<lambda>r. (rf_policy_id r, rf_key r)) (filter live (pt_refs ?t)))"
      using assms(2) by (simp add: policy_inv_def unique_ok_def)
    have "distinct (map (\<lambda>r. (rf_policy_id r, rf_key r)) ?refs)"
      using distinct_map_filter [OF d, of "\<lambda>r. list_ex (\<lambda>p. pl_id p = rf_policy_id r \<and> live p \<and> pl_status p = ''active'') (pt_policies ?t)"]
      by (simp add: distinct_map conj_commute)
    then have "distinct (map rf_key (filter (\<lambda>r. rf_policy_id r = pl_id p) ?refs))"
      by (auto simp: distinct_map inj_on_def)
    note single = map_of_rev_single [OF this, where g = "\<lambda>r. new_permission r (scope_of (rf_scope r))"]
    have mem: "set (filter (\<lambda>r. rf_policy_id r = pl_id p) ?refs) = {r \<in> set (pt_refs ?t). live r \<and> rf_policy_id r = pl_id p}"
      using p by (auto simp: list_ex_iff)
    show ?thesis unfolding refs_map_def single mem by auto
  qed
  show ?thesis
    unfolding policy_load_quiet [OF assms]
    using perms by (auto simp: loaded_defs_def select_active_def select_active_refs_def new_def_def comp_def)
qed

lemma load_reflects_tables_witness:
  "\<exists>defs. policy_load (Some ''pgx'') ex_policy_db = (Inr defs, ex_policy_db) \<and> defs = []"
proof -
  have "db_script ex_policy_db = []" "policy_inv (db_tables ex_policy_db)" "pt_policies (db_tables ex_policy_db) = []"
    by (simp add: ex_policy_db_def, code_simp, simp add: ex_policy_db_def)
  with load_reflects_tables [OF this(1,2), of "''pgx''"] show ?thesis by auto
qed


section \<open>SyncRoutes\<close>

lemma sync_routes_active:
  assumes "sync_routes tdb routes actor s = (None, s')" "policy_inv (begun s)"
    and "\<forall>v \<in> set routes. ro_ServiceName v = service \<and> ro_Protocol v = protocol"
  shows "active_ids service protocol (db_tables s') = ro_ID ` set routes \<and>
    rt_id ` set (pt_routes (begun s)) \<subseteq> rt_id ` set (pt_routes (db_tables s')) \<and>
    pt_policies (db_tables s') = pt_policies (begun s) \<and> pt_refs (db_tables s') = pt_refs (begun s) \<and>
    policy_inv (db_tables s')"
proof -
  obtain v rest where v: "routes = v # rest" using assms(1) by (cases routes) (auto simp: sync_routes_def)
  have svc: "ro_ServiceName v = service" "ro_Protocol v = protocol" using assms(3) v by simp_all
  let ?body = "\<lambda>s1. case exec_tx (deactivate_routes service protocol) s1 of
          (Inl err, s2) \<Rightarrow> (Some err, s2)
        | (Inr _, s2) \<Rightarrow> sync_each routes s2"
  from assms(1) have wi: "within tdb (Some (system_principal actor)) ?body s = (None, s')"
    unfolding v sync_routes_def list.case svc .
  obtain s2 s3 where w: "db_tables s2 = begun s" "?body s2 = (None, s3)" "db_tables s' = db_tables s3"
    by (rule within_ok [OF wi]) (rule that, simp_all)
  from w(2) obtain n s4 where d: "exec_tx (deactivate_routes service protocol) s2 = (Inr n, s4)"
    "sync_each routes s4 = (None, s3)" by (auto split: prod.splits sum.splits)
  obtain ss where "deactivate_routes service protocol ss (begun s) = Inr (db_tables s4, n)"
    using exec_tx_stmt [OF d(1)] w(1) by metis
  note de = deactivate_routes_ok [OF this]
  from sync_each_ok [OF d(2) de(4) assms(3)] de w(3) show ?thesis by simp
qed

text \<open>
  Discovery replaces exactly its own routes: when \<open>SyncRoutes\<close> reports success, the active
  routes of the service and protocol are exactly those it was given, whatever was active before;
  no route is removed, and policies and their references are untouched.
\<close>

lemma sync_replaces_active:
  assumes "sync_routes tdb routes actor s = (None, s')" "policy_inv (begun s)"
    and "\<forall>v \<in> set routes. ro_ServiceName v = service \<and> ro_Protocol v = protocol"
  shows "active_ids service protocol (db_tables s') = ro_ID ` set routes \<and>
    rt_id ` set (pt_routes (begun s)) \<subseteq> rt_id ` set (pt_routes (db_tables s')) \<and>
    pt_policies (db_tables s') = pt_policies (begun s) \<and> pt_refs (db_tables s') = pt_refs (begun s) \<and>
    policy_inv (db_tables s')"
  using assms by (rule sync_routes_active)

lemma sync_replaces_active_witness:
  "active_ids ''audit-service'' ''http'' (db_tables (snd (sync_routes (Some ''pgx'')
     [ex_route\<lparr>ro_ID := ''r2'', ro_Path := ''/api/v1/version''\<rparr>] ''discovery'' ex_policy_db))) = {''r2''}"
proof -
  let ?routes = "[ex_route\<lparr>ro_ID := ''r2'', ro_Path := ''/api/v1/version''\<rparr>]"
  let ?run = "sync_routes (Some ''pgx'') ?routes ''discovery'' ex_policy_db"
  have "fst ?run = None" "policy_inv (begun ex_policy_db)" by code_simp+
  moreover have "\<forall>v \<in> set ?routes. ro_ServiceName v = ''audit-service'' \<and> ro_Protocol v = ''http''"
    by (simp add: ex_route_def)
  ultimately show ?thesis using sync_replaces_active [OF run_result] by fastforce
qed

section \<open>Set, then read\<close>

lemma joined_iff:
  "x \<in> set (joined t) \<longleftrightarrow> (\<exists>r \<in> set (pt_routes t).
     (\<exists>p \<in> set (pt_policies t). pl_route_id p = rt_id r \<and> live p \<and> x = (r, Some p)) \<or>
     ((\<forall>p \<in> set (pt_policies t). \<not> (pl_route_id p = rt_id r \<and> live p)) \<and> x = (r, None)))"
proof -
  have "x \<in> set (case filter (\<lambda>p. pl_route_id p = rt_id r \<and> live p) ps of
       [] \<Rightarrow> [(r, None)] | qs \<Rightarrow> map (\<lambda>p. (r, Some p)) qs) \<longleftrightarrow>
    (\<exists>p \<in> set ps. pl_route_id p = rt_id r \<and> live p \<and> x = (r, Some p)) \<or>
    ((\<forall>p \<in> set ps. \<not> (pl_route_id p = rt_id r \<and> live p)) \<and> x = (r, None))" for r and ps :: "policy_row list"
  proof (cases "filter (\<lambda>p. pl_route_id p = rt_id r \<and> live p) ps")
    case Nil
    then show ?thesis by (auto simp: filter_empty_conv)
  next
    case (Cons q qs)
    then have "set (q # qs) = {p \<in> set ps. pl_route_id p = rt_id r \<and> live p}" by (metis set_filter)
    moreover from this have "\<not> (\<forall>p \<in> set ps. \<not> (pl_route_id p = rt_id r \<and> live p))" by auto
    ultimately show ?thesis using Cons by auto
  qed
  then show ?thesis by (simp add: joined_def)
qed

lemma select_detail_ok:
  assumes "policy_inv t" "r \<in> set (pt_routes t)" "live r" "p \<in> set (pt_policies t)" "live p" "pl_route_id p = rt_id r"
  shows "select_detail (rt_id r) ss t = Inr (new_detail (r, Some p))"
proof -
  let ?xs = "filter (\<lambda>(r', q). rt_id r' = rt_id r \<and> live r') (joined t)"
  have r: "r' = r" if "r' \<in> set (pt_routes t)" "rt_id r' = rt_id r" for r'
    using distinct_map_eq [of rt_id "pt_routes t" r' r] assms(1,2) that by (simp add: policy_inv_def unique_ok_def)
  have p: "p' = p" if "p' \<in> set (pt_policies t)" "live p'" "pl_route_id p' = rt_id r" for p'
    using distinct_map_eq [of pl_route_id "filter live (pt_policies t)" p' p] assms that
    by (simp add: policy_inv_def unique_ok_def)
  have "x = (r, Some p)" if "x \<in> set ?xs" for x
  proof -
    from that have x: "x \<in> set (joined t)" "rt_id (fst x) = rt_id r" by auto
    then obtain r' where r': "r' \<in> set (pt_routes t)" "fst x = r'" by (auto simp: joined_iff)
    with r x(2) have "r' = r" by simp
    with x(1) r'(2) have "(\<exists>p' \<in> set (pt_policies t). pl_route_id p' = rt_id r \<and> live p' \<and> x = (r, Some p')) \<or>
      (\<forall>p' \<in> set (pt_policies t). \<not> (pl_route_id p' = rt_id r \<and> live p'))" unfolding joined_iff by auto
    with assms(4-6) p show ?thesis by blast
  qed
  moreover have "(r, Some p) \<in> set ?xs" using assms(2-6) by (auto simp: joined_iff)
  ultimately obtain xs where "?xs = (r, Some p) # xs" by (cases ?xs) auto
  then show ?thesis by (simp add: select_detail_def)
qed

text \<open>What \<open>Get\<close> answers for a policy that was set.\<close>

definition detail_matches :: "set_input \<Rightarrow> detail \<Rightarrow> bool" where
  "detail_matches v d \<longleftrightarrow> dt_RouteID d = si_RouteID v \<and> dt_Expression d = si_Expression v \<and>
     dt_Description d = si_Description v \<and> dt_PolicyStatus d = si_Status v \<and>
     dt_Version d = si_ExpectedVersion v + 1 \<and> set (dt_Permissions d) = set (si_Permissions v)"

lemma policy_get_after_set:
  assumes "policy_set_spec v t (db_tables s)" "db_script s = []" "policy_inv (db_tables s)" 
    and "r \<in> set (pt_routes (db_tables s))" "live r" "rt_id r = si_RouteID v"
    and "[] \<notin> pl_id ` set (pt_policies (db_tables s))"
  shows "\<exists>d. policy_get (si_RouteID v) s = (Inr d, s) \<and> detail_matches v d"
proof -
  let ?t = "db_tables s"
  from assms(1) obtain pid where pid: "policy_saved v pid t ?t"
    "perm_of ` {r \<in> set (pt_refs ?t). live r \<and> rf_policy_id r = pid} = set (si_Permissions v)"
    unfolding policy_set_spec_def by blast
  from pid(1) obtain p where p: "p \<in> set (pt_policies ?t)" "live p" "pl_id p = pid" "pl_route_id p = si_RouteID v"
    "pl_expression p = si_Expression v" "pl_description p = si_Description v" "pl_status p = si_Status v"
    "au_version p = si_ExpectedVersion v + 1" unfolding policy_saved_def by blast
  note sd = select_detail_ok [OF assms(3,4,5) p(1,2), unfolded assms(6), OF p(4)]
  let ?perms = "map perm_of (sort_key rf_key (filter (\<lambda>r. rf_policy_id r = pid \<and> live r) (pt_refs ?t)))"
  have perms: "set ?perms = set (si_Permissions v)" using pid(2) by (simp add: conj_commute)
  have sp: "select_permissions pid ss ?t = Inr ?perms" for ss
    by (simp add: select_permissions_def perm_of_def [abs_def])
  let ?d = "new_detail (r, Some p)"
  have "pid \<noteq> []" using assms(7) p(1,3) by (metis imageI)
  then have "policy_get (si_RouteID v) s = (Inr (?d\<lparr>dt_Permissions := ?perms\<rparr>), s)"
    using assms(2) p(3) by (simp add: policy_get_def sd sp new_detail_def)
  moreover have "detail_matches v (?d\<lparr>dt_Permissions := ?perms\<rparr>)"
    using perms p assms(6) by (simp add: detail_matches_def new_detail_def)
  ultimately show ?thesis by blast
qed

lemma exec_tx_subset: "exec_tx stmt s = (r, s') \<Longrightarrow> db_script s = [] \<Longrightarrow> db_script s' = []"
  using exec_tx_script by fastforce

lemma save_policy_script: "save_policy i v s = (r, s') \<Longrightarrow> set (db_script s') \<subseteq> set (db_script s)"
  by (auto simp: save_policy_def split: prod.splits sum.splits if_splits dest!: exec_tx_script)

lemma write_refs_script: "write_refs fresh pid ex n vs s = (r, s') \<Longrightarrow> set (db_script s') \<subseteq> set (db_script s)"
proof (induction fresh pid ex n vs s rule: write_refs.induct)
  case (2 fresh pid ex n v rest s)
  obtain e s1 where e: "(case map_of (rev (map (\<lambda>r. (rf_key r, r)) ex)) (pi_Key v) of
      Some old \<Rightarrow> exec_tx (update_ref v (rf_id old)) s | None \<Rightarrow> exec_tx (insert_ref (fresh n) pid v) s) = (e, s1)"
    by fastforce
  then have "set (db_script s1) \<subseteq> set (db_script s)" by (auto split: option.splits dest: exec_tx_script)
  with "2.prems" "2.IH" e show ?case by (auto split: sum.splits)
qed simp

lemma drop_refs_script: "drop_refs d olds s = (r, s') \<Longrightarrow> set (db_script s') \<subseteq> set (db_script s)"
proof (induction d olds s rule: drop_refs.induct)
  case (2 d old rest s)
  obtain e s1 where e: "exec_tx (delete_ref (rf_id old)) s = (e, s1)" by fastforce
  with exec_tx_script [OF e] "2.prems" "2.IH" show ?case by (auto split: if_splits sum.splits)
qed simp

lemma set_body_script:
  assumes "set_body fresh v s = (r, s')"
  shows "set (db_script s') \<subseteq> set (db_script s)"
proof -
  obtain a s1 where a: "exec_tx (reads (route_exists (si_RouteID v))) s = (a, s1)" by fastforce
  obtain b s2 where b: "save_policy (fresh 0) v s1 = (b, s2)" by fastforce
  obtain c s3 where c: "exec_tx (reads (select_refs (case b of Inr p \<Rightarrow> p))) s2 = (c, s3)" by fastforce
  obtain d s4 where d: "write_refs fresh (case b of Inr p \<Rightarrow> p) (case c of Inr ex \<Rightarrow> ex) 1 (si_Permissions v) s3 = (d, s4)" by fastforce
  have "set (db_script s1) \<subseteq> set (db_script s)" "set (db_script s2) \<subseteq> set (db_script s1)"
    "set (db_script s3) \<subseteq> set (db_script s2)" "set (db_script s4) \<subseteq> set (db_script s3)"
    using exec_tx_script [OF a] save_policy_script [OF b] exec_tx_script [OF c] write_refs_script [OF d] by auto
  moreover have "set (db_script s') \<subseteq> set (db_script s1) \<or> set (db_script s') \<subseteq> set (db_script s2) \<or>
    set (db_script s') \<subseteq> set (db_script s3) \<or> set (db_script s') \<subseteq> set (db_script s4)"
    using assms a b c d unfolding set_body_def
    by (auto split: sum.splits option.splits dest: drop_refs_script)
  ultimately show ?thesis by blast
qed

lemma policy_set_quiet_script:
  assumes "policy_set tdb fresh v actor s = (r, s')" "db_script s = []"
  shows "db_script s' = []"
proof -
  have "set (db_script s') \<subseteq> set (db_script s)"
    by (rule within_script [OF _ assms(1) [unfolded policy_set_def]]) (rule set_body_script)
  with assms(2) show ?thesis by simp
qed

lemma begun_quiet [simp]: "db_script s = [] \<Longrightarrow> begun s = db_tables s"
  by simp

text \<open>How the successful run of the service's \<open>Set\<close> goes.\<close>

lemma policy_service_set_ok:
  assumes "policy_service_set x ctx rid input w = (Inr d, w')"
  obtains actor s1 w2 w3 where "ctx = Some actor" "trim_space (p_ID actor) \<noteq> []"
    "check_input x (trim_input input) = None"
    "policy_set (px_driver x) (px_uuid x (pw_calls w)) (trim_input input) (p_ID actor) (pw_db w) = (None, s1)"
    "refresh_source x (w\<lparr>pw_db := s1, pw_calls := Suc (pw_calls w)\<rparr>) = (None, w2)"
    "pw_db w3 = pw_db w2" "pw_manager w3 = pw_manager w2"
    "policy_service_get (si_RouteID (trim_input input)) w3 = (Inr d, w')"
proof -
  let ?v = "trim_input input"
  obtain actor where actor: "ctx = Some actor" "trim_space (p_ID actor) \<noteq> []" "check_input x ?v = None"
    using assms by (auto simp: policy_service_set_def Let_def split: option.splits if_splits prod.splits)
  obtain e w1 where e: "set_and_refresh x ?v (p_ID actor) w = (e, w1)" by fastforce
  obtain re w3 where re: "record_operation x (op_entry_of ?v rid e) w1 = (re, w3)" by fastforce
  from assms actor e re have ok: "e = None" "re = None" "policy_service_get (si_RouteID ?v) w3 = (Inr d, w')"
    by (auto simp: policy_service_set_def Let_def split: option.splits)
  have w3: "pw_db w3 = pw_db w1" "pw_manager w3 = pw_manager w1"
    using re by (auto simp: record_operation_def split: option.splits)
  obtain pe s1 where pe: "policy_set (px_driver x) (px_uuid x (pw_calls w)) ?v (p_ID actor) (pw_db w) = (pe, s1)"
    by fastforce
  have we: "write_error pe = None \<Longrightarrow> pe = None" by (auto simp: write_error_def split: option.splits if_splits)
  obtain w2 where w2: "pe = None" "refresh_source x (w\<lparr>pw_db := s1, pw_calls := Suc (pw_calls w)\<rparr>) = (None, w2)"
    "w1 = snd (policy_notify x w2)"
    using e ok(1) pe we by (auto simp: set_and_refresh_def Let_def split: option.splits prod.splits)
  have "pw_db w1 = pw_db w2" "pw_manager w1 = pw_manager w2"
    using w2(3) by (auto simp: policy_notify_def split: option.splits)
  with actor pe w2 w3 ok that show thesis by metis
qed


lemma set_body_route:
  assumes "set_body fresh v s = (None, s')"
  shows "\<exists>r \<in> set (pt_routes (db_tables s)). rt_id r = si_RouteID v \<and> live r"
proof -
  obtain a s1 where a: "exec_tx (reads (route_exists (si_RouteID v))) s = (a, s1)" by fastforce
  with assms obtain u where "a = Inr u" by (auto simp: set_body_def split: sum.splits)
  with a exec_tx_reads obtain ss where "route_exists (si_RouteID v) ss (db_tables s) = Inr u" by metis
  then show ?thesis by (auto simp: route_exists_def list_ex_iff split: if_splits)
qed

lemma policy_set_route:
  assumes "policy_set tdb fresh v actor s = (None, s')"
  shows "\<exists>r \<in> set (pt_routes (begun s)). rt_id r = si_RouteID v \<and> live r"
proof -
  obtain s2 s3 where w: "db_tables s2 = begun s" "set_body fresh v s2 = (None, s3)"
    by (rule within_ok [OF assms [unfolded policy_set_def]]) (rule that, simp_all)
  from set_body_route [OF w(2)] w(1) show ?thesis by simp
qed

lemma check_perms_distinct:
  "check_perms perms ps = Inr perms' \<Longrightarrow> distinct (map (pi_Key \<circ> trim_perm) ps) \<and>
     (\<forall>p \<in> set ps. perms (pi_Key (trim_perm p)) = None)"
proof (induction perms ps arbitrary: perms' rule: check_perms.induct)
  case (2 perms p rest)
  then obtain perms1 where "check_perms (perms(pi_Key (trim_perm p) \<mapsto> perms1)) rest = Inr perms'"
    "perms (pi_Key (trim_perm p)) = None"
    by (auto simp: Let_def split: sum.splits if_splits)
  moreover from this "2.prems" "2.IH" have "distinct (map (pi_Key \<circ> trim_perm) rest) \<and>
     (\<forall>q \<in> set rest. (perms(pi_Key (trim_perm p) \<mapsto> perms1)) (pi_Key (trim_perm q)) = None)"
    by (fastforce simp: Let_def split: sum.splits if_splits)
  ultimately show ?case by (auto simp: comp_def split: if_splits)
qed simp

lemma check_input_distinct: "check_input x v = None \<Longrightarrow> distinct (map pi_Key (si_Permissions v))"
proof -
  assume "check_input x v = None"
  then obtain perms where "check_perms Map.empty (si_Permissions v) = Inr perms"
    by (auto simp: check_input_def split: if_splits sum.splits)
  from check_perms_distinct [OF this] have "distinct (map (trim_space \<circ> pi_Key) (si_Permissions v))"
    by (simp add: comp_def trim_perm_def)
  then show ?thesis by (auto simp: distinct_map inj_on_def)
qed

lemma refresh_source_quiet:
  assumes "db_script (pw_db w) = []" "policy_inv (db_tables (pw_db w))" "px_driver x = Some d"
  shows "refresh_source x w =
    (let (err, snap) = px_reload x (Inr (loaded_defs (db_tables (pw_db w)))) (mg_snapshot (pw_manager w));
         m = (pw_manager w)\<lparr>mg_snapshot := snap\<rparr>
     in case err of
          Some e \<Rightarrow> (Some e, w\<lparr>pw_manager := m\<rparr>)
        | None \<Rightarrow> (case select_revision (db_session (pw_db w)) (db_tables (pw_db w)) of
              Inl e \<Rightarrow> (Some e, w\<lparr>pw_manager := m\<rparr>)
            | Inr rv \<Rightarrow> (None, w\<lparr>pw_manager := m\<lparr>mg_revision := unix_nano rv\<rparr>\<rparr>)))"
  using assms policy_load_quiet [OF assms(1,2)]
  by (auto simp: refresh_source_def policy_revision_def Let_def split: prod.splits option.splits sum.splits)

definition revision_of :: "policy_tables \<Rightarrow> time" where
  "revision_of t = (case select_revision \<lparr>ss_actor = None, ss_now = 0\<rparr> t of Inr r \<Rightarrow> r | Inl _ \<Rightarrow> 0)"

lemma select_revision_of: "select_revision ss t = Inr (revision_of t)"
  by (simp add: select_revision_def revision_of_def)

text \<open>The manager holds what the tables say: the snapshot of their definitions, and their revision.\<close>

definition in_step :: "('p, 'u) policy_externals \<Rightarrow> 'p \<Rightarrow> policy_tables \<Rightarrow> 'p manager \<Rightarrow> bool" where
  "in_step x snap t m \<longleftrightarrow> mg_snapshot m = snd (px_reload x (Inr (loaded_defs t)) snap) \<and>
     mg_revision m = unix_nano (revision_of t)"

lemma refresh_in_step:
  assumes "refresh_source x w = (None, w')" "db_script (pw_db w) = []" "policy_inv (db_tables (pw_db w))"
    "px_driver x = Some d"
  shows "in_step x (mg_snapshot (pw_manager w)) (db_tables (pw_db w)) (pw_manager w') \<and> pw_db w' = pw_db w \<and>
    mg_routeIDs (pw_manager w') = mg_routeIDs (pw_manager w)"
  using assms(1) unfolding refresh_source_quiet [OF assms(2-4)]
  by (auto simp: Let_def select_revision_of in_step_def split: prod.splits option.splits)

text \<open>
  C18. On a quiet, consistent database a policy that was set is read and enforced: when \<open>Set\<close> of the
  service answers with success, the tables carry the input at the next version, its route, expression, description
  and status trimmed and its permissions as they were given, and nothing else changed, the answer is that
  policy, and the manager enforces what the tables now say. (On a database others write to meanwhile
  the manager may miss a change.)
\<close>

lemma set_then_enforced:
  assumes "policy_service_set x ctx rid input w = (Inr d, w')"
    and "db_script (pw_db w) = []" "policy_inv (db_tables (pw_db w))" "px_driver x = Some driver"
    and "[] \<notin> pl_id ` set (pt_policies (db_tables (pw_db w')))"
  shows "policy_set_spec (trim_input input) (db_tables (pw_db w)) (db_tables (pw_db w')) \<and>
    detail_matches (trim_input input) d \<and>
    in_step x (mg_snapshot (pw_manager w)) (db_tables (pw_db w')) (pw_manager w')"
proof -
  let ?v = "trim_input input" and ?t = "db_tables (pw_db w)"
  obtain actor :: principal and s1 w2 w3 where run: "check_input x ?v = None"
    "policy_set (px_driver x) (px_uuid x (pw_calls w)) ?v (p_ID actor) (pw_db w) = (None, s1)"
    "refresh_source x (w\<lparr>pw_db := s1, pw_calls := Suc (pw_calls w)\<rparr>) = (None, w2)"
    "pw_db w3 = pw_db w2" "pw_manager w3 = pw_manager w2"
    "policy_service_get (si_RouteID ?v) w3 = (Inr d, w')"
    by (rule policy_service_set_ok [OF assms(1)]) (rule that, assumption+)
  have spec: "policy_set_spec ?v ?t (db_tables s1)"
    using policy_set_ok [OF run(2)] check_input_distinct [OF run(1)] assms(2,3) by simp
  then have inv: "policy_inv (db_tables s1)" by (auto simp: policy_set_spec_def policy_saved_def)
  have q1: "db_script s1 = []" by (rule policy_set_quiet_script [OF run(2) assms(2)])
  have step: "in_step x (mg_snapshot (pw_manager w)) (db_tables s1) (pw_manager w2)" "pw_db w2 = s1"
    using refresh_in_step [OF run(3) _ _ assms(4)] q1 inv by simp_all
  obtain r where r: "r \<in> set (pt_routes ?t)" "rt_id r = si_RouteID ?v" "live r"
    using policy_set_route [OF run(2)] assms(2) by auto
  have routes: "pt_routes (db_tables s1) = pt_routes ?t"
    using spec by (auto simp: policy_set_spec_def policy_saved_def)
  have trimmed: "trim_space (si_RouteID ?v) = si_RouteID ?v" by (simp add: trim_input_def)
  obtain g s2 where g: "policy_get (si_RouteID ?v) s1 = (g, s2)" by fastforce
  have get: "g = Inr d" "pw_db w' = s2" "pw_manager w' = pw_manager w2"
    using run(4-6) step(2) g trimmed by (auto simp: policy_service_get_def split: sum.splits)
  have s2: "s2 = s1" using g q1
    by (auto simp: policy_get_def split: sum.splits if_splits)
  have "\<exists>d'. policy_get (si_RouteID ?v) s1 = (Inr d', s1) \<and> detail_matches ?v d'"
    using policy_get_after_set [OF spec q1 inv] r routes assms(5) get(2) s2 by metis
  with g get(1) have "detail_matches ?v d" by auto
  with spec step get s2 show ?thesis by simp
qed

text \<open>A compiler that accepts every expression, whose snapshot is the list of definitions.\<close>

definition ex_policy_externals :: "(policy_def list, unit) policy_externals" where
  "ex_policy_externals = \<lparr>px_driver = Some ''pgx'', px_sql = \<lparr>se_uni = (\<lambda>s. s), se_lower = map lower_byte, se_uuid = Some,
     se_json = Some, se_text = (\<lambda>s. True)\<rparr>,
     px_compile = (\<lambda>d. if pd_Expression d = ''('' then Some (ErrText ''expected operand'') else None),
     px_reload = (\<lambda>r p. case r of Inl e \<Rightarrow> (Some e, p) | Inr ds \<Rightarrow> (None, ds)),
     px_evaluate = (\<lambda>p ident a. if list_ex (\<lambda>d. pd_RouteID d = ident) p then None else Some ErrPolicyDenied),
     px_new_route = (\<lambda>pr m pa sv. Inr (pr @ m @ pa @ sv)), px_publish = None, px_operations = None,
     px_uuid = (\<lambda>n. ex_fresh)\<rparr>"

definition ex_policy_world :: "policy_def list policy_world" where
  "ex_policy_world = \<lparr>pw_db = ex_policy_db, pw_manager = \<lparr>mg_snapshot = [], mg_revision = 0,
     mg_routeIDs = Map.empty\<rparr>, pw_calls = 0, pw_operations = []\<rparr>"

definition ex_admin :: principal where
  "ex_admin = \<lparr>p_ID = ''admin'', p_Type = TypeUser, p_TenantID = []\<rparr>"

lemma set_then_enforced_witness:
  "policy_set_spec (trim_input ex_input) (db_tables ex_policy_db)
     (db_tables (pw_db (snd (policy_service_set ex_policy_externals (Some ex_admin) None ex_input ex_policy_world))))"
proof -
  let ?run = "policy_service_set ex_policy_externals (Some ex_admin) None ex_input ex_policy_world"
  have ok: "case fst ?run of Inr d \<Rightarrow> True | Inl e \<Rightarrow> False" "db_script (pw_db ex_policy_world) = []"
    "policy_inv (db_tables (pw_db ex_policy_world))" "px_driver ex_policy_externals = Some ''pgx''"
    "[] \<notin> pl_id ` set (pt_policies (db_tables (pw_db (snd ?run))))"
    by code_simp+
  then obtain d where "fst ?run = Inr d" by (auto split: sum.splits)
  from set_then_enforced [OF run_result [OF this] ok(2-5)] show ?thesis
    by (simp add: ex_policy_world_def)
qed


section \<open>Two writers\<close>

lemma save_policy_stale:
  assumes "policy_inv (db_tables s)" "p \<in> set (pt_policies (db_tables s))" "live p" "pl_route_id p = si_RouteID v"
    and "au_version p \<noteq> si_ExpectedVersion v"
  shows "\<exists>e s1. save_policy fresh v s = (Inl e, s1)"
proof -
  obtain r s1 where r: "exec_tx (reads (select_policy (si_RouteID v))) s = (r, s1)" by fastforce
  have "q = p" if "q \<in> set (pt_policies (db_tables s))" "live q" "pl_route_id q = si_RouteID v" for q
    using distinct_map_eq [of pl_route_id "filter live (pt_policies (db_tables s))" q p] assms that
    by (simp add: policy_inv_def unique_ok_def)
  note only = this
  show ?thesis
  proof (cases "save_policy fresh v s")
    case (Pair res s')
    show ?thesis
    proof (cases res)
      case (Inr pid)
      have "policy_saved v pid (db_tables s) (db_tables s')"
        using save_policy_ok [OF Pair [unfolded Inr] assms(1)] by blast
      moreover have "\<exists>q \<in> set (pt_policies (db_tables s)). live q \<and> pl_route_id q = si_RouteID v"
        using assms(2-4) by blast
      ultimately obtain q where "q \<in> set (pt_policies (db_tables s))" "live q" "pl_route_id q = si_RouteID v"
        "au_version q = si_ExpectedVersion v" unfolding policy_saved_def by auto
      with only assms(5) show ?thesis by blast
    qed (use Pair in blast)
  qed
qed

text \<open>Where a policy of another version is the only one of its route, a write refuses and leaves everything.\<close>

lemma set_body_stale:
  assumes "policy_inv (db_tables s)" "db_script s = []"
    and "\<exists>r \<in> set (pt_routes (db_tables s)). rt_id r = si_RouteID v \<and> live r"
    and p: "p \<in> set (pt_policies (db_tables s))" "live p" "pl_route_id p = si_RouteID v" "au_version p \<noteq> si_ExpectedVersion v"
  shows "set_body fresh v s = (Some ErrStaleVersion, s)"
proof -
  have only: "q = p" if "q \<in> set (pt_policies (db_tables s))" "live q" "pl_route_id q = si_RouteID v" for q
    using distinct_map_eq [of pl_route_id "filter live (pt_policies (db_tables s))" q p] assms(1) p that
    by (simp add: policy_inv_def unique_ok_def)
  have "route_exists (si_RouteID v) ss (db_tables s) = Inr ()" for ss
    using assms(3) by (auto simp: route_exists_def list_ex_iff)
  moreover have "\<exists>rest. filter (\<lambda>q. pl_route_id q = si_RouteID v \<and> live q) (pt_policies (db_tables s)) = p # rest"
    (is "\<exists>rest. filter ?P ?ps = p # rest")
  proof (cases "filter ?P ?ps")
    case Nil
    with p show ?thesis by (auto simp: filter_empty_conv)
  next
    case (Cons q rest)
    from filter_hd [OF this] only Cons show ?thesis by auto
  qed
  then have "select_policy (si_RouteID v) ss (db_tables s) = Inr p" for ss by (auto simp: select_policy_def)
  ultimately show ?thesis using assms(2) p(4)
    by (simp add: set_body_def save_policy_def exec_tx_quiet reads_def)
qed

text \<open>
  C19. No update is lost: of two changes prepared from the same version of a route's policy, whoever
  writes second is refused and changes nothing, whatever happens on the way; on a quiet database the
  refusal is the stale version the service reports as a conflict.
\<close>

lemma second_writer_refused:
  assumes "policy_set tdb fresh v actor s = (None, s1)" "policy_inv (begun s)"
    and "distinct (map pi_Key (si_Permissions v))"
    and "si_RouteID v' = si_RouteID v" "si_ExpectedVersion v' = si_ExpectedVersion v"
    and "db_tables s2 = db_tables s1" "db_script s2 = []" "trim_space actor' \<noteq> []"
  shows "\<exists>s3. policy_set (Some ''pgx'') fresh' v' actor' s2 = (Some ErrStaleVersion, s3) \<and>
    db_tables s3 = db_tables s1 \<and>
    write_error (Some ErrStaleVersion) = Some (app_conflict ''route policy version is stale'' (Some ErrStaleVersion))"
proof -
  from policy_set_ok [OF assms(1-3)] obtain pid where saved: "policy_saved v pid (begun s) (db_tables s1)"
    by (auto simp: policy_set_spec_def)
  then have inv: "policy_inv (db_tables s1)" by (simp add: policy_saved_def)
  from saved obtain p where p: "p \<in> set (pt_policies (db_tables s1))" "live p" "pl_route_id p = si_RouteID v"
    "au_version p = si_ExpectedVersion v + 1" by (auto simp: policy_saved_def)
  from policy_set_route [OF assms(1)] saved
  have route: "\<exists>r \<in> set (pt_routes (db_tables s1)). rt_id r = si_RouteID v \<and> live r"
    by (simp add: policy_saved_def)
  let ?s = "s2\<lparr>db_session := (db_session s2)\<lparr>ss_actor := Some actor'\<rparr>\<rparr>"
  have "set_body fresh' v' ?s = (Some ErrStaleVersion, ?s)"
    by (rule set_body_stale [of _ _ p]) (use inv route p assms(4-7) in simp_all)
  then have "policy_set (Some ''pgx'') fresh' v' actor' s2 =
      (Some ErrStaleVersion, end_session (?s\<lparr>db_tables := db_tables s2\<rparr>))"
    unfolding policy_set_def
    using within_quiet [OF assms(7), of "''pgx''" "system_principal actor'" "set_body fresh' v'"] assms(8) set_body_script
    by (simp add: system_principal_def)
  moreover have "write_error (Some ErrStaleVersion) = Some (app_conflict ''route policy version is stale'' (Some ErrStaleVersion))"
    by (simp add: write_error_def ErrStaleVersion_def ErrPolicyNotFound_def)
  ultimately show ?thesis using assms(6) by simp
qed

lemma second_writer_refused_witness:
  "let s1 = snd (policy_set (Some ''pgx'') ex_fresh ex_input ''admin'' ex_policy_db) in
   fst (policy_set (Some ''pgx'') ex_fresh (ex_input\<lparr>si_Expression := ''deny''\<rparr>) ''other'' s1) = Some ErrStaleVersion"
proof -
  let ?run = "policy_set (Some ''pgx'') ex_fresh ex_input ''admin'' ex_policy_db"
  have "fst ?run = None" "policy_inv (begun ex_policy_db)" "distinct (map pi_Key (si_Permissions ex_input))"
    "si_RouteID (ex_input\<lparr>si_Expression := ''deny''\<rparr>) = si_RouteID ex_input"
    "si_ExpectedVersion (ex_input\<lparr>si_Expression := ''deny''\<rparr>) = si_ExpectedVersion ex_input"
    "db_script (snd ?run) = []" "trim_space ''other'' \<noteq> []" by code_simp+
  from second_writer_refused [OF run_result [OF this(1)] this(2-5) refl this(6,7), of ex_fresh]
  show ?thesis by (auto simp: Let_def)
qed

section \<open>Following the database\<close>

text \<open>
  The manager follows the database: on a quiet, consistent database a message of a peer, and a
  poll that finds another revision, leave the manager with what the tables say when the snapshot
  accepts them; a poll that finds the revision it has does nothing; and the tables are never changed.
\<close>

lemma run_follows:
  assumes "db_script (pw_db w) = []" "policy_inv (db_tables (pw_db w))" "px_driver x = Some driver"
    and "fst (px_reload x (Inr (loaded_defs (db_tables (pw_db w)))) (mg_snapshot (pw_manager w))) = None"
  shows "(e = PeerMessage \<or> unix_nano (revision_of (db_tables (pw_db w))) \<noteq> mg_revision (pw_manager w) \<longrightarrow>
      in_step x (mg_snapshot (pw_manager w)) (db_tables (pw_db w)) (pw_manager (run_step x e w))) \<and>
    (e = PollTick \<and> unix_nano (revision_of (db_tables (pw_db w))) = mg_revision (pw_manager w) \<longrightarrow>
      run_step x e w = w) \<and>
    pw_db (run_step x e w) = pw_db w"
proof -
  obtain snap where "px_reload x (Inr (loaded_defs (db_tables (pw_db w)))) (mg_snapshot (pw_manager w)) = (None, snap)"
    using run_result [OF assms(4)] by blast
  then obtain w' where w': "refresh_source x w = (None, w')"
    unfolding refresh_source_quiet [OF assms(1-3)] by (simp add: Let_def select_revision_of)
  note r = refresh_in_step [OF w' assms(1-3)]
  show ?thesis using assms(1) w' r
    by (cases e) (auto simp: policy_revision_def select_revision_of Let_def)
qed

lemma run_follows_witness:
  "in_step ex_policy_externals [] (db_tables ex_policy_db) (pw_manager (run_step ex_policy_externals PeerMessage ex_policy_world))"
proof -
  have "db_script (pw_db ex_policy_world) = []" "policy_inv (db_tables (pw_db ex_policy_world))"
    "px_driver ex_policy_externals = Some ''pgx''"
    "fst (px_reload ex_policy_externals (Inr (loaded_defs (db_tables (pw_db ex_policy_world))))
       (mg_snapshot (pw_manager ex_policy_world))) = None"
    by code_simp+
  from run_follows [OF this, of PeerMessage] show ?thesis by (simp add: ex_policy_world_def)
qed

text \<open>
  What the poll does not see: a change another instance commits between the two reads of a refresh.
  The refresh loads the tables before the change and remembers the revision after it.
\<close>

lemma policy_load_two_steps:
  assumes "db_script s = quiet # quiet # rest" "policy_inv (db_tables s)"
  shows "\<exists>s'. policy_load (Some d) s = (Inr (loaded_defs (db_tables s)), s') \<and> db_tables s' = db_tables s \<and> db_script s' = rest"
proof -
  let ?refs = "sort_key (\<lambda>r. (rf_policy_id r, rf_key r))
     (filter (\<lambda>r. live r \<and> list_ex (\<lambda>p. pl_id p = rf_policy_id r \<and> live p \<and> pl_status p = ''active'')
        (pt_policies (db_tables s))) (pt_refs (db_tables s)))"
  have "\<forall>r \<in> set ?refs. rf_scope r \<in> {''tenant'', ''platform'', ''principal''}"
    using assms(2) by (auto simp: policy_inv_def checks_ok_def list_all_iff)
  note a = attach_refs_ok [OF this]
  show ?thesis using assms(1)
    by (simp add: policy_load_def select_active_refs_def select_active_def a loaded_defs_def comp_def new_def_def
        exec_db_def next_step_def run_stmt_def reads_def)
qed

text \<open>
  C20. A change committed during a refresh stays unenforced: when another instance changes the tables
  between the load and the read of the revision, the refresh succeeds with the old policies under the
  new revision, and every later poll finds nothing to do.
\<close>

lemma refresh_misses_change:
  assumes "db_script (pw_db w) = [quiet, quiet, quiet\<lparr>st_others := change\<rparr>]"
    and "policy_inv (db_tables (pw_db w))" "px_driver x = Some driver"
    and "px_reload x (Inr (loaded_defs (db_tables (pw_db w)))) (mg_snapshot (pw_manager w)) = (None, snap)"
  shows "\<exists>w'. refresh_source x w = (None, w') \<and> db_tables (pw_db w') = change (db_tables (pw_db w)) \<and>
    mg_snapshot (pw_manager w') = snap \<and> run_step x PollTick w' = w'"
proof -
  obtain s1 where s1: "policy_load (Some driver) (pw_db w) = (Inr (loaded_defs (db_tables (pw_db w))), s1)"
    "db_tables s1 = db_tables (pw_db w)" "db_script s1 = [quiet\<lparr>st_others := change\<rparr>]"
    using policy_load_two_steps [OF assms(1,2)] by blast
  let ?t = "change (db_tables (pw_db w))"
  obtain s2 where s2: "policy_revision s1 = (Inr (revision_of ?t), s2)" "db_tables s2 = ?t" "db_script s2 = []"
    using s1(2,3)
    by (simp add: policy_revision_def exec_db_def next_step_def run_stmt_def reads_def select_revision_of quiet_def)
  define w' where "w' = w\<lparr>pw_db := s2, pw_manager := (pw_manager w)\<lparr>mg_snapshot := snap,
      mg_revision := unix_nano (revision_of ?t)\<rparr>\<rparr>"
  have "refresh_source x w = (None, w')"
    using s1(1) s2(1) assms(3,4) by (simp add: refresh_source_def w'_def)
  moreover have "run_step x PollTick w' = w'"
    using s2(2,3) by (simp add: policy_revision_def select_revision_of w'_def)
  ultimately show ?thesis using s2(2) by (simp add: w'_def)
qed

text \<open>A change that disables every policy.\<close>

lemma refresh_misses_change_witness:
  "let w = snd (policy_service_set ex_policy_externals (Some ex_admin) None ex_input ex_policy_world);
       wr = w\<lparr>pw_db := (pw_db w)\<lparr>db_script := [quiet, quiet, quiet\<lparr>st_others := \<lambda>t. t\<lparr>pt_policies := []\<rparr>\<rparr>]\<rparr>\<rparr>
   in \<exists>w'. refresh_source ex_policy_externals wr = (None, w') \<and> pt_policies (db_tables (pw_db w')) = [] \<and>
     mg_snapshot (pw_manager w') \<noteq> [] \<and> run_step ex_policy_externals PollTick w' = w'"
proof -
  define w where "w = snd (policy_service_set ex_policy_externals (Some ex_admin) None ex_input ex_policy_world)"
  define wr where "wr = w\<lparr>pw_db := (pw_db w)\<lparr>db_script := [quiet, quiet, quiet\<lparr>st_others := \<lambda>t. t\<lparr>pt_policies := []\<rparr>\<rparr>]\<rparr>\<rparr>"
  have inv: "policy_inv (db_tables (pw_db wr))" unfolding wr_def w_def by code_simp
  have ne: "loaded_defs (db_tables (pw_db wr)) \<noteq> []" unfolding wr_def w_def by code_simp
  have "px_driver ex_policy_externals = Some ''pgx''"
    "px_reload ex_policy_externals (Inr (loaded_defs (db_tables (pw_db wr)))) (mg_snapshot (pw_manager wr)) =
      (None, loaded_defs (db_tables (pw_db wr)))" by (simp_all add: ex_policy_externals_def)
  from refresh_misses_change [OF _ inv this, of "\<lambda>t. t\<lparr>pt_policies := []\<rparr>"] ne
  show ?thesis unfolding Let_def w_def [symmetric] wr_def [symmetric] by (auto simp: wr_def)
qed

section \<open>Route identifiers are cached\<close>

definition clean :: "string \<Rightarrow> bool" where
  "clean s \<longleftrightarrow> CHR 0x00 \<notin> set s"

fun evaluate_all :: "('p, 'u) policy_externals \<Rightarrow> (string \<times> string \<times> string \<times> string) list \<Rightarrow> 'u option
    \<Rightarrow> 'p manager \<Rightarrow> 'p manager" where
  "evaluate_all x [] a m = m"
| "evaluate_all x ((pr, me, pa, sv) # rest) a m = evaluate_all x rest a (snd (evaluate_route x pr me pa sv a m))"

lemma route_key_inj:
  assumes "route_key a b c d = route_key a' b' c' d'" "clean a" "clean b" "clean c" "clean a'" "clean b'" "clean c'"
  shows "a = a' \<and> b = b' \<and> c = c' \<and> d = d'"
proof -
  have step: "u = u' \<and> w = w'" if "u @ CHR 0x00 # w = u' @ CHR 0x00 # w'" "clean u" "clean u'" for u u' w w'
  proof -
    have "cut CHR 0x00 (u @ CHR 0x00 # w) = cut CHR 0x00 (u' @ CHR 0x00 # w')" using that(1) by simp
    then show ?thesis using that(2,3) unfolding clean_def by (subst (asm) (1 2) cut_append) auto
  qed
  from assms show ?thesis unfolding route_key_def by (auto dest!: step)
qed

definition cache_ok :: "('p, 'u) policy_externals \<Rightarrow> 'p manager \<Rightarrow> bool" where
  "cache_ok x m \<longleftrightarrow> (\<forall>k ident. mg_routeIDs m k = Some ident \<longrightarrow>
     (\<exists>pr me pa sv. clean pr \<and> clean me \<and> clean pa \<and> k = route_key pr me pa sv \<and> px_new_route x pr me pa sv = Inr ident))"

lemma evaluate_route_keeps_cache:
  assumes "cache_ok x m" "clean pr" "clean me" "clean pa"
  shows "cache_ok x (snd (evaluate_route x pr me pa sv a m))"
    and "mg_snapshot (snd (evaluate_route x pr me pa sv a m)) = mg_snapshot m"
  using assms by (auto simp: evaluate_route_def cache_ok_def Let_def split: option.splits sum.splits)

lemma evaluate_all_keeps_cache:
  assumes "cache_ok x m" "\<forall>(pr, me, pa, sv) \<in> set rs. clean pr \<and> clean me \<and> clean pa"
  shows "cache_ok x (evaluate_all x rs a m) \<and> mg_snapshot (evaluate_all x rs a m) = mg_snapshot m"
  using assms
  by (induction x rs a m rule: evaluate_all.induct) (auto simp: evaluate_route_keeps_cache)

text \<open>
  C21. The cache of route identifiers is transparent: after any sequence of calls for routes without
  a zero byte in them, started with an empty cache, \<open>EvaluateRoute\<close> answers what a fresh computation
  of the identifier evaluates to, under the same snapshot.
\<close>

lemma evaluate_route_cached:
  assumes "mg_routeIDs m = Map.empty" "\<forall>(pr, me, pa, sv) \<in> set ((pr0, me0, pa0, sv0) # rs). clean pr \<and> clean me \<and> clean pa"
  shows "fst (evaluate_route x pr0 me0 pa0 sv0 a (evaluate_all x rs b m)) =
    (case px_new_route x pr0 me0 pa0 sv0 of
       Inl err \<Rightarrow> Some err
     | Inr ident \<Rightarrow> px_evaluate x (mg_snapshot m) ident a)"
proof -
  let ?m = "evaluate_all x rs b m"
  have "cache_ok x m" using assms(1) by (simp add: cache_ok_def)
  with evaluate_all_keeps_cache assms(2) have ok: "cache_ok x ?m" "mg_snapshot ?m = mg_snapshot m"
    by fastforce+
  have clean: "clean pr0" "clean me0" "clean pa0" using assms(2) by simp_all
  have "px_new_route x pr0 me0 pa0 sv0 = Inr ident" if hit: "mg_routeIDs ?m (route_key pr0 me0 pa0 sv0) = Some ident" for ident
  proof -
    from ok(1) hit obtain pr me pa sv where k: "clean pr" "clean me" "clean pa"
      "route_key pr0 me0 pa0 sv0 = route_key pr me pa sv" "px_new_route x pr me pa sv = Inr ident"
      unfolding cache_ok_def by blast
    from route_key_inj [OF k(4) clean k(1-3)] k(5) show ?thesis by simp
  qed
  with ok(2) show ?thesis
    by (auto simp: evaluate_route_def Let_def split: option.splits sum.splits)
qed

lemma evaluate_route_cached_witness:
  "fst (evaluate_route ex_policy_externals ''http'' ''POST'' ''/a'' ''s'' None
     (evaluate_all ex_policy_externals [(''http'', ''POST'', ''/a'', ''s'')] None (pw_manager ex_policy_world))) =
   Some ErrPolicyDenied"
proof -
  have "mg_routeIDs (pw_manager ex_policy_world) = Map.empty" by (simp add: ex_policy_world_def)
  moreover have "\<forall>(pr, me, pa, sv) \<in> set ((''http'', ''POST'', ''/a'', ''s'') # [(''http'', ''POST'', ''/a'', ''s'')]).
      clean pr \<and> clean me \<and> clean pa" by (simp add: clean_def)
  ultimately show ?thesis
    by (subst evaluate_route_cached) (simp_all add: ex_policy_externals_def ex_policy_world_def)
qed

end
