(* ===== verification/Go_Path.thy ===== *)
theory Go_Path
  imports Go_Prelude
begin

text \<open>
  \<open>path.Match\<close> of the Go library, with which the service matches routes against the patterns of
  its configuration: \<open>*\<close> for any bytes but a slash, \<open>?\<close> for one character but a slash,
  classes in brackets, a backslash before a literal.  A pattern is bad (\<open>None\<close>) or matches or
  not.  The lemmas show that a pattern is bad for every name or for none, and that a literal
  prefix of a pattern is a prefix of all names it matches.
\<close>

section \<open>Characters\<close>

text \<open>\<open>utf8.DecodeRuneInString\<close> of a string that is not empty: the character and its length.\<close>

definition cont_byte :: "char \<Rightarrow> bool" where
  "cont_byte c \<longleftrightarrow> of_char c div 64 = (2 :: nat)"

definition low6 :: "char \<Rightarrow> nat" where
  "low6 c = of_char c mod 64"

definition decode_rune :: "string \<Rightarrow> nat \<times> nat" where
  "decode_rune s = (case s of
      [] \<Rightarrow> (65533, 0)
    | a # rest \<Rightarrow> (let x = of_char a :: nat in
        if x < 128 then (x, 1)
        else (case rest of
            [] \<Rightarrow> (65533, 1)
          | b # rest2 \<Rightarrow>
              if 194 \<le> x \<and> x < 224 \<and> cont_byte b then ((x - 192) * 64 + low6 b, 2)
              else (case rest2 of
                  [] \<Rightarrow> (65533, 1)
                | c # rest3 \<Rightarrow>
                    if 224 \<le> x \<and> x < 240 \<and> cont_byte b \<and> cont_byte c \<and>
                       (let r = (x - 224) * 4096 + low6 b * 64 + low6 c in 2048 \<le> r \<and> \<not> (55296 \<le> r \<and> r < 57344))
                    then ((x - 224) * 4096 + low6 b * 64 + low6 c, 3)
                    else (case rest3 of
                        [] \<Rightarrow> (65533, 1)
                      | d # _ \<Rightarrow>
                          (let r = (x - 240) * 262144 + low6 b * 4096 + low6 c * 64 + low6 d in
                           if 240 \<le> x \<and> x < 245 \<and> cont_byte b \<and> cont_byte c \<and> cont_byte d \<and> 65536 \<le> r \<and> r < 1114112
                           then (r, 4) else (65533, 1)))))))"

lemma decode_rune_length: "s \<noteq> [] \<Longrightarrow> 0 < snd (decode_rune s)"
  by (auto simp: decode_rune_def Let_def split: list.splits)

section \<open>Chunks\<close>

text \<open>A pattern up to its next star outside a class.\<close>

fun scan_body :: "bool \<Rightarrow> string \<Rightarrow> string \<times> string" where
  "scan_body inrange [] = ([], [])"
| "scan_body inrange (c # cs) =
     (if c = CHR 0x5C then
        (case cs of
           [] \<Rightarrow> ([c], [])
         | d # ds \<Rightarrow> (let (a, b) = scan_body inrange ds in (c # d # a, b)))
      else if c = CHR ''*'' \<and> \<not> inrange then ([], c # cs)
      else (let (a, b) = scan_body (if c = CHR ''['' then True else if c = CHR '']'' then False else inrange) cs
            in (c # a, b)))"

definition scan_chunk :: "string \<Rightarrow> bool \<times> string \<times> string" where
  "scan_chunk p = (case p of
      c # _ \<Rightarrow> (c = CHR ''*'', scan_body False (dropWhile (\<lambda>c. c = CHR ''*'') p))
    | [] \<Rightarrow> (False, [], []))"

declare scan_body.simps [simp del]

lemma scan_body_append: "fst (scan_body r p) @ snd (scan_body r p) = p"
proof (induction r p rule: scan_body.induct)
  case (2 r c cs)
  then show ?case
    by (cases cs) (simp_all add: scan_body.simps split_beta Let_def)
qed (simp add: scan_body.simps)

lemma scan_chunk_shorter:
  assumes "scan_chunk p = (star, chunk, rest)" "p \<noteq> []"
  shows "length rest < length p"
proof (cases p)
  case (Cons c cs)
  let ?q = "dropWhile (\<lambda>c. c = CHR ''*'') p"
  have s: "star = (c = CHR ''*'')" "scan_body False ?q = (chunk, rest)"
    using assms Cons by (simp_all add: scan_chunk_def del: dropWhile.simps)
  have q: "?q = chunk @ rest" using scan_body_append [of False ?q] s(2) by simp
  show ?thesis
  proof (cases "c = CHR ''*''")
    case True
    then have "length ?q < length p" using Cons length_dropWhile_le [of _ cs] by (simp add: le_imp_less_Suc)
    moreover have "length ?q = length chunk + length rest" using arg_cong [OF q, of length] by simp
    ultimately show ?thesis by linarith
  next
    case False
    then have pq: "?q = p" using Cons by simp
    have "fst (scan_body False (c # cs)) \<noteq> []" using False
      by (cases cs) (simp_all add: scan_body.simps split_beta Let_def)
    then have "chunk \<noteq> []" using s(2) Cons unfolding pq by simp
    moreover have "length p = length chunk + length rest" using q unfolding pq by simp
    ultimately show ?thesis by (cases chunk) simp_all
  qed
qed (use assms in simp)

text \<open>\<open>getEsc\<close>: one character of a class, and what follows.\<close>

definition get_esc :: "string \<Rightarrow> (nat \<times> string) option" where
  "get_esc chunk = (case chunk of
      [] \<Rightarrow> None
    | c # cs \<Rightarrow>
        if c = CHR ''-'' \<or> c = CHR '']'' then None
        else (let s = (if c = CHR 0x5C then cs else c # cs) in
          if s = [] then None
          else (let (r, n) = decode_rune s; rest = drop n s in
            if (r = 65533 \<and> n = 1) \<or> rest = [] then None else Some (r, rest))))"

lemma get_esc_shorter:
  assumes "get_esc chunk = Some (r, rest)"
  shows "length rest < length chunk"
proof (cases chunk)
  case (Cons c cs)
  let ?s = "if c = CHR 0x5C then cs else c # cs"
  have ne: "?s \<noteq> []" and rest: "rest = drop (snd (decode_rune ?s)) ?s"
    using assms Cons by (auto simp: get_esc_def Let_def split: if_splits prod.splits)
  have "0 < snd (decode_rune ?s)" by (rule decode_rune_length [OF ne])
  then have "length rest < length ?s" using ne unfolding rest by simp
  then show ?thesis using Cons by (auto split: if_splits)
qed (use assms in \<open>simp add: get_esc_def\<close>)

text \<open>The ranges of a class up to its bracket: whether the character is in one, and what follows.\<close>

function class_ranges :: "nat \<Rightarrow> bool \<Rightarrow> bool \<Rightarrow> string \<Rightarrow> (bool \<times> string) option" where
  "class_ranges r seen hit chunk =
     (if seen \<and> chunk \<noteq> [] \<and> hd chunk = CHR '']'' then Some (hit, tl chunk)
      else (case get_esc chunk of
          None \<Rightarrow> None
        | Some (lo, rest) \<Rightarrow>
            if hd rest = CHR ''-'' then
              (case get_esc (tl rest) of
                 None \<Rightarrow> None
               | Some (hi, rest2) \<Rightarrow> class_ranges r True (hit \<or> (lo \<le> r \<and> r \<le> hi)) rest2)
            else class_ranges r True (hit \<or> r = lo) rest))"
  by pat_completeness auto
termination
proof (relation "measure (\<lambda>(r, seen, hit, chunk). length chunk)", goal_cases)
  case (2 r seen hit chunk y lo rest y' hi rest2)
  then have "length rest2 < length (tl rest)" "length rest < length chunk" by (auto dest: get_esc_shorter)
  then show ?case by simp
qed (auto dest: get_esc_shorter)

declare class_ranges.simps [simp del]

lemma class_ranges_end: "seen \<and> chunk \<noteq> [] \<and> hd chunk = CHR '']'' \<Longrightarrow> class_ranges r seen hit chunk = Some (hit, tl chunk)"
  by (subst class_ranges.simps) (simp only: if_True refl simp_thms)

lemma class_ranges_step:
  "\<not> (seen \<and> chunk \<noteq> [] \<and> hd chunk = CHR '']'') \<Longrightarrow> class_ranges r seen hit chunk =
     (case get_esc chunk of
          None \<Rightarrow> None
        | Some (lo, rest) \<Rightarrow>
            if hd rest = CHR ''-'' then
              (case get_esc (tl rest) of
                 None \<Rightarrow> None
               | Some (hi, rest2) \<Rightarrow> class_ranges r True (hit \<or> (lo \<le> r \<and> r \<le> hi)) rest2)
            else class_ranges r True (hit \<or> r = lo) rest)"
  by (subst class_ranges.simps) (simp only: if_False simp_thms)

lemma class_ranges_shorter: "class_ranges r seen hit chunk = Some (h, rest) \<Longrightarrow> length rest < length chunk"
proof (induction r seen hit chunk rule: class_ranges.induct)
  case (1 r seen hit chunk)
  show ?case
  proof (cases "seen \<and> chunk \<noteq> [] \<and> hd chunk = CHR '']''")
    case True
    then have "rest = tl chunk" using "1.prems" by (simp add: class_ranges_end)
    with True show ?thesis by (cases chunk) simp_all
  next
    case False
    note step = "1.prems" [unfolded class_ranges_step [OF False]]
    then obtain lo r1 where e: "get_esc chunk = Some (lo, r1)" by (auto split: option.splits)
    note l1 = get_esc_shorter [OF e]
    show ?thesis
    proof (cases "hd r1 = CHR ''-''")
      case True
      with e step obtain hi r2 where e2: "get_esc (tl r1) = Some (hi, r2)"
        "class_ranges r True (hit \<or> (lo \<le> r \<and> r \<le> hi)) r2 = Some (h, rest)"
        by (auto split: option.splits)
      with "1.IH"(1) [OF False e refl True e2(1) refl e2(2)] get_esc_shorter [OF e2(1)] l1
      show ?thesis by simp
    next
      case no: False
      then have "class_ranges r True (hit \<or> r = lo) r1 = Some (h, rest)" using e step by simp
      from "1.IH"(2) [OF False e refl no this] l1 show ?thesis by simp
    qed
  qed
qed

text \<open>Whether a class is well formed does not depend on the character.\<close>

lemma class_ranges_same:
  "map_option snd (class_ranges r seen hit chunk) = map_option snd (class_ranges r' seen hit' chunk)"
proof (induction r seen hit chunk arbitrary: hit' rule: class_ranges.induct)
  case (1 r seen hit chunk)
  show ?case
  proof (cases "seen \<and> chunk \<noteq> [] \<and> hd chunk = CHR '']''")
    case True
    then show ?thesis by (simp add: class_ranges_end)
  next
    case False
    show ?thesis
    proof (cases "get_esc chunk")
      case None
      then show ?thesis by (simp add: class_ranges_step [OF False])
    next
      case (Some y)
      obtain lo r1 where y: "get_esc chunk = Some (lo, r1)" using Some by (cases y) auto
      show ?thesis
      proof (cases "hd r1 = CHR ''-''")
        case True
        show ?thesis
        proof (cases "get_esc (tl r1)")
          case None
          with y True show ?thesis by (simp add: class_ranges_step [OF False])
        next
          case (Some z)
          then obtain hi r2 where z: "get_esc (tl r1) = Some (hi, r2)" by (cases z) auto
          from "1.IH"(1) [OF False y refl True z refl, of "hit' \<or> (lo \<le> r' \<and> r' \<le> hi)"] y True z
          show ?thesis by (simp add: class_ranges_step [OF False])
        qed
      next
        case no: False
        from "1.IH"(2) [OF False y refl no, of "hit' \<or> r' = lo"] y no
        show ?thesis by (simp add: class_ranges_step [OF False])
      qed
    qed
  qed
qed

text \<open>
  \<open>matchChunk\<close>: the name is \<open>None\<close> once the match has failed, while the rest of the chunk is
  still read for its form.
\<close>

definition eat :: "char \<Rightarrow> string option \<Rightarrow> string option" where
  "eat c s = (case s of Some (x # xs) \<Rightarrow> if x = c then Some xs else None | _ \<Rightarrow> None)"

definition eat_any :: "string option \<Rightarrow> nat \<times> string option" where
  "eat_any s = (case s of
      Some (x # xs) \<Rightarrow> (let (r, n) = decode_rune (x # xs) in (r, Some (drop n (x # xs))))
    | _ \<Rightarrow> (0, None))"

definition class_start :: "string \<Rightarrow> bool \<times> string" where
  "class_start cs = (case cs of d # ds \<Rightarrow> if d = CHR ''^'' then (True, ds) else (False, cs) | [] \<Rightarrow> (False, []))"

lemma class_start_shorter: "class_start cs = (neg, cs1) \<Longrightarrow> length cs1 \<le> length cs"
  by (auto simp: class_start_def split: list.splits if_splits)

function match_chunk :: "string \<Rightarrow> string option \<Rightarrow> string option option" where
  "match_chunk [] s = Some s"
| "match_chunk (c # cs) s =
     (if c = CHR ''['' then
        (let (r, s1) = eat_any s; (neg, cs1) = class_start cs in
         case class_ranges r False False cs1 of
           None \<Rightarrow> None
         | Some (hit, rest) \<Rightarrow> match_chunk rest (if hit = neg then None else s1))
      else if c = CHR ''?'' then
        match_chunk cs (if s \<noteq> None \<and> the s \<noteq> [] \<and> hd (the s) = CHR ''/'' then None else snd (eat_any s))
      else if c = CHR 0x5C then
        (case cs of [] \<Rightarrow> None | d # ds \<Rightarrow> match_chunk ds (eat d s))
      else match_chunk cs (eat c s))"
  by pat_completeness auto

termination
proof (relation "measure (\<lambda>(chunk, s). length chunk)", goal_cases)
  case (2 c cs s x r s1 y neg cs1 z hit rest)
  then have "length cs1 \<le> length cs" "length rest < length cs1"
    using class_start_shorter [of cs neg cs1] class_ranges_shorter [of r False False cs1 hit rest] by auto
  then show ?case by simp
qed auto

lemma match_chunk_form: "match_chunk chunk s = None \<longleftrightarrow> match_chunk chunk s' = None"
proof (induction chunk s arbitrary: s' rule: match_chunk.induct)
  case (2 c cs s)
  consider "c = CHR ''[''" | "c = CHR ''?''" | "c = CHR 0x5C" | "c \<notin> {CHR ''['', CHR ''?'', CHR 0x5C}" by blast
  then show ?case
  proof cases
    case 1
    obtain neg cs1 where n: "class_start cs = (neg, cs1)" by (cases "class_start cs")
    obtain r s1 where e: "eat_any s = (r, s1)" by (cases "eat_any s")
    obtain r' s1' where e': "eat_any s' = (r', s1')" by (cases "eat_any s'")
    have same: "map_option snd (class_ranges r False False cs1) = map_option snd (class_ranges r' False False cs1)"
      by (rule class_ranges_same)
    show ?thesis
    proof (cases "class_ranges r False False cs1")
      case None
      with same have "class_ranges r' False False cs1 = None" by simp
      with None 1 n e e' show ?thesis by simp
    next
      case (Some z)
      then obtain hit rest where z: "class_ranges r False False cs1 = Some (hit, rest)" by (cases z) auto
      from same have "map_option snd (class_ranges r' False False cs1) = Some rest" unfolding z by simp
      then obtain y' where y': "class_ranges r' False False cs1 = Some y'" "snd y' = rest"
        unfolding map_option_eq_Some by blast
      define hit' where "hit' = fst y'"
      have z': "class_ranges r' False False cs1 = Some (hit', rest)" using y' by (simp add: hit'_def prod_eq_iff)
      have "match_chunk rest (if hit = neg then None else s1) = None \<longleftrightarrow>
          match_chunk rest (if hit' = neg then None else s1') = None"
        by (rule "2.IH"(1) [OF 1 e [symmetric] refl n [symmetric] refl z refl])
      then show ?thesis using 1 n e e' z z' by simp
    qed
  next
    case 2
    then show ?thesis using "2.IH"(2) by simp
  next
    case 3
    then have n: "c \<noteq> CHR ''[''" "c \<noteq> CHR ''?''" by simp_all
    show ?thesis
    proof (cases cs)
      case Nil
      with 3 show ?thesis by simp
    next
      case (Cons d ds)
      from "2.IH"(3) [OF n 3 Cons, of "eat d s'"] show ?thesis unfolding Cons using 3 by simp
    qed
  next
    case 4
    then have n: "c \<noteq> CHR ''[''" "c \<noteq> CHR ''?''" "c \<noteq> CHR 0x5C" by simp_all
    from "2.IH"(4) [OF n, of "eat c s'"] show ?thesis using n by simp
  qed
qed simp

text \<open>A failed match stays failed, and a matched prefix of literals is eaten.\<close>

lemma match_chunk_failed: "match_chunk chunk None \<in> {None, Some None}"
proof (induction chunk "None :: string option" rule: match_chunk.induct)
  case (2 c cs)
  have e: "eat_any None = (0, None)" "\<And>d. eat d None = None" by (simp_all add: eat_any_def eat_def)
  obtain neg cs1 where n: "class_start cs = (neg, cs1)" by (cases "class_start cs")
  show ?case
  proof (cases "c = CHR ''[''")
    case True
    have "match_chunk rest None \<in> {None, Some None}" if "class_ranges 0 False False cs1 = Some (hit, rest)" for hit rest
      using "2.hyps"(1) [OF True e(1) [symmetric] refl n [symmetric] refl that refl] e by simp
    then show ?thesis using True n e by (auto split: option.splits)
  next
    case False
    show ?thesis
    proof (cases "c = CHR 0x5C")
      case True
      show ?thesis
      proof (cases cs)
        case (Cons d ds)
        with "2.hyps"(3) True e show ?thesis by simp
      qed (simp add: True)
    next
      case no: False
      with False "2.hyps"(2) "2.hyps"(4) e show ?thesis by (cases "c = CHR ''?''") simp_all
    qed
  qed
qed simp

definition literal :: "char \<Rightarrow> bool" where
  "literal c \<longleftrightarrow> c \<notin> {CHR ''*'', CHR ''?'', CHR ''['', CHR 0x5C}"

lemma scan_body_literal:
  "list_all literal pre \<Longrightarrow> scan_body False (pre @ p) = (pre @ fst (scan_body False p), snd (scan_body False p))"
proof (induction pre)
  case (Cons c pre)
  then have "c \<noteq> CHR ''*''" "c \<noteq> CHR ''[''" "c \<noteq> CHR 0x5C" by (simp_all add: literal_def)
  then have "scan_body False ((c # pre) @ p) = (let (a, b) = scan_body False (pre @ p) in (c # a, b))"
    by (simp add: scan_body.simps)
  with Cons show ?case by simp
qed simp

lemma match_chunk_literal:
  "list_all literal pre \<Longrightarrow> match_chunk (pre @ chunk) (Some n) = Some (Some t) \<Longrightarrow> \<exists>m. n = pre @ m"
proof (induction pre arbitrary: n)
  case (Cons c pre)
  then have c: "c \<noteq> CHR ''?''" "c \<noteq> CHR ''[''" "c \<noteq> CHR 0x5C" by (simp_all add: literal_def)
  have m: "match_chunk (pre @ chunk) (eat c (Some n)) = Some (Some t)" using Cons.prems(2) c by simp
  have "match_chunk (pre @ chunk) None \<noteq> Some (Some t)" using match_chunk_failed [of "pre @ chunk"] by auto
  with m obtain n' where n': "eat c (Some n) = Some n'" by (cases "eat c (Some n)") auto
  then have "n = c # n'" by (auto simp: eat_def split: list.splits if_splits)
  moreover from Cons.IH [of n'] Cons.prems(1) m n' obtain k where "n' = pre @ k" by auto
  ultimately show ?case by simp
qed simp

section \<open>Match\<close>

text \<open>The loop behind a star: try each rest of the name up to a slash.\<close>

fun star_match :: "string \<Rightarrow> bool \<Rightarrow> string \<Rightarrow> string option option" where
  "star_match chunk final [] = Some None"
| "star_match chunk final (c # cs) =
     (if c = CHR ''/'' then Some None
      else (case match_chunk chunk (Some cs) of
          None \<Rightarrow> None
        | Some None \<Rightarrow> star_match chunk final cs
        | Some (Some t) \<Rightarrow> if final \<and> t \<noteq> [] then star_match chunk final cs else Some (Some t)))"

text \<open>The form of what is left of a pattern that does not match.\<close>

function rest_formed :: "string \<Rightarrow> bool option" where
  "rest_formed p = (if p = [] then Some False
     else (let (star, chunk, rest) = scan_chunk p in
       case match_chunk chunk (Some []) of None \<Rightarrow> None | Some _ \<Rightarrow> rest_formed rest))"
  by pat_completeness auto
termination
  by (relation "measure length") (auto dest: scan_chunk_shorter [OF sym])

declare rest_formed.simps [simp del]

function path_match :: "string \<Rightarrow> string \<Rightarrow> bool option" where
  "path_match p n = (if p = [] then Some (n = [])
     else (let (star, chunk, rest) = scan_chunk p in
       if star \<and> chunk = [] then Some (CHR ''/'' \<notin> set n)
       else (case match_chunk chunk (Some n) of
           None \<Rightarrow> None
         | Some (Some t) \<Rightarrow>
             if t = [] \<or> rest \<noteq> [] then path_match rest t
             else if star then
               (case star_match chunk (rest = []) n of
                  None \<Rightarrow> None | Some None \<Rightarrow> rest_formed rest | Some (Some u) \<Rightarrow> path_match rest u)
             else rest_formed rest
         | Some None \<Rightarrow>
             if star then
               (case star_match chunk (rest = []) n of
                  None \<Rightarrow> None | Some None \<Rightarrow> rest_formed rest | Some (Some u) \<Rightarrow> path_match rest u)
             else rest_formed rest)))"
  by pat_completeness auto
termination
  by (relation "measure (\<lambda>(p, n). length p)") (auto dest: scan_chunk_shorter [OF sym])

declare path_match.simps [simp del]

section \<open>Good patterns\<close>

text \<open>The chunks of a good pattern.\<close>

function good_pattern :: "string \<Rightarrow> bool" where
  "good_pattern p = (if p = [] then True else (let (star, chunk, rest) = scan_chunk p in
     if star \<and> chunk = [] then True
     else if match_chunk chunk None = None then False else good_pattern rest))"
  by pat_completeness auto
termination
  by (relation "measure length") (auto dest: scan_chunk_shorter [OF sym])

declare good_pattern.simps [simp del]

lemma match_chunk_forms: "match_chunk chunk (Some n) = None \<longleftrightarrow> match_chunk chunk None = None"
  by (rule match_chunk_form)

lemma star_match_form: "match_chunk chunk None \<noteq> None \<Longrightarrow> star_match chunk final n \<noteq> None"
  by (induction chunk final n rule: star_match.induct) (auto simp: match_chunk_forms split: option.splits)

lemma scan_body_nonempty: "d \<noteq> CHR ''*'' \<Longrightarrow> fst (scan_body False (d # ds)) \<noteq> []"
  by (cases ds) (simp_all add: scan_body.simps split_beta Let_def)

lemma scan_chunk_star:
  assumes "scan_chunk p = (True, [], rest)"
  shows "rest = []"
proof -
  define q where "q = dropWhile (\<lambda>c. c = CHR ''*'') p"
  have s: "scan_body False q = ([], rest)" using assms by (cases p) (simp_all add: scan_chunk_def q_def del: dropWhile.simps)
  then have r: "rest = q" using scan_body_append [of False q] by simp
  have "q = [] \<or> hd q \<noteq> CHR ''*''" unfolding q_def using hd_dropWhile [of "\<lambda>c. c = CHR ''*''" p] by blast
  moreover have "hd q = CHR ''*''" if "q \<noteq> []" using scan_body_nonempty [of "hd q" "tl q"] s that by auto
  ultimately have "q = []" by blast
  with r show ?thesis by simp
qed

lemma rest_formed_unfold:
  "p \<noteq> [] \<Longrightarrow> scan_chunk p = (star, chunk, rest) \<Longrightarrow> rest_formed p =
     (case match_chunk chunk (Some []) of None \<Rightarrow> None | Some _ \<Rightarrow> rest_formed rest)"
  by (subst rest_formed.simps) simp

lemma good_pattern_unfold:
  "p \<noteq> [] \<Longrightarrow> scan_chunk p = (star, chunk, rest) \<Longrightarrow> good_pattern p =
     (if star \<and> chunk = [] then True else if match_chunk chunk None = None then False else good_pattern rest)"
  by (subst good_pattern.simps) simp

lemma path_match_unfold:
  "p \<noteq> [] \<Longrightarrow> scan_chunk p = (star, chunk, rest) \<Longrightarrow> path_match p n =
     (if star \<and> chunk = [] then Some (CHR ''/'' \<notin> set n)
       else (case match_chunk chunk (Some n) of
           None \<Rightarrow> None
         | Some (Some t) \<Rightarrow>
             if t = [] \<or> rest \<noteq> [] then path_match rest t
             else if star then
               (case star_match chunk (rest = []) n of
                  None \<Rightarrow> None | Some None \<Rightarrow> rest_formed rest | Some (Some u) \<Rightarrow> path_match rest u)
             else rest_formed rest
         | Some None \<Rightarrow>
             if star then
               (case star_match chunk (rest = []) n of
                  None \<Rightarrow> None | Some None \<Rightarrow> rest_formed rest | Some (Some u) \<Rightarrow> path_match rest u)
             else rest_formed rest))"
  by (subst path_match.simps) simp

lemma rest_formed_Nil [simp]: "rest_formed [] = Some False" "good_pattern []" "path_match [] n = Some (n = [])"
  by (simp_all add: rest_formed.simps good_pattern.simps path_match.simps)

lemma rest_formed_good: "rest_formed p \<noteq> None \<longleftrightarrow> good_pattern p"
proof (induction "length p" arbitrary: p rule: less_induct)
  case (less p)
  show ?case
  proof (cases "p = []")
    case False
    obtain star chunk rest where s: "scan_chunk p = (star, chunk, rest)" by (cases "scan_chunk p") auto
    have ih: "rest_formed rest \<noteq> None \<longleftrightarrow> good_pattern rest"
      by (rule less) (rule scan_chunk_shorter [OF s False])
    show ?thesis
    proof (cases "star \<and> chunk = []")
      case True
      with s have "scan_chunk p = (True, [], rest)" by simp
      then have "rest = []" by (rule scan_chunk_star)
      with True show ?thesis
        by (simp add: rest_formed_unfold [OF False s] good_pattern_unfold [OF False s])
    next
      case no: False
      show ?thesis
      proof (cases "match_chunk chunk (Some [])")
        case None
        with no match_chunk_forms [of chunk "[]"] show ?thesis
          by (simp add: rest_formed_unfold [OF False s] good_pattern_unfold [OF False s])
      next
        case (Some y)
        with match_chunk_forms [of chunk "[]"] have ok: "match_chunk chunk None \<noteq> None" by simp
        show ?thesis
          unfolding rest_formed_unfold [OF False s] good_pattern_unfold [OF False s] if_not_P [OF no] if_not_P [OF ok] Some
          using ih by simp
      qed
    qed
  qed simp
qed

lemma path_match_good: "path_match p n \<noteq> None \<longleftrightarrow> good_pattern p"
proof (induction "length p" arbitrary: p n rule: less_induct)
  case (less p)
  show ?case
  proof (cases "p = []")
    case False
    obtain star chunk rest where s: "scan_chunk p = (star, chunk, rest)" by (cases "scan_chunk p") auto
    have ih: "path_match rest t \<noteq> None \<longleftrightarrow> good_pattern rest" for t
      by (rule less) (rule scan_chunk_shorter [OF s False])
    show ?thesis
    proof (cases "star \<and> chunk = []")
      case True
      then show ?thesis by (simp add: path_match_unfold [OF False s] good_pattern_unfold [OF False s])
    next
      case no: False
      show ?thesis
      proof (cases "match_chunk chunk (Some n)")
        case None
        with no match_chunk_forms [of chunk n] show ?thesis
          by (simp add: path_match_unfold [OF False s] good_pattern_unfold [OF False s])
      next
        case (Some y)
        with match_chunk_forms [of chunk n] have ok: "match_chunk chunk None \<noteq> None" by simp
        then obtain z where z: "star_match chunk (rest = []) n = Some z" using star_match_form by blast
        have good: "good_pattern p \<longleftrightarrow> good_pattern rest"
          unfolding good_pattern_unfold [OF False s] if_not_P [OF no] if_not_P [OF ok] ..
        show ?thesis unfolding good path_match_unfold [OF False s] if_not_P [OF no] Some z
          using ih rest_formed_good [of rest] by (cases y; cases z; cases "rest = []") (simp_all add: ex_bool_eq)
      qed
    qed
  qed simp
qed

text \<open>A pattern that starts with literals matches only names that start with them.\<close>

lemma path_match_prefix:
  assumes "path_match (pre @ p) n = Some True" "list_all literal pre"
  shows "has_prefix n pre"
proof (cases pre)
  case (Cons c cs)
  have "c \<noteq> CHR ''*''" using assms(2) Cons by (simp add: literal_def)
  then have s: "scan_chunk (pre @ p) = (False, pre @ fst (scan_body False p), snd (scan_body False p))"
    using scan_body_literal [OF assms(2), of p] Cons by (simp add: scan_chunk_def)
  let ?m = "match_chunk (pre @ fst (scan_body False p)) (Some n)"
  have rf: "rest_formed q \<noteq> Some True" for q
    by (induction q rule: rest_formed.induct) (subst rest_formed.simps, auto split: option.splits prod.splits)
  have ne: "pre @ p \<noteq> []" using Cons by simp
  have "\<exists>t. ?m = Some (Some t)"
    using assms(1) rf unfolding path_match_unfold [OF ne s] by (cases ?m rule: option.exhaust) (auto split: option.splits)
  then obtain t where "?m = Some (Some t)" ..
  from match_chunk_literal [OF assms(2) this] show ?thesis by auto
qed (simp add: has_prefix_def)

end
