(* ===== verification/Config.thy ===== *)
theory Config
  imports Complex_Main Go_Path App_Error
begin

text \<open>
  \<open>internal/config/config.go\<close>: the configuration, one record per struct and one field per field
  of the source (\<open>HTTP_Address\<close> is \<open>HTTP.Address\<close>), its defaults, how a file, a profile and
  the environment are put together, and the checks a configuration passes before the service starts.
  A duration is a number of nanoseconds.  A Go map is the list of its entries in the order a
  \<open>range\<close> visits them.  The texts of the errors leave out the values they quote.
\<close>

section \<open>The structs\<close>

text \<open>A \<open>float64\<close>: the finite ones are rational, and a comparison with NaN is false.\<close>

datatype float64 = Rational rat | PosInf | NegInf | NotANumber

fun float_less :: "float64 \<Rightarrow> float64 \<Rightarrow> bool" where
  "float_less (Rational x) (Rational y) \<longleftrightarrow> x < y"
| "float_less NegInf (Rational y) \<longleftrightarrow> True"
| "float_less NegInf PosInf \<longleftrightarrow> True"
| "float_less (Rational x) PosInf \<longleftrightarrow> True"
| "float_less _ _ \<longleftrightarrow> False"

record cRuntime =
  Runtime_ActiveProfile :: string
  Runtime_ConfigFiles :: "string list"

record cApp =
  App_Name :: string
  App_Schema :: string
  App_Env :: string
  App_ShutdownTimeout :: duration

record cCORS =
  CORS_Enabled :: bool
  CORS_AllowedOrigins :: "string list"
  CORS_AllowedHeaders :: "string list"
  CORS_ExposedHeaders :: "string list"
  CORS_MaxAge :: duration

record cHTTP =
  HTTP_Address :: string
  HTTP_ReadTimeout :: duration
  HTTP_WriteTimeout :: duration
  HTTP_IdleTimeout :: duration
  HTTP_RequestTimeout :: duration
  HTTP_MaxBodyBytes :: int
  HTTP_TrustedProxies :: "string list"
  HTTP_CORS :: cCORS

record cGRPCTLS =
  GRPCTLS_Enabled :: bool
  GRPCTLS_CertFile :: string
  GRPCTLS_KeyFile :: string
  GRPCTLS_ClientCAFile :: string

record cGRPC =
  GRPC_Enabled :: bool
  GRPC_Address :: string
  GRPC_ReflectionEnabled :: bool
  GRPC_MaxReceiveBytes :: int
  GRPC_TLS :: cGRPCTLS

record cLog =
  Log_Level :: string
  Log_Format :: string
  Log_File :: string
  Log_MaxSizeMB :: int
  Log_MaxBackups :: int
  Log_MaxAgeDays :: int
  Log_Compress :: bool

record cDatabase =
  Database_Enabled :: bool
  Database_Name :: string
  Database_Schema :: string
  Database_Type :: string
  Database_DSN :: string
  Database_MaxOpenConns :: int
  Database_MaxIdleConns :: int
  Database_ConnMaxLifetime :: duration
  Database_ConnMaxIdleTime :: duration
  Database_PingTimeout :: duration

record cRedis =
  Redis_Enabled :: bool
  Redis_Address :: string
  Redis_Username :: string
  Redis_Password :: string
  Redis_DB :: int
  Redis_DialTimeout :: duration
  Redis_ReadTimeout :: duration
  Redis_WriteTimeout :: duration

record cHealth =
  Health_DatabaseTimeout :: duration
  Health_RedisTimeout :: duration

record cRateLimitRule =
  RateLimitRule_Rate :: int
  RateLimitRule_Burst :: int
  RateLimitRule_Period :: duration

record cRateLimit =
  RateLimit_Enabled :: bool
  RateLimit_FailOpen :: bool
  RateLimit_IP :: cRateLimitRule
  RateLimit_API :: cRateLimitRule
  RateLimit_User :: cRateLimitRule
  RateLimit_Login :: cRateLimitRule

record cObservability =
  Observability_MetricsEnabled :: bool
  Observability_TracingEnabled :: bool
  Observability_TracingEndpoint :: string
  Observability_TracingSampleRatio :: float64
  Observability_PprofEnabled :: bool
  Observability_PprofToken :: string

record cSwagger =
  Swagger_Enabled :: bool
  Swagger_RequireAuth :: bool

record cJWT =
  JWT_Issuer :: string
  JWT_Secret :: string
  JWT_TTL :: duration

record cPSK =
  PSK_Enabled :: bool
  PSK_Key :: string
  PSK_HTTPPaths :: "string list"
  PSK_GRPCMethods :: "string list"

record cAuth =
  Auth_JWKSURL :: string
  Auth_Issuer :: string
  Auth_Audience :: string
  Auth_ClientID :: string
  Auth_ClientSecret :: string
  Auth_SkipHTTPPaths :: "string list"
  Auth_SkipGRPCMethods :: "string list"
  Auth_PSK :: cPSK

record cAuthorization =
  Authorization_Enabled :: bool
  Authorization_PolicyRefreshInterval :: duration

record cCron =
  Cron_Enabled :: bool
  Cron_Timezone :: string
  Cron_SampleSpec :: string

record cMigration =
  Migration_AutoUp :: bool
  Migration_CreateSchema :: bool
  Migration_Path :: string
  Migration_DatabaseURL :: string
  Migration_Table :: string
  Migration_Schema :: string
  Migration_DatabaseName :: string

record cUser =
  User_CacheTTL :: duration
  User_LockTTL :: duration
  User_LockRetryDelay :: duration

record cIdempotency =
  Idempotency_Enabled :: bool
  Idempotency_HTTPPaths :: "string list"
  Idempotency_GRPCMethods :: "string list"
  Idempotency_ProcessingTTL :: duration
  Idempotency_ResultTTL :: duration
  Idempotency_FailureTTL :: duration

record cClientAuth =
  ClientAuth_Type :: string
  ClientAuth_Token :: string

record cRetry =
  Retry_MaxAttempts :: int
  Retry_InitialBackoff :: duration
  Retry_MaxBackoff :: duration
  Retry_Methods :: "string list"

record cBreaker =
  Breaker_Enabled :: bool
  Breaker_FailureThreshold :: int
  Breaker_OpenTimeout :: duration

record cClientTLS =
  ClientTLS_Enabled :: bool
  ClientTLS_AllowInsecure :: bool
  ClientTLS_ServerName :: string
  ClientTLS_CAFile :: string
  ClientTLS_CertFile :: string
  ClientTLS_KeyFile :: string

record cHTTPUpstream =
  HTTPUpstream_BaseURL :: string
  HTTPUpstream_Timeout :: duration
  HTTPUpstream_Auth :: cClientAuth
  HTTPUpstream_Retry :: cRetry
  HTTPUpstream_Breaker :: cBreaker
  HTTPUpstream_TLS :: cClientTLS

record cGRPCUpstream =
  GRPCUpstream_Target :: string
  GRPCUpstream_Timeout :: duration
  GRPCUpstream_Auth :: cClientAuth
  GRPCUpstream_Retry :: cRetry
  GRPCUpstream_Breaker :: cBreaker
  GRPCUpstream_TLS :: cClientTLS

record cOutbound =
  Outbound_HTTP :: "(string \<times> cHTTPUpstream) list"
  Outbound_GRPC :: "(string \<times> cGRPCUpstream) list"

record cEventBus =
  EventBus_Enabled :: bool
  EventBus_URLs :: "string list"
  EventBus_StreamName :: string
  EventBus_Subjects :: "string list"
  EventBus_Storage :: string
  EventBus_MaxAge :: duration
  EventBus_DuplicateWindow :: duration
  EventBus_ConnectTimeout :: duration
  EventBus_ReconnectWait :: duration
  EventBus_PublishTimeout :: duration
  EventBus_ConsumerAckWait :: duration
  EventBus_ConsumerMaxDeliver :: int

record cOperationLog =
  OperationLog_Enabled :: bool
  OperationLog_Subject :: string
  OperationLog_MaxPayloadBytes :: int

record cConfig =
  Config_Runtime :: cRuntime
  Config_App :: cApp
  Config_HTTP :: cHTTP
  Config_GRPC :: cGRPC
  Config_Log :: cLog
  Config_Database :: cDatabase
  Config_Redis :: cRedis
  Config_Health :: cHealth
  Config_RateLimit :: cRateLimit
  Config_Observability :: cObservability
  Config_Swagger :: cSwagger
  Config_JWT :: cJWT
  Config_Auth :: cAuth
  Config_Authorization :: cAuthorization
  Config_Cron :: cCron
  Config_Migration :: cMigration
  Config_User :: cUser
  Config_Idempotency :: cIdempotency
  Config_Outbound :: cOutbound
  Config_EventBus :: cEventBus
  Config_OperationLog :: cOperationLog

section \<open>Defaults\<close>

text \<open>\<open>setDefaults\<close>, as the configuration that is read from no file and no environment.\<close>

definition default_rate :: "int \<Rightarrow> int \<Rightarrow> cRateLimitRule" where
  "default_rate rate burst = \<lparr>RateLimitRule_Rate = rate, RateLimitRule_Burst = burst,
     RateLimitRule_Period = 60 * second\<rparr>"

definition default_Runtime :: cRuntime where
  "default_Runtime =
    \<lparr>Runtime_ActiveProfile = [], Runtime_ConfigFiles = []\<rparr>"

definition default_App :: cApp where
  "default_App =
    \<lparr>App_Name = ''audit-service'', App_Schema = [], App_Env = ''development'',
    App_ShutdownTimeout = 10 * second\<rparr>"

definition default_HTTP :: cHTTP where
  "default_HTTP =
    \<lparr>HTTP_Address = ''127.0.0.1:8080'', HTTP_ReadTimeout = 10 * second, HTTP_WriteTimeout = 15 *
    second, HTTP_IdleTimeout = 60 * second, HTTP_RequestTimeout = 10 * second, HTTP_MaxBodyBytes =
    1048576, HTTP_TrustedProxies = [], HTTP_CORS = \<lparr>CORS_Enabled = False, CORS_AllowedOrigins =
    [], CORS_AllowedHeaders = [''Authorization'', ''Content-Type'', ''X-Request-ID''],
    CORS_ExposedHeaders = [''X-Request-ID'', ''X-RateLimit-Limit'', ''X-RateLimit-Remaining'',
    ''Retry-After''], CORS_MaxAge = 12 * hour\<rparr>\<rparr>"

definition default_GRPC :: cGRPC where
  "default_GRPC =
    \<lparr>GRPC_Enabled = True, GRPC_Address = ''127.0.0.1:9090'', GRPC_ReflectionEnabled = True,
    GRPC_MaxReceiveBytes = 16777216, GRPC_TLS = \<lparr>GRPCTLS_Enabled = False, GRPCTLS_CertFile = [],
    GRPCTLS_KeyFile = [], GRPCTLS_ClientCAFile = []\<rparr>\<rparr>"

definition default_Log :: cLog where
  "default_Log =
    \<lparr>Log_Level = ''info'', Log_Format = ''json'', Log_File = ''logs/app.log'', Log_MaxSizeMB =
    100, Log_MaxBackups = 10, Log_MaxAgeDays = 30, Log_Compress = True\<rparr>"

definition default_Database :: cDatabase where
  "default_Database =
    \<lparr>Database_Enabled = False, Database_Name = ''platform'', Database_Schema = ''audit'',
    Database_Type = ''postgres'', Database_DSN = [], Database_MaxOpenConns = 25, Database_MaxIdleConns =
    10, Database_ConnMaxLifetime = 5 * 60 * second, Database_ConnMaxIdleTime = 1 * 60 * second,
    Database_PingTimeout = 5 * second\<rparr>"

definition default_Redis :: cRedis where
  "default_Redis =
    \<lparr>Redis_Enabled = False, Redis_Address = ''127.0.0.1:6379'', Redis_Username = [],
    Redis_Password = [], Redis_DB = 0, Redis_DialTimeout = 5 * second, Redis_ReadTimeout = 3 * second,
    Redis_WriteTimeout = 3 * second\<rparr>"

definition default_Health :: cHealth where
  "default_Health =
    \<lparr>Health_DatabaseTimeout = 2 * second, Health_RedisTimeout = 2 * second\<rparr>"

definition default_RateLimit :: cRateLimit where
  "default_RateLimit =
    \<lparr>RateLimit_Enabled = False, RateLimit_FailOpen = False, RateLimit_IP = default_rate 120 30,
    RateLimit_API = default_rate 10000 1000, RateLimit_User = default_rate 600 100, RateLimit_Login =
    default_rate 10 3\<rparr>"

definition default_Observability :: cObservability where
  "default_Observability =
    \<lparr>Observability_MetricsEnabled = True, Observability_TracingEnabled = False,
    Observability_TracingEndpoint = ''http://127.0.0.1:4318'', Observability_TracingSampleRatio =
    Rational (1/10), Observability_PprofEnabled = False, Observability_PprofToken = []\<rparr>"

definition default_Swagger :: cSwagger where
  "default_Swagger =
    \<lparr>Swagger_Enabled = True, Swagger_RequireAuth = False\<rparr>"

definition default_JWT :: cJWT where
  "default_JWT =
    \<lparr>JWT_Issuer = ''audit-service'', JWT_Secret = [], JWT_TTL = 2 * hour\<rparr>"

definition default_Auth :: cAuth where
  "default_Auth =
    \<lparr>Auth_JWKSURL = [], Auth_Issuer = ''identity-service'', Auth_Audience = ''audit-service'',
    Auth_ClientID = [], Auth_ClientSecret = [], Auth_SkipHTTPPaths = [''/api/v1/version''],
    Auth_SkipGRPCMethods = [''/grpc.health.v1.Health/*''], Auth_PSK = \<lparr>PSK_Enabled = False,
    PSK_Key = [], PSK_HTTPPaths = [], PSK_GRPCMethods = []\<rparr>\<rparr>"

definition default_Authorization :: cAuthorization where
  "default_Authorization =
    \<lparr>Authorization_Enabled = False, Authorization_PolicyRefreshInterval = 30 * second\<rparr>"

definition default_Cron :: cCron where
  "default_Cron =
    \<lparr>Cron_Enabled = True, Cron_Timezone = ''Asia/Shanghai'', Cron_SampleSpec =
    ''0 */5 * * * *''\<rparr>"

definition default_Migration :: cMigration where
  "default_Migration =
    \<lparr>Migration_AutoUp = False, Migration_CreateSchema = False, Migration_Path =
    ''migrations/postgres'', Migration_DatabaseURL = [], Migration_Table = ''audit_schema_migrations'',
    Migration_Schema = [], Migration_DatabaseName = []\<rparr>"

definition default_User :: cUser where
  "default_User =
    \<lparr>User_CacheTTL = 5 * 60 * second, User_LockTTL = 10 * second, User_LockRetryDelay = 100 *
    1000000\<rparr>"

definition default_Idempotency :: cIdempotency where
  "default_Idempotency =
    \<lparr>Idempotency_Enabled = False, Idempotency_HTTPPaths = [], Idempotency_GRPCMethods = [],
    Idempotency_ProcessingTTL = 30 * second, Idempotency_ResultTTL = 24 * hour, Idempotency_FailureTTL =
    5 * 60 * second\<rparr>"

definition default_Outbound :: cOutbound where
  "default_Outbound =
    \<lparr>Outbound_HTTP = [], Outbound_GRPC = []\<rparr>"

definition default_EventBus :: cEventBus where
  "default_EventBus =
    \<lparr>EventBus_Enabled = False, EventBus_URLs = [''nats://127.0.0.1:4222''], EventBus_StreamName =
    ''PLATFORM_EVENTS'', EventBus_Subjects = [''platform.>''], EventBus_Storage = ''file'',
    EventBus_MaxAge = 168 * hour, EventBus_DuplicateWindow = 10 * 60 * second, EventBus_ConnectTimeout =
    5 * second, EventBus_ReconnectWait = 1 * second, EventBus_PublishTimeout = 5 * second,
    EventBus_ConsumerAckWait = 30 * second, EventBus_ConsumerMaxDeliver = 10\<rparr>"

definition default_OperationLog :: cOperationLog where
  "default_OperationLog =
    \<lparr>OperationLog_Enabled = False, OperationLog_Subject = ''platform.operation-log.recorded.v1'',
    OperationLog_MaxPayloadBytes = 16384\<rparr>"

definition default_config :: cConfig where
  "default_config = \<lparr>Config_Runtime = default_Runtime, Config_App = default_App, Config_HTTP = default_HTTP, Config_GRPC
    = default_GRPC, Config_Log = default_Log, Config_Database = default_Database, Config_Redis =
    default_Redis, Config_Health = default_Health, Config_RateLimit = default_RateLimit,
    Config_Observability = default_Observability, Config_Swagger = default_Swagger, Config_JWT =
    default_JWT, Config_Auth = default_Auth, Config_Authorization = default_Authorization, Config_Cron =
    default_Cron, Config_Migration = default_Migration, Config_User = default_User, Config_Idempotency =
    default_Idempotency, Config_Outbound = default_Outbound, Config_EventBus = default_EventBus,
    Config_OperationLog = default_OperationLog\<rparr>"

section \<open>Names and patterns\<close>

definition lower_letter :: "char \<Rightarrow> bool" where
  "lower_letter c \<longleftrightarrow> CHR ''a'' \<le> c \<and> c \<le> CHR ''z''"

definition digit :: "char \<Rightarrow> bool" where
  "digit c \<longleftrightarrow> CHR ''0'' \<le> c \<and> c \<le> CHR ''9''"

text \<open>The regular expressions \<open>^[a-z0-9][a-z0-9_-]*$\<close> and \<open>^[a-z][a-z0-9_]{0,62}$\<close>.\<close>

definition valid_profile :: "string \<Rightarrow> bool" where
  "valid_profile s = (case s of
      [] \<Rightarrow> False
    | c # cs \<Rightarrow> (lower_letter c \<or> digit c) \<and>
        list_all (\<lambda>c. lower_letter c \<or> digit c \<or> c = CHR ''_'' \<or> c = CHR ''-'') cs)"

definition valid_migration_table :: "string \<Rightarrow> bool" where
  "valid_migration_table s = (case s of
      [] \<Rightarrow> False
    | c # cs \<Rightarrow> lower_letter c \<and> length cs \<le> 62 \<and>
        list_all (\<lambda>c. lower_letter c \<or> digit c \<or> c = CHR ''_'') cs)"

definition is_db_type :: "string \<Rightarrow> bool" where
  "is_db_type v \<longleftrightarrow> v = ''mysql'' \<or> v = ''postgres'' \<or> v = ''kingbase''"

definition bad_pattern :: goerr where
  "bad_pattern = ErrVar ''syntax error in pattern''"

text \<open>The checks of one path pattern and of one method pattern, for the setting they come from.\<close>

definition matches_target :: "string \<Rightarrow> bool" where
  "matches_target p \<longleftrightarrow> path_match p ''/validation/target'' \<noteq> None"

definition path_checks :: "string \<Rightarrow> string \<Rightarrow> (bool \<times> goerr) list" where
  "path_checks setting p =
     [(\<not> has_prefix p ''/api/'', ErrText (setting @ '' contains path outside /api'')),
      (\<not> matches_target p, ErrWrap (setting @ '' contains invalid pattern'') bad_pattern)]"

definition method_checks :: "string \<Rightarrow> string \<Rightarrow> (bool \<times> goerr) list" where
  "method_checks setting p =
     [(\<not> has_prefix p ''/'' \<or> count_list p (CHR ''/'') \<noteq> 2, ErrText (setting @ '' contains invalid method pattern'')),
      (\<not> matches_target p, ErrWrap (setting @ '' contains invalid pattern'') bad_pattern)]"

section \<open>Validate\<close>

definition retry_checks :: "string \<Rightarrow> string \<Rightarrow> (bool \<times> goerr) list" where
  "retry_checks name p =
     [(\<not> has_prefix p ''/'' \<or> count_list p (CHR ''/'') \<noteq> 2,
        ErrText (''outbound '' @ name @ '' retry method pattern is invalid'')),
      (\<not> matches_target p, ErrWrap (''outbound '' @ name @ '' retry method pattern is invalid'') bad_pattern)]"

definition client_policy_checks :: "string \<Rightarrow> cClientAuth \<Rightarrow> cRetry \<Rightarrow> cBreaker \<Rightarrow> cClientTLS \<Rightarrow> bool
    \<Rightarrow> (bool \<times> goerr) list" where
  "client_policy_checks name auth retry breaker tls production =
     [(ClientAuth_Type auth \<noteq> [] \<and> ClientAuth_Type auth \<noteq> ''bearer'' \<and> ClientAuth_Type auth \<noteq> ''psk'',
         ErrText (''outbound '' @ name @ '' auth.type must be bearer or psk'')),
      (ClientAuth_Type auth \<noteq> [] \<and> ClientAuth_Token auth = [],
         ErrText (''outbound '' @ name @ '' auth.token is required'')),
      (ClientAuth_Type auth \<noteq> [] \<and> \<not> ClientTLS_Enabled tls \<and> \<not> ClientTLS_AllowInsecure tls,
         ErrText (''outbound '' @ name @ '' credentials require TLS or explicit allow_insecure'')),
      (ClientTLS_Enabled tls \<and> ClientTLS_AllowInsecure tls,
         ErrText (''outbound '' @ name @ '' TLS and allow_insecure are mutually exclusive'')),
      (production \<and> ClientAuth_Type auth \<noteq> [] \<and> ClientTLS_AllowInsecure tls,
         ErrText (''production outbound '' @ name @ '' credentials require TLS'')),
      (Retry_MaxAttempts retry < 1 \<or> Retry_MaxAttempts retry > 5 \<or> Retry_InitialBackoff retry \<le> 0 \<or>
         Retry_MaxBackoff retry < Retry_InitialBackoff retry,
         ErrText (''outbound '' @ name @ '' retry policy is invalid''))]
     @ concat (map (retry_checks name) (Retry_Methods retry))
     @ [(Breaker_Enabled breaker \<and> (Breaker_FailureThreshold breaker = 0 \<or> Breaker_OpenTimeout breaker \<le> 0),
           ErrText (''outbound '' @ name @ '' breaker policy is invalid'')),
        (ClientTLS_Enabled tls \<and> (ClientTLS_CertFile tls = []) \<noteq> (ClientTLS_KeyFile tls = []),
           ErrText (''outbound '' @ name @ '' TLS certificate and key must be configured together''))]"

definition validate_client_policy :: "string \<Rightarrow> cClientAuth \<Rightarrow> cRetry \<Rightarrow> cBreaker \<Rightarrow> cClientTLS \<Rightarrow> bool
    \<Rightarrow> goerr option" where
  "validate_client_policy name auth retry breaker tls production =
     first_error (client_policy_checks name auth retry breaker tls production)"

definition http_upstream_checks :: "bool \<Rightarrow> string \<times> cHTTPUpstream \<Rightarrow> (bool \<times> goerr) list" where
  "http_upstream_checks production entry = (case entry of (name, u) \<Rightarrow>
     (HTTPUpstream_BaseURL u = [] \<or> HTTPUpstream_Timeout u \<le> 0,
        ErrText (''outbound.http.'' @ name @ '' requires base_url and positive timeout''))
     # client_policy_checks name (HTTPUpstream_Auth u) (HTTPUpstream_Retry u) (HTTPUpstream_Breaker u)
         (HTTPUpstream_TLS u) production)"

definition grpc_upstream_checks :: "bool \<Rightarrow> string \<times> cGRPCUpstream \<Rightarrow> (bool \<times> goerr) list" where
  "grpc_upstream_checks production entry = (case entry of (name, u) \<Rightarrow>
     (GRPCUpstream_Target u = [] \<or> GRPCUpstream_Timeout u \<le> 0,
        ErrText (''outbound.grpc.'' @ name @ '' requires target and positive timeout''))
     # client_policy_checks name (GRPCUpstream_Auth u) (GRPCUpstream_Retry u) (GRPCUpstream_Breaker u)
         (GRPCUpstream_TLS u) production)"

definition is_production :: "cConfig \<Rightarrow> bool" where
  "is_production c \<longleftrightarrow> App_Env (Config_App c) = ''production''"

text \<open>The checks up to the limits of the rate limiter.\<close>

definition server_checks :: "cConfig \<Rightarrow> (bool \<times> goerr) list" where
  "server_checks c = (let db = Config_Database c; grpc = Config_GRPC c; http = Config_HTTP c;
       mig = Config_Migration c; health = Config_Health c in
     [(\<not> valid_migration_table (Database_Name db),
         ErrText ''database.name must contain lowercase letters, digits, or underscores and be at most 63 characters''),
      (Database_Schema db \<noteq> [] \<and> \<not> valid_migration_table (Database_Schema db),
         ErrText ''database.schema must contain lowercase letters, digits, or underscores and be at most 63 characters''),
      (HTTP_Address http = [], ErrText ''http.address is required''),
      (GRPC_Enabled grpc \<and> (GRPC_Address grpc = [] \<or> GRPC_MaxReceiveBytes grpc \<le> 0),
         ErrText ''enabled grpc requires address and positive max_receive_bytes''),
      (GRPCTLS_Enabled (GRPC_TLS grpc) \<and> (GRPCTLS_CertFile (GRPC_TLS grpc) = [] \<or> GRPCTLS_KeyFile (GRPC_TLS grpc) = []),
         ErrText ''grpc tls requires cert_file and key_file''),
      (is_production c \<and> GRPC_Enabled grpc \<and> \<not> GRPCTLS_Enabled (GRPC_TLS grpc),
         ErrText ''grpc tls must be enabled in production''),
      (is_production c \<and> GRPC_ReflectionEnabled grpc, ErrText ''grpc reflection must be disabled in production''),
      (Database_Enabled db \<and> (Database_DSN db = [] \<or> \<not> is_db_type (Database_Type db)),
         ErrText ''enabled database requires dsn and type mysql, postgres, or kingbase''),
      (Database_Enabled db \<and> map_of (Outbound_GRPC (Config_Outbound c)) ''application'' = None,
         ErrText ''enabled database requires outbound.grpc.application''),
      (Migration_AutoUp mig \<and> (\<not> Database_Enabled db \<or> Migration_Path mig = [] \<or> Migration_DatabaseURL mig = [] \<or>
           \<not> valid_migration_table (Migration_Table mig)),
         ErrText ''migration.auto_up requires enabled database, path, database_url, and a valid service-specific table''),
      (Redis_Enabled (Config_Redis c) \<and> Redis_Address (Config_Redis c) = [], ErrText ''enabled redis requires address''),
      (HTTP_RequestTimeout http \<le> 0 \<or> Health_DatabaseTimeout health \<le> 0 \<or> Health_RedisTimeout health \<le> 0,
         ErrText ''http and health timeouts must be positive''),
      (RateLimit_Enabled (Config_RateLimit c) \<and> \<not> Redis_Enabled (Config_Redis c),
         ErrText ''rate_limit requires redis.enabled'')])"

definition rate_checks :: "cConfig \<Rightarrow> (bool \<times> goerr) list" where
  "rate_checks c = (let rl = Config_RateLimit c in
     if RateLimit_Enabled rl then
       map (\<lambda>(name, rule). (RateLimitRule_Rate rule \<le> 0 \<or> RateLimitRule_Burst rule \<le> 0 \<or> RateLimitRule_Period rule \<le> 0,
            ErrText (''rate_limit.'' @ name @ '' values must be positive'')))
         [(''ip'', RateLimit_IP rl), (''api'', RateLimit_API rl), (''user'', RateLimit_User rl), (''login'', RateLimit_Login rl)]
     else [])"

definition security_checks :: "cConfig \<Rightarrow> (bool \<times> goerr) list" where
  "security_checks c = (let cors = HTTP_CORS (Config_HTTP c); ob = Config_Observability c; sw = Config_Swagger c;
       au = Config_Auth c; az = Config_Authorization c in
     [(CORS_Enabled cors \<and> CORS_AllowedOrigins cors = [],
         ErrText ''cors.allowed_origins is required when cors is enabled''),
      (float_less (Observability_TracingSampleRatio ob) (Rational 0) \<or>
         float_less (Rational 1) (Observability_TracingSampleRatio ob),
         ErrText ''observability.tracing_sample_ratio must be between 0 and 1''),
      (Observability_TracingEnabled ob \<and> Observability_TracingEndpoint ob = [],
         ErrText ''observability.tracing_endpoint is required''),
      (Observability_PprofEnabled ob \<and> length (Observability_PprofToken ob) < 32,
         ErrText ''observability.pprof_token must contain at least 32 bytes''),
      (is_production c \<and> Swagger_Enabled sw \<and> \<not> Swagger_RequireAuth sw,
         ErrText ''swagger.require_auth must be enabled in production''),
      (is_production c \<and> (Auth_JWKSURL au = [] \<or> Auth_Issuer au = [] \<or> Auth_Audience au = []),
         ErrText ''production auth requires jwks_url, issuer, and audience''),
      (is_production c \<and> \<not> Authorization_Enabled az, ErrText ''authorization must be enabled in production''),
      (Authorization_Enabled az \<and> map_of (Outbound_GRPC (Config_Outbound c)) ''authorization'' = None,
         ErrText ''enabled authorization requires outbound.grpc.authorization''),
      (Authorization_Enabled az \<and> Authorization_PolicyRefreshInterval az \<le> 0,
         ErrText ''enabled authorization requires positive policy_refresh_interval''),
      ((Auth_ClientID au \<noteq> [] \<or> Auth_ClientSecret au \<noteq> []) \<and> length (JWT_Secret (Config_JWT c)) < 32,
         ErrText ''jwt.secret must contain at least 32 bytes when auth is enabled'')])"

definition auth_pattern_checks :: "cConfig \<Rightarrow> (bool \<times> goerr) list" where
  "auth_pattern_checks c = (let au = Config_Auth c; psk = Auth_PSK au in
     concat (map (path_checks ''auth.skip_http_paths'') (Auth_SkipHTTPPaths au))
     @ concat (map (method_checks ''auth.skip_grpc_methods'') (Auth_SkipGRPCMethods au))
     @ [(PSK_Enabled psk \<and> (length (PSK_Key psk) < 32 \<or> length (PSK_HTTPPaths psk) + length (PSK_GRPCMethods psk) = 0),
           ErrText ''enabled auth.psk requires a key of at least 32 bytes and at least one route pattern'')]
     @ concat (map (path_checks ''auth.psk.http_paths'') (PSK_HTTPPaths psk))
     @ concat (map (method_checks ''auth.psk.grpc_methods'') (PSK_GRPCMethods psk)))"

definition idempotency_checks :: "cConfig \<Rightarrow> (bool \<times> goerr) list" where
  "idempotency_checks c = (let us = Config_User c; idem = Config_Idempotency c in
     [(User_CacheTTL us \<le> 0 \<or> User_LockTTL us \<le> 0 \<or> User_LockRetryDelay us \<le> 0,
         ErrText ''user cache and lock durations must be positive''),
      (Idempotency_Enabled idem \<and> (\<not> Redis_Enabled (Config_Redis c) \<or>
           length (Idempotency_HTTPPaths idem) + length (Idempotency_GRPCMethods idem) = 0 \<or>
           Idempotency_ProcessingTTL idem \<le> 0 \<or> Idempotency_ResultTTL idem \<le> 0 \<or> Idempotency_FailureTTL idem \<le> 0),
         ErrText ''enabled idempotency requires redis, at least one route pattern, and positive TTL values'')]
     @ concat (map (path_checks ''idempotency.http_paths'') (Idempotency_HTTPPaths idem))
     @ concat (map (method_checks ''idempotency.grpc_methods'') (Idempotency_GRPCMethods idem)))"

definition event_checks :: "cConfig \<Rightarrow> (bool \<times> goerr) list" where
  "event_checks c = (let eb = Config_EventBus c; ol = Config_OperationLog c in
     [(EventBus_Enabled eb \<and> (EventBus_URLs eb = [] \<or> EventBus_StreamName eb = [] \<or> EventBus_Subjects eb = [] \<or>
           (EventBus_Storage eb \<noteq> ''file'' \<and> EventBus_Storage eb \<noteq> ''memory'') \<or> EventBus_MaxAge eb \<le> 0 \<or>
           EventBus_DuplicateWindow eb \<le> 0 \<or> EventBus_ConnectTimeout eb \<le> 0 \<or> EventBus_ReconnectWait eb \<le> 0 \<or>
           EventBus_PublishTimeout eb \<le> 0 \<or> EventBus_ConsumerAckWait eb \<le> 0 \<or> EventBus_ConsumerMaxDeliver eb \<le> 0),
         ErrText ''enabled event_bus requires URLs, stream, subjects, valid storage, positive timeouts, and max deliveries''),
      (OperationLog_Enabled ol \<and> \<not> EventBus_Enabled eb, ErrText ''enabled operation_log requires event_bus''),
      (OperationLog_Enabled ol \<and> (trim_space (OperationLog_Subject ol) = [] \<or> OperationLog_MaxPayloadBytes ol < 256 \<or>
           OperationLog_MaxPayloadBytes ol > 2 ^ 20),
         ErrText ''enabled operation_log requires subject and max_payload_bytes between 256 bytes and 1 MiB'')])"

definition upstream_checks :: "cConfig \<Rightarrow> (bool \<times> goerr) list" where
  "upstream_checks c =
     concat (map (http_upstream_checks (is_production c)) (Outbound_HTTP (Config_Outbound c)))
     @ concat (map (grpc_upstream_checks (is_production c)) (Outbound_GRPC (Config_Outbound c)))"

definition config_checks :: "cConfig \<Rightarrow> (bool \<times> goerr) list" where
  "config_checks c = server_checks c @ rate_checks c @ security_checks c @ auth_pattern_checks c
     @ idempotency_checks c @ event_checks c @ upstream_checks c"

definition validate :: "cConfig \<Rightarrow> goerr option" where
  "validate c = first_error (config_checks c)"

section \<open>Loading\<close>

text \<open>\<open>filepath.Ext\<close>: from the last dot of the last element of the path.\<close>

definition path_ext :: "string \<Rightarrow> string" where
  "path_ext p = (let tail = takeWhile (\<lambda>c. c \<noteq> CHR ''/'' \<and> c \<noteq> CHR ''.'') (rev p) in
     case drop (length tail) (rev p) of
       c # _ \<Rightarrow> if c = CHR ''.'' then CHR ''.'' # rev tail else []
     | [] \<Rightarrow> [])"

definition trim_suffix :: "string \<Rightarrow> string \<Rightarrow> string" where
  "trim_suffix s suf = (if has_suffix s suf then take (length s - length suf) s else s)"

definition profile_config_path :: "string \<Rightarrow> string \<Rightarrow> string" where
  "profile_config_path p profile = trim_suffix p (path_ext p) @ ''-'' @ profile @ path_ext p"

text \<open>The hook that reads a list from one string, as an environment variable gives it.\<close>

definition trim_quotes :: "string \<Rightarrow> string" where
  "trim_quotes s = (let q = (\<lambda>c. c = CHR 0x22 \<or> c = CHR 0x27) in rev (dropWhile q (rev (dropWhile q s))))"

definition string_list_hook :: "string \<Rightarrow> string list" where
  "string_list_hook v = (let raw = trim_space v;
       inner = (if has_prefix raw ''['' \<and> has_suffix raw '']'' then trim_space (take (length raw - 2) (drop 1 raw)) else raw)
     in if inner = [] then [] else map (\<lambda>x. trim_quotes (trim_space x)) (split_on (CHR '','') inner))"

text \<open>
  What Viper and the file system do: reading the first file (and whether its failure is that it was
  not found), the value of \<open>app.env\<close> then, whether the profile's file exists, merging it, and decoding
  what was read from the given files with the profile set.
\<close>

record config_source =
  cs_bind :: "goerr option"
  cs_read :: "string \<Rightarrow> (goerr \<times> bool) option"
  cs_env :: "string \<Rightarrow> string"
  cs_stat :: "string \<Rightarrow> goerr option"
  cs_merge :: "string \<Rightarrow> goerr option"
  cs_decode :: "string list \<Rightarrow> string \<Rightarrow> goerr + cConfig"
  cs_lower :: "string \<Rightarrow> string"

definition ErrNotExist :: goerr where
  "ErrNotExist = ErrVar ''file does not exist''"

text \<open>The files that are read for a profile.\<close>

definition profile_files :: "config_source \<Rightarrow> string \<Rightarrow> string \<Rightarrow> goerr + string list" where
  "profile_files x p profile = (let pp = profile_config_path p profile in
     if pp = p then Inr [p]
     else (case cs_stat x pp of
         None \<Rightarrow> (case cs_merge x pp of
             Some err \<Rightarrow> Inl (ErrWrap ''merge profile config'' err)
           | None \<Rightarrow> Inr [p, pp])
       | Some err \<Rightarrow> if errors_is err ErrNotExist then Inr [p] else Inl (ErrWrap ''inspect profile config'' err)))"

definition finish_load :: "config_source \<Rightarrow> string list \<Rightarrow> string \<Rightarrow> goerr + cConfig" where
  "finish_load x files profile = (case cs_decode x files profile of
      Inl err \<Rightarrow> Inl (ErrWrap ''decode config'' err)
    | Inr cfg0 \<Rightarrow>
        (let cfg = cfg0\<lparr>Config_Migration := (Config_Migration cfg0)\<lparr>
                Migration_Schema := Database_Schema (Config_Database cfg0),
                Migration_DatabaseName := Database_Name (Config_Database cfg0)\<rparr>\<rparr>
         in case validate cfg of
              Some err \<Rightarrow> Inl err
            | None \<Rightarrow> Inr (cfg\<lparr>Config_Runtime := \<lparr>Runtime_ActiveProfile = profile, Runtime_ConfigFiles = files\<rparr>\<rparr>)))"

text \<open>The explicit profile, or the one of the configuration.\<close>

definition select_profile :: "config_source \<Rightarrow> string \<Rightarrow> string \<Rightarrow> string" where
  "select_profile x p explicit = (let chosen = to_lower (cs_lower x) (trim_space explicit) in
     if chosen = [] then to_lower (cs_lower x) (trim_space (cs_env x p)) else chosen)"

definition load_profile :: "config_source \<Rightarrow> string \<Rightarrow> string \<Rightarrow> goerr + cConfig" where
  "load_profile x p explicit = (let profile = select_profile x p explicit in
     if \<not> valid_profile profile then Inl (ErrText ''invalid environment profile'')
     else (case profile_files x p profile of
         Inl err \<Rightarrow> Inl err
       | Inr files \<Rightarrow> finish_load x files profile))"

definition load_with_profile :: "config_source \<Rightarrow> string \<Rightarrow> string \<Rightarrow> goerr + cConfig" where
  "load_with_profile x p explicit = (case cs_bind x of
      Some err \<Rightarrow> Inl (ErrWrap ''bind environment profile'' err)
    | None \<Rightarrow>
        (case cs_read x p of
           Some (err, not_found) \<Rightarrow>
             if p \<noteq> [] \<or> \<not> not_found then Inl (ErrWrap ''read config'' err) else load_profile x p explicit
         | None \<Rightarrow> load_profile x p explicit))"

definition load_config :: "config_source \<Rightarrow> string \<Rightarrow> goerr + cConfig" where
  "load_config x p = load_with_profile x p []"

end
