(* ===== verification/Auth.thy ===== *)
theory Auth
  imports Config Sql_Database
begin

text \<open>
  \<open>internal/auth\<close>: matching against the patterns of the configuration, the pre-shared key, and the
  token service.  The JWT library, the JWKS verifier, the clock and the random identifier are
  parameters.
\<close>

section \<open>pattern.go and psk.go\<close>

definition matches_any :: "string \<Rightarrow> string list \<Rightarrow> bool" where
  "matches_any v patterns \<longleftrightarrow> list_ex (\<lambda>p. path_match p v = Some True) patterns"

definition verify_psk :: "string \<Rightarrow> string \<Rightarrow> bool" where
  "verify_psk authorization expected = (case cut (CHR '' '') authorization of (scheme, supplied, ok) \<Rightarrow>
     if \<not> ok \<or> \<not> equal_fold scheme ''PSK'' \<or> supplied = [] \<or> length supplied \<noteq> length expected then False
     else supplied = expected)"

section \<open>jwt.go\<close>

text \<open>The registered claims the service sets and reads.\<close>

record claims =
  cl_Issuer :: string
  cl_Subject :: string
  cl_ID :: string
  cl_IssuedAt :: time
  cl_NotBefore :: time
  cl_ExpiresAt :: time

text \<open>
  The JWT library with HS256: signing, and parsing with a secret, an issuer that is required and a
  time.  The JWKS verifier, when there is one, and the random identifier.
\<close>

record jwt_library =
  jl_sign :: "string \<Rightarrow> claims \<Rightarrow> goerr + string"
  jl_parse :: "string \<Rightarrow> string \<Rightarrow> time \<Rightarrow> string \<Rightarrow> goerr + claims"
  jl_random :: "goerr + string"

record auth_service =
  as_issuer :: string
  as_secret :: string
  as_ttl :: duration
  as_clientID :: string
  as_clientSecret :: string
  as_verifier :: "(time \<Rightarrow> string \<Rightarrow> goerr + principal) option"

definition new_auth :: "cConfig \<Rightarrow> auth_service" where
  "new_auth cfg = \<lparr>as_issuer = JWT_Issuer (Config_JWT cfg), as_secret = JWT_Secret (Config_JWT cfg),
     as_ttl = JWT_TTL (Config_JWT cfg), as_clientID = Auth_ClientID (Config_Auth cfg),
     as_clientSecret = Auth_ClientSecret (Config_Auth cfg), as_verifier = None\<rparr>"

text \<open>\<open>NewRuntime\<close>; the argument is what \<open>authn.NewJWKSVerifier\<close> makes of URL, issuer and audience.\<close>

definition new_runtime_auth :: "(string \<Rightarrow> string \<Rightarrow> string \<Rightarrow> goerr + (time \<Rightarrow> string \<Rightarrow> goerr + principal))
    \<Rightarrow> cConfig \<Rightarrow> goerr + auth_service" where
  "new_runtime_auth jwks cfg =
     (if Auth_JWKSURL (Config_Auth cfg) = [] then Inr (new_auth cfg)
      else (case jwks (Auth_JWKSURL (Config_Auth cfg)) (Auth_Issuer (Config_Auth cfg)) (Auth_Audience (Config_Auth cfg)) of
          Inl err \<Rightarrow> Inl (ErrWrap ''configure identity token verifier'' err)
        | Inr v \<Rightarrow> Inr ((new_auth cfg)\<lparr>as_verifier := Some v\<rparr>)))"

definition auth_enabled :: "auth_service \<Rightarrow> bool" where
  "auth_enabled s \<longleftrightarrow> length (as_secret s) \<ge> 32 \<and> as_clientID s \<noteq> [] \<and> as_clientSecret s \<noteq> []"

definition authenticate :: "auth_service \<Rightarrow> string \<Rightarrow> string \<Rightarrow> bool" where
  "authenticate s client_id client_secret =
     (if \<not> auth_enabled s then False else client_id = as_clientID s \<and> client_secret = as_clientSecret s)"

definition issue :: "jwt_library \<Rightarrow> time \<Rightarrow> auth_service \<Rightarrow> string \<Rightarrow> goerr + string" where
  "issue lib now s subject =
     (if \<not> auth_enabled s then Inl (ErrText ''authentication is not configured'')
      else (case jl_random lib of
          Inl err \<Rightarrow> Inl (ErrWrap ''create token id'' err)
        | Inr jti \<Rightarrow> jl_sign lib (as_secret s) \<lparr>cl_Issuer = as_issuer s, cl_Subject = subject, cl_ID = jti,
            cl_IssuedAt = now, cl_NotBefore = now, cl_ExpiresAt = now + as_ttl s\<rparr>))"

definition parse_token :: "jwt_library \<Rightarrow> time \<Rightarrow> auth_service \<Rightarrow> string \<Rightarrow> goerr + claims" where
  "parse_token lib now s raw =
     (if \<not> auth_enabled s then Inl (ErrText ''authentication is not configured'')
      else (case jl_parse lib (as_secret s) (as_issuer s) now raw of
          Inl err \<Rightarrow> Inl (ErrWrap ''parse jwt'' err)
        | Inr c \<Rightarrow> Inr c))"

definition verify_token :: "jwt_library \<Rightarrow> time \<Rightarrow> auth_service \<Rightarrow> string \<Rightarrow> goerr + principal" where
  "verify_token lib now s raw = (case as_verifier s of
      Some v \<Rightarrow> v now raw
    | None \<Rightarrow> (case parse_token lib now s raw of
          Inl err \<Rightarrow> Inl err
        | Inr c \<Rightarrow> Inr \<lparr>p_ID = cl_Subject c, p_Type = TypeUser, p_TenantID = []\<rparr>))"

text \<open>The pre-shared key that is accepted.\<close>

lemma verify_psk_iff:
  "verify_psk authorization expected \<longleftrightarrow>
     (\<exists>scheme. authorization = scheme @ CHR '' '' # expected \<and> CHR '' '' \<notin> set scheme \<and>
        equal_fold scheme ''PSK'' \<and> expected \<noteq> [])"
proof
  assume h: "verify_psk authorization expected"
  obtain scheme supplied ok where c: "cut (CHR '' '') authorization = (scheme, supplied, ok)" by (cases "cut (CHR '' '') authorization") auto
  with h have ok: "ok" "equal_fold scheme ''PSK''" "supplied = expected" "supplied \<noteq> []"
    by (auto simp: verify_psk_def split: if_splits)
  with c cut_Some [of "CHR '' ''" authorization scheme supplied]
  show "\<exists>scheme. authorization = scheme @ CHR '' '' # expected \<and> CHR '' '' \<notin> set scheme \<and>
        equal_fold scheme ''PSK'' \<and> expected \<noteq> []" by auto
next
  assume "\<exists>scheme. authorization = scheme @ CHR '' '' # expected \<and> CHR '' '' \<notin> set scheme \<and>
        equal_fold scheme ''PSK'' \<and> expected \<noteq> []"
  then obtain scheme where "authorization = scheme @ CHR '' '' # expected" "CHR '' '' \<notin> set scheme"
    "equal_fold scheme ''PSK''" "expected \<noteq> []" by blast
  then show "verify_psk authorization expected" by (simp add: verify_psk_def)
qed

end
