(* ===== verification/Config_Facts.thy ===== *)
theory Config_Facts
  imports Auth
begin

text \<open>
  What a configuration that passed its checks guarantees, what the defaults are good for, and what
  loading one establishes.
\<close>

section \<open>The groups of checks\<close>

definition all_pass :: "(bool \<times> goerr) list \<Rightarrow> bool" where
  "all_pass cs \<longleftrightarrow> (\<forall>x \<in> set cs. \<not> fst x)"

lemma all_pass_simps [simp]:
  "all_pass []" "all_pass ((b, e) # cs) \<longleftrightarrow> \<not> b \<and> all_pass cs" "all_pass (xs @ ys) \<longleftrightarrow> all_pass xs \<and> all_pass ys"
  by (auto simp: all_pass_def)

lemma all_pass_concat [simp]: "all_pass (concat (map f xs)) \<longleftrightarrow> (\<forall>x \<in> set xs. all_pass (f x))"
  by (auto simp: all_pass_def)

lemma validate_None:
  "validate c = None \<longleftrightarrow> all_pass (server_checks c) \<and> all_pass (rate_checks c) \<and> all_pass (security_checks c) \<and>
     all_pass (auth_pattern_checks c) \<and> all_pass (idempotency_checks c) \<and> all_pass (event_checks c) \<and>
     all_pass (upstream_checks c)"
  by (auto simp: validate_def config_checks_def all_pass_def)

text \<open>Patterns that pass are good for every name.\<close>

lemma matches_target_good: "matches_target p \<longleftrightarrow> good_pattern p"
  unfolding matches_target_def by (rule path_match_good)

lemma path_checks_pass: "all_pass (path_checks setting p) \<longleftrightarrow> has_prefix p ''/api/'' \<and> good_pattern p"
  by (simp add: path_checks_def matches_target_good)

lemma method_checks_pass:
  "all_pass (method_checks setting p) \<longleftrightarrow> has_prefix p ''/'' \<and> count_list p (CHR ''/'') = 2 \<and> good_pattern p"
  by (simp add: method_checks_def matches_target_good)

lemma retry_checks_pass:
  "all_pass (retry_checks name p) \<longleftrightarrow> has_prefix p ''/'' \<and> count_list p (CHR ''/'') = 2 \<and> good_pattern p"
  by (simp add: retry_checks_def matches_target_good)

lemma auth_patterns_pass:
  assumes "all_pass (auth_pattern_checks c)"
  shows "\<And>p. p \<in> set (Auth_SkipHTTPPaths (Config_Auth c)) \<Longrightarrow> has_prefix p ''/api/'' \<and> good_pattern p"
    "\<And>p. p \<in> set (PSK_HTTPPaths (Auth_PSK (Config_Auth c))) \<Longrightarrow> has_prefix p ''/api/'' \<and> good_pattern p"
    "\<And>p. p \<in> set (Auth_SkipGRPCMethods (Config_Auth c)) \<Longrightarrow> has_prefix p ''/'' \<and> good_pattern p"
    "\<And>p. p \<in> set (PSK_GRPCMethods (Auth_PSK (Config_Auth c))) \<Longrightarrow> has_prefix p ''/'' \<and> good_pattern p"
    "PSK_Enabled (Auth_PSK (Config_Auth c)) \<Longrightarrow> 32 \<le> length (PSK_Key (Auth_PSK (Config_Auth c)))"
  using assms by (simp_all add: auth_pattern_checks_def Let_def path_checks_pass method_checks_pass)

lemma idempotency_patterns_pass:
  assumes "all_pass (idempotency_checks c)"
  shows "\<And>p. p \<in> set (Idempotency_HTTPPaths (Config_Idempotency c)) \<Longrightarrow> has_prefix p ''/api/'' \<and> good_pattern p"
    "\<And>p. p \<in> set (Idempotency_GRPCMethods (Config_Idempotency c)) \<Longrightarrow> has_prefix p ''/'' \<and> good_pattern p"
  using assms by (simp_all add: idempotency_checks_def Let_def path_checks_pass method_checks_pass)

section \<open>Production\<close>

text \<open>
  C35. A configuration that passes its checks is safe in production: gRPC only over TLS and without
  reflection, Swagger only behind authentication, tokens verified against the identity service,
  authorization on with its upstream, secrets long enough, and TLS enabled for every outbound client
  that presents a credential. (The scheme of a base URL is not checked: an \<open>http\<close> one is used as it is.)
\<close>

lemma production_is_safe:
  assumes "validate c = None" "is_production c"
  shows "(GRPC_Enabled (Config_GRPC c) \<longrightarrow> GRPCTLS_Enabled (GRPC_TLS (Config_GRPC c)) \<and>
       GRPCTLS_CertFile (GRPC_TLS (Config_GRPC c)) \<noteq> [] \<and> GRPCTLS_KeyFile (GRPC_TLS (Config_GRPC c)) \<noteq> []) \<and>
     \<not> GRPC_ReflectionEnabled (Config_GRPC c) \<and>
     (Swagger_Enabled (Config_Swagger c) \<longrightarrow> Swagger_RequireAuth (Config_Swagger c)) \<and>
     Auth_JWKSURL (Config_Auth c) \<noteq> [] \<and> Authorization_Enabled (Config_Authorization c) \<and>
     map_of (Outbound_GRPC (Config_Outbound c)) ''authorization'' \<noteq> None \<and>
     (Observability_PprofEnabled (Config_Observability c) \<longrightarrow> 32 \<le> length (Observability_PprofToken (Config_Observability c))) \<and>
     (\<forall>u \<in> snd ` set (Outbound_HTTP (Config_Outbound c)). ClientAuth_Type (HTTPUpstream_Auth u) \<noteq> [] \<longrightarrow>
        ClientTLS_Enabled (HTTPUpstream_TLS u)) \<and>
     (\<forall>u \<in> snd ` set (Outbound_GRPC (Config_Outbound c)). ClientAuth_Type (GRPCUpstream_Auth u) \<noteq> [] \<longrightarrow>
        ClientTLS_Enabled (GRPCUpstream_TLS u))"
proof -
  from assms have s: "all_pass (server_checks c)" "all_pass (security_checks c)" "all_pass (upstream_checks c)"
    by (simp_all add: validate_None)
  from s(1) assms(2) have grpc: "(GRPC_Enabled (Config_GRPC c) \<longrightarrow> GRPCTLS_Enabled (GRPC_TLS (Config_GRPC c)) \<and>
       GRPCTLS_CertFile (GRPC_TLS (Config_GRPC c)) \<noteq> [] \<and> GRPCTLS_KeyFile (GRPC_TLS (Config_GRPC c)) \<noteq> [])"
    "\<not> GRPC_ReflectionEnabled (Config_GRPC c)"
    by (simp_all add: server_checks_def Let_def)
  from s(2) assms(2) have sec: "Swagger_Enabled (Config_Swagger c) \<longrightarrow> Swagger_RequireAuth (Config_Swagger c)"
    "Auth_JWKSURL (Config_Auth c) \<noteq> []" "Authorization_Enabled (Config_Authorization c)"
    "map_of (Outbound_GRPC (Config_Outbound c)) ''authorization'' \<noteq> None"
    "Observability_PprofEnabled (Config_Observability c) \<longrightarrow> 32 \<le> length (Observability_PprofToken (Config_Observability c))"
    by (simp_all add: security_checks_def Let_def linorder_not_less)
  from s(3) assms(2) have up:
    "\<forall>u \<in> snd ` set (Outbound_HTTP (Config_Outbound c)). ClientAuth_Type (HTTPUpstream_Auth u) \<noteq> [] \<longrightarrow>
        ClientTLS_Enabled (HTTPUpstream_TLS u)"
    "\<forall>u \<in> snd ` set (Outbound_GRPC (Config_Outbound c)). ClientAuth_Type (GRPCUpstream_Auth u) \<noteq> [] \<longrightarrow>
        ClientTLS_Enabled (GRPCUpstream_TLS u)"
    by (auto simp: upstream_checks_def http_upstream_checks_def grpc_upstream_checks_def client_policy_checks_def)
  from grpc sec up show ?thesis by blast
qed

text \<open>A configuration for production: the defaults with what the checks ask for.\<close>

definition ex_client :: cGRPCUpstream where
  "ex_client = \<lparr>GRPCUpstream_Target = ''authz:9090'', GRPCUpstream_Timeout = 2 * second,
     GRPCUpstream_Auth = \<lparr>ClientAuth_Type = ''psk'', ClientAuth_Token = ''t''\<rparr>,
     GRPCUpstream_Retry = \<lparr>Retry_MaxAttempts = 3, Retry_InitialBackoff = 1, Retry_MaxBackoff = 9, Retry_Methods = []\<rparr>,
     GRPCUpstream_Breaker = \<lparr>Breaker_Enabled = False, Breaker_FailureThreshold = 0, Breaker_OpenTimeout = 0\<rparr>,
     GRPCUpstream_TLS = \<lparr>ClientTLS_Enabled = True, ClientTLS_AllowInsecure = False, ClientTLS_ServerName = [],
       ClientTLS_CAFile = [], ClientTLS_CertFile = [], ClientTLS_KeyFile = []\<rparr>\<rparr>"

definition ex_production :: cConfig where
  "ex_production = default_config\<lparr>Config_App := default_App\<lparr>App_Env := ''production''\<rparr>,
     Config_GRPC := default_GRPC\<lparr>GRPC_ReflectionEnabled := False, GRPC_TLS := (GRPC_TLS default_GRPC)\<lparr>
       GRPCTLS_Enabled := True, GRPCTLS_CertFile := ''c'', GRPCTLS_KeyFile := ''k''\<rparr>\<rparr>,
     Config_Swagger := \<lparr>Swagger_Enabled = True, Swagger_RequireAuth = True\<rparr>,
     Config_Auth := default_Auth\<lparr>Auth_JWKSURL := ''https://identity''\<rparr>,
     Config_Authorization := \<lparr>Authorization_Enabled = True, Authorization_PolicyRefreshInterval = second\<rparr>,
     Config_Outbound := \<lparr>Outbound_HTTP = [], Outbound_GRPC = [(''authorization'', ex_client)]\<rparr>\<rparr>"

lemma production_is_safe_witness:
  "\<not> GRPC_ReflectionEnabled (Config_GRPC ex_production) \<and> Authorization_Enabled (Config_Authorization ex_production) \<and>
   ClientTLS_Enabled (GRPCUpstream_TLS ex_client)"
proof -
  have v: "validate ex_production = None" "is_production ex_production" by code_simp+
  have "ex_client \<in> snd ` set (Outbound_GRPC (Config_Outbound ex_production))"
    "ClientAuth_Type (GRPCUpstream_Auth ex_client) \<noteq> []"
    by (simp_all add: ex_production_def ex_client_def)
  with production_is_safe [OF v] show ?thesis by blast
qed

text \<open>
  The defaults start a development instance and nothing else: they pass the checks, and the
  same settings are refused in production.
\<close>

lemma defaults_are_for_development:
  "validate default_config = None \<and> \<not> is_production default_config \<and>
   validate (default_config\<lparr>Config_App := default_App\<lparr>App_Env := ''production''\<rparr>\<rparr>) =
     Some (ErrText ''grpc tls must be enabled in production'')"
  by code_simp


section \<open>Patterns\<close>

definition http_patterns :: "cConfig \<Rightarrow> string list" where
  "http_patterns c = Auth_SkipHTTPPaths (Config_Auth c) @ PSK_HTTPPaths (Auth_PSK (Config_Auth c))
     @ Idempotency_HTTPPaths (Config_Idempotency c)"

lemma matches_any_prefix:
  assumes "matches_any route patterns" "\<forall>p \<in> set patterns. has_prefix p pre" "list_all literal pre"
  shows "has_prefix route pre"
proof -
  obtain p where p: "p \<in> set patterns" "path_match p route = Some True"
    using assms(1) by (auto simp: matches_any_def list_ex_iff)
  then obtain rest where "p = pre @ rest" using assms(2) has_prefix_iff by blast
  with p(2) path_match_prefix assms(3) show ?thesis by blast
qed

text \<open>
  The patterns of a configuration that passed its checks are all usable and stay inside the API:
  none of them is bad for any route, and a route one of the HTTP lists matches lies under /api/, so
  that no such list can open, or replay, a route outside it.
\<close>

lemma patterns_stay_in_api:
  assumes "validate c = None"
  shows "(\<forall>p \<in> set (http_patterns c). \<forall>route. path_match p route \<noteq> None) \<and>
    (matches_any route (http_patterns c) \<longrightarrow> has_prefix route ''/api/'')"
proof -
  from assms have a: "all_pass (auth_pattern_checks c)" "all_pass (idempotency_checks c)"
    by (simp_all add: validate_None)
  have p: "\<forall>p \<in> set (http_patterns c). has_prefix p ''/api/'' \<and> good_pattern p"
    using auth_patterns_pass(1,2) [OF a(1)] idempotency_patterns_pass(1) [OF a(2)]
    unfolding http_patterns_def set_append by blast
  have l: "list_all literal ''/api/''" by code_simp
  have "has_prefix route ''/api/''" if m: "matches_any route (http_patterns c)"
    by (rule matches_any_prefix [OF m _ l]) (use p in blast)
  with p path_match_good show ?thesis by blast
qed

lemma patterns_stay_in_api_witness:
  "matches_any ''/api/v1/version'' (http_patterns default_config) \<and> has_prefix ''/api/v1/version'' ''/api/''"
proof -
  have "validate default_config = None" "matches_any ''/api/v1/version'' (http_patterns default_config)"
    by code_simp+
  with patterns_stay_in_api [OF this(1), of "''/api/v1/version''"] show ?thesis by blast
qed

section \<open>Load\<close>

lemma validate_runtime: "validate (c\<lparr>Config_Runtime := r\<rparr>) = validate c"
  by (simp add: validate_def config_checks_def server_checks_def rate_checks_def security_checks_def
      auth_pattern_checks_def idempotency_checks_def event_checks_def upstream_checks_def is_production_def)

lemma finish_load_Inr:
  assumes "finish_load x files profile = Inr cfg"
  shows "validate cfg = None" "Config_Runtime cfg = \<lparr>Runtime_ActiveProfile = profile, Runtime_ConfigFiles = files\<rparr>"
    "Migration_Schema (Config_Migration cfg) = Database_Schema (Config_Database cfg)"
    "Migration_DatabaseName (Config_Migration cfg) = Database_Name (Config_Database cfg)"
  using assms by (auto simp: finish_load_def Let_def validate_runtime split: sum.splits option.splits)

lemma load_with_profile_Inr:
  assumes "load_with_profile x p explicit = Inr cfg"
  obtains files where "valid_profile (select_profile x p explicit)"
    "files \<in> {[p], [p, profile_config_path p (select_profile x p explicit)]}"
    "finish_load x files (select_profile x p explicit) = Inr cfg"
proof -
  let ?profile = "select_profile x p explicit"
  from assms have l: "load_profile x p explicit = Inr cfg"
    by (auto simp: load_with_profile_def split: option.splits prod.splits if_splits)
  then have v: "valid_profile ?profile" by (auto simp: load_profile_def Let_def split: if_splits)
  with l obtain files where f: "profile_files x p ?profile = Inr files" "finish_load x files ?profile = Inr cfg"
    by (auto simp: load_profile_def Let_def split: sum.splits)
  from f(1) have "files \<in> {[p], [p, profile_config_path p ?profile]}"
    by (auto simp: profile_files_def Let_def split: if_splits option.splits)
  with v f(2) that show thesis by blast
qed

lemma load_with_profile_valid: "load_with_profile x p explicit = Inr cfg \<Longrightarrow> validate cfg = None"
  by (erule load_with_profile_Inr) (rule finish_load_Inr)

text \<open>
  A configuration that loads is one that passed its checks, under a well-formed profile in lower
  case that the caller chose or the settings name, with the schema and database of the migrations those
  of the database, read from the file given and at most the profile's file beside it.
\<close>

lemma load_establishes:
  assumes "load_with_profile x p explicit = Inr cfg"
  shows "validate cfg = None \<and> valid_profile (Runtime_ActiveProfile (Config_Runtime cfg)) \<and>
    Runtime_ActiveProfile (Config_Runtime cfg) = select_profile x p explicit \<and>
    Migration_Schema (Config_Migration cfg) = Database_Schema (Config_Database cfg) \<and>
    Migration_DatabaseName (Config_Migration cfg) = Database_Name (Config_Database cfg) \<and>
    Runtime_ConfigFiles (Config_Runtime cfg) \<in> {[p], [p, profile_config_path p (select_profile x p explicit)]}"
proof -
  from assms obtain files where f: "valid_profile (select_profile x p explicit)"
    "files \<in> {[p], [p, profile_config_path p (select_profile x p explicit)]}"
    "finish_load x files (select_profile x p explicit) = Inr cfg" by (rule load_with_profile_Inr)
  with finish_load_Inr [OF f(3)] show ?thesis by simp
qed

definition ex_source :: config_source where
  "ex_source = \<lparr>cs_bind = None, cs_read = (\<lambda>p. None), cs_env = (\<lambda>p. '' Production ''), cs_stat = (\<lambda>p. Some ErrNotExist),
     cs_merge = (\<lambda>p. None), cs_decode = (\<lambda>files profile. Inr ex_production), cs_lower = (\<lambda>s. s)\<rparr>"

lemma load_establishes_witness:
  "case load_with_profile ex_source ''config/config.yaml'' [] of
     Inl _ \<Rightarrow> False
   | Inr cfg \<Rightarrow> Runtime_ActiveProfile (Config_Runtime cfg) = ''production''"
proof -
  have "case load_with_profile ex_source ''config/config.yaml'' [] of Inl _ \<Rightarrow> False | Inr cfg \<Rightarrow> True" by code_simp
  then obtain cfg where cfg: "load_with_profile ex_source ''config/config.yaml'' [] = Inr cfg" by (auto split: sum.splits)
  moreover have "select_profile ex_source ''config/config.yaml'' [] = ''production''" by code_simp
  ultimately show ?thesis using load_establishes [OF cfg] by simp
qed

section \<open>Lists from the environment\<close>

text \<open>A list element that survives: no comma, no quote or white space at its ends, not empty.\<close>

definition plain_byte :: "char \<Rightarrow> bool" where
  "plain_byte c \<longleftrightarrow> of_char c < (128 :: nat) \<and> of_char c > (32 :: nat) \<and> c \<noteq> CHR '','' \<and> c \<noteq> CHR 0x22 \<and>
     c \<noteq> CHR 0x27 \<and> c \<noteq> CHR ''['' \<and> c \<noteq> CHR '']''"

definition plain_value :: "string \<Rightarrow> bool" where
  "plain_value s \<longleftrightarrow> s \<noteq> [] \<and> list_all plain_byte s"

definition visible :: "char \<Rightarrow> bool" where
  "visible c \<longleftrightarrow> of_char c < (128 :: nat) \<and> of_char c > (32 :: nat)"

lemma strip_token_other: "t \<noteq> [] \<Longrightarrow> hd t \<noteq> c \<Longrightarrow> strip_token t (c # cs) = None"
  by (cases t rule: list.exhaust [of _ "strip_token t (c # cs) = None"]; cases "tl t") auto

lemma strip_first_other: "\<forall>t \<in> set ts. t \<noteq> [] \<and> hd t \<noteq> c \<Longrightarrow> strip_first ts (c # cs) = None"
  by (induction ts) (simp_all add: strip_token_other)

lemma white_spaces_invisible:
  "\<forall>t \<in> set white_spaces. t \<noteq> [] \<and> \<not> visible (hd t)" "\<forall>t \<in> set (map rev white_spaces). t \<noteq> [] \<and> \<not> visible (hd t)"
  by code_simp+

lemma trim_left_visible:
  assumes "\<forall>t \<in> set ts. t \<noteq> [] \<and> \<not> visible (hd t)" "list_all visible s"
  shows "trim_left ts s = s"
proof (rule trim_left_fix, cases s)
  case (Cons c cs)
  with assms have "\<forall>t \<in> set ts. t \<noteq> [] \<and> hd t \<noteq> c" by auto
  from strip_first_other [OF this] Cons show "strip_first ts s = None" by simp
next
  case Nil
  have "strip_token t [] = None" if "t \<noteq> []" for t using that by (cases t) auto
  then have "\<forall>t \<in> set ts. t \<noteq> [] \<and> \<not> visible (hd t) \<Longrightarrow> strip_first ts [] = None" by (induction ts) simp_all
  with assms(1) Nil show "strip_first ts s = None" by simp
qed

lemma trim_space_visible: "list_all visible s \<Longrightarrow> trim_space s = s"
  using trim_left_visible [OF white_spaces_invisible(1), of s] trim_left_visible [OF white_spaces_invisible(2), of "rev s"]
  by (simp add: trim_space_def list_all_iff)

lemma split_on_other: "c \<notin> set v \<Longrightarrow> split_on c v = [v]"
  by (induction v) auto

lemma split_on_append: "c \<notin> set v \<Longrightarrow> split_on c (v @ c # s) = v # split_on c s"
  by (induction v) auto

lemma split_on_join: "\<forall>v \<in> set vs. c \<notin> set v \<Longrightarrow> vs \<noteq> [] \<Longrightarrow> split_on c (join [c] vs) = vs"
  by (induction "[c]" vs rule: join.induct) (auto simp: split_on_other split_on_append)

lemma plain_value_simps:
  assumes "plain_value v"
  shows "list_all visible v" "CHR '','' \<notin> set v" "trim_space v = v" "trim_quotes v = v" "v \<noteq> []" "hd v \<noteq> CHR ''[''"
proof -
  show v: "list_all visible v" "CHR '','' \<notin> set v" "v \<noteq> []" "hd v \<noteq> CHR ''[''"
    using assms by (auto simp: plain_value_def plain_byte_def visible_def list_all_iff)
  show "trim_space v = v" using v(1) by (rule trim_space_visible)
  have "hd v \<noteq> CHR 0x22" "hd v \<noteq> CHR 0x27" "last v \<noteq> CHR 0x22" "last v \<noteq> CHR 0x27"
    using assms by (auto simp: plain_value_def plain_byte_def list_all_iff)
  then have "dropWhile (\<lambda>c. c = CHR 0x22 \<or> c = CHR 0x27) v = v" "dropWhile (\<lambda>c. c = CHR 0x22 \<or> c = CHR 0x27) (rev v) = rev v"
    using v(3) by (simp_all add: dropWhile_eq_self_iff hd_rev)
  then show "trim_quotes v = v" by (simp add: trim_quotes_def)
qed

lemma join_plain:
  assumes "list_all plain_value vs" "vs \<noteq> []"
  shows "list_all visible (join '','' vs)" "join '','' vs \<noteq> []" "hd (join '','' vs) \<noteq> CHR ''[''"
proof -
  show "list_all visible (join '','' vs)"
    using assms(1) by (induction "'',''" vs rule: join.induct) (auto simp: plain_value_simps visible_def)
  show "join '','' vs \<noteq> []" "hd (join '','' vs) \<noteq> CHR ''[''"
  proof -
    obtain v rest where "vs = v # rest" using assms(2) by (cases vs) auto
    then obtain t where "join '','' vs = v @ t" "plain_value v" using assms(1) by (cases rest) auto
    with plain_value_simps(5,6) show "join '','' vs \<noteq> []" "hd (join '','' vs) \<noteq> CHR ''[''" by auto
  qed
qed

text \<open>
  A list written into one environment variable is read back: for elements without separators,
  quotes and brackets, the hook gives the list from the bracketed form, as JSON or YAML users write it,
  and from the bare one.
\<close>

lemma string_list_roundtrip:
  assumes "list_all plain_value vs" "vs \<noteq> []"
  shows "string_list_hook (''['' @ join '','' vs @ '']'') = vs \<and> string_list_hook (join '','' vs) = vs"
proof -
  let ?j = "join '','' vs"
  note j = join_plain [OF assms]
  have vs: "\<forall>v \<in> set vs. CHR '','' \<notin> set v \<and> trim_quotes (trim_space v) = v"
    using assms(1) by (auto simp: list_all_iff plain_value_simps)
  then have "map (\<lambda>x. trim_quotes (trim_space x)) (split_on (CHR '','') ?j) = vs"
    using split_on_join [of vs "CHR '',''"] assms(2) by (simp add: map_idI)
  moreover have "trim_space ?j = ?j" by (rule trim_space_visible [OF j(1)])
  moreover have "list_all visible (''['' @ ?j @ '']'')" using j(1) by (simp add: visible_def)
  then have "trim_space (''['' @ ?j @ '']'') = ''['' @ ?j @ '']''" by (rule trim_space_visible)
  moreover have "\<not> has_prefix ?j ''[''" using j(2,3) by (cases ?j) (simp_all add: has_prefix_def)
  moreover have "has_prefix (''['' @ ?j @ '']'') ''[''" "has_suffix (''['' @ ?j @ '']'') '']''"
    by (simp_all add: has_prefix_def has_suffix_def)
  ultimately show ?thesis using j(2) by (simp add: string_list_hook_def)
qed

lemma string_list_roundtrip_witness:
  "string_list_hook ''[/api/v1/a,/api/v1/b]'' = [''/api/v1/a'', ''/api/v1/b'']"
proof -
  have "list_all plain_value [''/api/v1/a'', ''/api/v1/b'']" by code_simp
  from string_list_roundtrip [OF this] show ?thesis by simp
qed

section \<open>Tokens\<close>

text \<open>
  A token the service issues lets its subject in until it expires, and nobody after: given a JWT
  library that reads back the claims it signed with the same secret exactly while they are valid for the
  issuer, a token issued to a subject verifies as the user of that name between its issue and its
  expiry, and is refused later.
\<close>

lemma issued_token_verifies:
  assumes "issue lib now s subject = Inr raw" "as_verifier s = None"
    and "\<And>c t. jl_sign lib (as_secret s) c = Inr raw \<Longrightarrow>
      jl_parse lib (as_secret s) (cl_Issuer c) t raw =
        (if cl_NotBefore c \<le> t \<and> cl_IssuedAt c \<le> t \<and> t < cl_ExpiresAt c then Inr c
         else Inl (ErrText ''token has invalid claims''))"
  shows "(now \<le> t \<and> t < now + as_ttl s \<longrightarrow>
      verify_token lib t s raw = Inr \<lparr>p_ID = subject, p_Type = TypeUser, p_TenantID = []\<rparr>) \<and>
    (now + as_ttl s \<le> t \<longrightarrow> (\<exists>err. verify_token lib t s raw = Inl err))"
proof -
  from assms(1) obtain jti where e: "auth_enabled s" and sg: "jl_sign lib (as_secret s) \<lparr>cl_Issuer = as_issuer s,
      cl_Subject = subject, cl_ID = jti, cl_IssuedAt = now, cl_NotBefore = now, cl_ExpiresAt = now + as_ttl s\<rparr> = Inr raw"
    by (auto simp: issue_def split: if_splits sum.splits)
  from assms(3) [OF sg] e assms(2) show ?thesis by (simp add: verify_token_def parse_token_def)
qed

text \<open>A library that signs the claims of one token only.\<close>

definition ex_claims :: claims where
  "ex_claims = \<lparr>cl_Issuer = ''audit-service'', cl_Subject = ''alice'', cl_ID = ''id'', cl_IssuedAt = 5, cl_NotBefore = 5,
     cl_ExpiresAt = 5 + 2 * hour\<rparr>"

definition ex_jwt :: jwt_library where
  "ex_jwt = \<lparr>jl_sign = (\<lambda>secret c. if c = ex_claims then Inr ''token'' else Inl (ErrText ''not signed'')),
     jl_parse = (\<lambda>secret issuer now raw.
       if raw = ''token'' \<and> issuer = ''audit-service'' \<and> 5 \<le> now \<and> now < 5 + 2 * hour then Inr ex_claims
       else Inl (ErrText ''token has invalid claims'')), jl_random = Inr ''id''\<rparr>"

definition ex_auth :: auth_service where
  "ex_auth = (new_auth default_config)\<lparr>as_secret := replicate 32 (CHR ''s''), as_clientID := ''c'', as_clientSecret := ''s''\<rparr>"

lemma issued_token_verifies_witness:
  "verify_token ex_jwt 7 ex_auth ''token'' = Inr \<lparr>p_ID = ''alice'', p_Type = TypeUser, p_TenantID = []\<rparr>"
proof -
  have i: "issue ex_jwt 5 ex_auth ''alice'' = Inr ''token''" "as_verifier ex_auth = None" "as_ttl ex_auth = 2 * hour"
    by code_simp+
  have "jl_parse ex_jwt (as_secret ex_auth) (cl_Issuer c) t ''token'' =
      (if cl_NotBefore c \<le> t \<and> cl_IssuedAt c \<le> t \<and> t < cl_ExpiresAt c then Inr c
       else Inl (ErrText ''token has invalid claims''))"
    if "jl_sign ex_jwt (as_secret ex_auth) c = Inr ''token''" for c t
    using that by (auto simp: ex_jwt_def ex_claims_def split: if_splits)
  from issued_token_verifies [OF i(1,2) this, of 7] i(3) show ?thesis by (simp add: hour_def second_def)
qed

end
