(* ===== verification/Http_Context.thy ===== *)
theory Http_Context
  imports Auth Audit_Service
begin

text \<open>
  What a request is to the HTTP side of the service: the context the Gin router hands from one
  middleware to the next, the answer, \<open>internal/transport/http/response.go\<close>,
  \<open>internal/requestid\<close> and the rate limiter of \<open>internal/ratelimit\<close>.

  A handler takes the context and the state of the service and gives the answer it wrote, or the
  headers it had set when it wrote nothing or panicked.  A middleware takes the handlers behind it
  (\<open>c.Next\<close>) and is a handler; one that aborts does not call them.
\<close>

section \<open>Requests and answers\<close>

record ('b) envelope =
  ev_Code :: errcode
  ev_Message :: string
  ev_Body :: "'b option"
  ev_RequestID :: string

type_synonym headers = "(string \<times> string) list"

record 'b response =
  rs_status :: nat
  rs_headers :: headers
  rs_body :: "'b envelope option"

datatype 'b outcome_of = Replied "'b response" | Unwritten headers | Panicked headers

text \<open>
  The context: the request (\<open>FullPath\<close> is the pattern of the route that matched), what the
  middlewares have put into it, the headers already set for the answer and the limit on the body.
\<close>

record request_context =
  rc_Method :: string
  rc_FullPath :: string
  rc_Header :: "string \<Rightarrow> string"
  rc_Body :: string
  rc_ContentLength :: int
  rc_ClientIP :: string
  rc_TLS :: bool
  rc_limit :: "int option"
  rc_request_id :: string
  rc_environment :: "string option"
  rc_idempotency :: "string option"
  rc_subject :: "string option"
  rc_principal :: "principal option"
  rc_credential :: "string option"
  rc_out :: headers

type_synonym ('w, 'b) handler = "request_context \<Rightarrow> 'w \<Rightarrow> 'b outcome_of \<times> 'w"
type_synonym ('w, 'b) middleware = "('w, 'b) handler \<Rightarrow> ('w, 'b) handler"

definition set_header :: "string \<Rightarrow> string \<Rightarrow> request_context \<Rightarrow> request_context" where
  "set_header k v c = c\<lparr>rc_out := filter (\<lambda>(k', _). k' \<noteq> k) (rc_out c) @ [(k, v)]\<rparr>"

lemma set_header_simps [simp]:
  "rc_FullPath (set_header k v c) = rc_FullPath c" "rc_Method (set_header k v c) = rc_Method c"
  "rc_Header (set_header k v c) = rc_Header c" "rc_request_id (set_header k v c) = rc_request_id c"
  "rc_principal (set_header k v c) = rc_principal c" "rc_subject (set_header k v c) = rc_subject c"
  "rc_credential (set_header k v c) = rc_credential c" "rc_idempotency (set_header k v c) = rc_idempotency c"
  "rc_Body (set_header k v c) = rc_Body c" "rc_limit (set_header k v c) = rc_limit c"
  "rc_ClientIP (set_header k v c) = rc_ClientIP c" "rc_ContentLength (set_header k v c) = rc_ContentLength c"
  by (simp_all add: set_header_def)

text \<open>Reading the body, which \<open>MaxBytesReader\<close> limits.\<close>

definition read_body :: "request_context \<Rightarrow> goerr + string" where
  "read_body c = (case rc_limit c of
      Some n \<Rightarrow> if int (length (rc_Body c)) > n then Inl (ErrText ''http: request body too large'') else Inr (rc_Body c)
    | None \<Rightarrow> Inr (rc_Body c))"

section \<open>response.go\<close>

definition reply :: "request_context \<Rightarrow> nat \<Rightarrow> errcode \<Rightarrow> string \<Rightarrow> 'b option \<Rightarrow> 'b outcome_of" where
  "reply c status code message body = Replied \<lparr>rs_status = status, rs_headers = rc_out c,
     rs_body = Some \<lparr>ev_Code = code, ev_Message = message, ev_Body = body, ev_RequestID = rc_request_id c\<rparr>\<rparr>"

definition ok_reply :: "request_context \<Rightarrow> 'b \<Rightarrow> 'b outcome_of" where
  "ok_reply c body = reply c 200 CodeOK ''success'' (Some body)"

text \<open>\<open>Fail\<close>; what it logs for a server error is not modelled.\<close>

definition fail_reply :: "request_context \<Rightarrow> goerr \<Rightarrow> 'b outcome_of" where
  "fail_reply c err = (case errors_as_app err of
      Some (AppErr code message status inner) \<Rightarrow> reply c status code message None
    | _ \<Rightarrow> (case app_internal (Some err) of AppErr code message status inner \<Rightarrow> reply c status code message None))"

lemma fail_reply_eq: "fail_reply c err = reply c (err_status err) (err_code err) (err_message err) None"
proof (cases "errors_as_app err")
  case None
  then show ?thesis by (simp add: fail_reply_def app_error_defs err_status_def err_code_def err_message_def)
next
  case (Some a)
  then obtain code m n i where "a = AppErr code m n i" by (rule errors_as_app_SomeD)
  with Some show ?thesis by (simp add: fail_reply_def err_status_def err_code_def err_message_def)
qed

lemma reply_replied [simp]:
  "reply c n code m b \<noteq> Panicked out" "reply c n code m b \<noteq> Unwritten out"
  "fail_reply c e \<noteq> Panicked out" "fail_reply c e \<noteq> Unwritten out"
  by (simp_all add: fail_reply_eq reply_def)

section \<open>requestid.go\<close>

definition allowed_character :: "char \<Rightarrow> bool" where
  "allowed_character c \<longleftrightarrow> char_between (CHR ''a'') (CHR ''z'') c \<or> char_between (CHR ''A'') (CHR ''Z'') c \<or>
     char_between (CHR ''0'') (CHR ''9'') c \<or> c \<in> set ''-_.''"

definition valid_request_id :: "string \<Rightarrow> bool" where
  "valid_request_id v \<longleftrightarrow> v \<noteq> [] \<and> length v \<le> 128 \<and> list_all allowed_character v"

definition hex_digit :: "nat \<Rightarrow> char" where
  "hex_digit n = (if n < 10 then char_of (48 + n) else char_of (87 + n))"

definition hex_encode :: "string \<Rightarrow> string" where
  "hex_encode s = concat (map (\<lambda>c. [hex_digit (of_char c div 16), hex_digit (of_char c mod 16)]) s)"

text \<open>\<open>Generate\<close>, from what \<open>crypto/rand\<close> gives and the nanoseconds of the clock.\<close>

definition generate_request_id :: "goerr + string \<Rightarrow> int \<Rightarrow> string" where
  "generate_request_id random nanos = (case random of
      Inl err \<Rightarrow> ''fallback-'' @ show_int nanos
    | Inr bytes \<Rightarrow> hex_encode bytes)"

lemma hex_digit_allowed: "n < 16 \<Longrightarrow> allowed_character (hex_digit n)"
proof -
  have "\<forall>n \<in> {0..<16}. allowed_character (hex_digit n)" by code_simp
  then show "n < 16 \<Longrightarrow> allowed_character (hex_digit n)" by simp
qed

lemma hex_encode_allowed: "list_all allowed_character (hex_encode s)"
proof (induction s)
  case (Cons c s)
  have "of_char c < (256 :: nat)" using of_char_mod_256 [of c, where 'a = nat] by (metis mod_less_divisor zero_less_numeral)
  then have "of_char c div 16 < (16 :: nat)" by (simp add: less_mult_imp_div_less)
  with Cons show ?case by (simp add: hex_encode_def hex_digit_allowed)
qed (simp add: hex_encode_def)

lemma hex_encode_length: "length (hex_encode s) = 2 * length s"
  by (induction s) (simp_all add: hex_encode_def)

lemma show_nat_allowed: "list_all allowed_character (show_nat n)"
proof (induction n rule: show_nat.induct)
  case (1 n)
  have d: "\<forall>n \<in> {0..<10}. allowed_character (char_of (48 + n :: nat))" by code_simp
  then have "allowed_character (char_of (48 + n mod 10))" by simp
  with 1 d show ?case by (subst show_nat.simps) simp
qed

lemma show_nat_length: "n < 10 ^ k \<Longrightarrow> 0 < k \<Longrightarrow> length (show_nat n) \<le> k"
proof (induction n arbitrary: k rule: show_nat.induct)
  case (1 n)
  show ?case
  proof (cases "n < 10")
    case True
    with 1(3) show ?thesis by (subst show_nat.simps) simp
  next
    case False
    then have k: "1 < k" using 1(2,3) by (cases "k = 1") auto
    then have "n div 10 < 10 ^ (k - 1)" using 1(2) by (simp add: less_mult_imp_div_less power_eq_if)
    with 1(1) [OF False, of "k - 1"] k False show ?thesis by (subst show_nat.simps) simp
  qed
qed

lemma show_nat_nonempty [simp]: "show_nat n \<noteq> []"
  by (subst show_nat.simps) simp

lemma generated_id_valid:
  assumes "\<And>bytes. random = Inr bytes \<Longrightarrow> length bytes = 16" "\<bar>nanos\<bar> < 10 ^ 100"
  shows "valid_request_id (generate_request_id random nanos)"
proof (cases random)
  case (Inl err)
  have "nat \<bar>nanos\<bar> < 10 ^ 100" using assms(2) by (simp add: nat_less_iff)
  then have "length (show_nat (nat \<bar>nanos\<bar>)) \<le> 100" by (rule show_nat_length) simp
  moreover have "allowed_character (CHR ''-'')" "list_all allowed_character ''fallback-''" by code_simp+
  ultimately have "list_all allowed_character (''fallback-'' @ show_int nanos) \<and> length (''fallback-'' @ show_int nanos) \<le> 128"
    by (auto simp: show_int_def show_nat_allowed)
  then show ?thesis using Inl by (simp add: generate_request_id_def valid_request_id_def)
next
  case (Inr bytes)
  have "hex_encode bytes \<noteq> []" using assms(1) [OF Inr] hex_encode_length [of bytes] by auto
  with Inr assms(1) hex_encode_allowed [of bytes] hex_encode_length [of bytes] show ?thesis
    by (simp add: generate_request_id_def valid_request_id_def)
qed

section \<open>limiter.go\<close>

text \<open>What the Redis script of the library answers, and what the service makes of it.\<close>

record backend_result =
  br_Allowed :: int
  br_Remaining :: int
  br_RetryAfter :: duration

record limit_result =
  lr_Allowed :: bool
  lr_Limit :: int
  lr_Remaining :: int
  lr_RetryAfter :: duration

record 'w limiter =
  li_enabled :: bool
  li_failOpen :: bool
  li_backend :: "(string \<Rightarrow> cRateLimitRule \<Rightarrow> 'w \<Rightarrow> (goerr + backend_result) \<times> 'w) option"

definition new_limiter :: "(string \<Rightarrow> cRateLimitRule \<Rightarrow> 'w \<Rightarrow> (goerr + backend_result) \<times> 'w) option \<Rightarrow> cConfig \<Rightarrow> 'w limiter" where
  "new_limiter backend cfg = \<lparr>li_enabled = RateLimit_Enabled (Config_RateLimit cfg),
     li_failOpen = RateLimit_FailOpen (Config_RateLimit cfg), li_backend = backend\<rparr>"

definition limiter_allow :: "'w limiter \<Rightarrow> string \<Rightarrow> cRateLimitRule \<Rightarrow> 'w \<Rightarrow> (goerr + limit_result) \<times> 'w" where
  "limiter_allow l key rule w =
     (if \<not> li_enabled l then (Inr \<lparr>lr_Allowed = True, lr_Limit = 0, lr_Remaining = 0, lr_RetryAfter = 0\<rparr>, w)
      else (case li_backend l of
          None \<Rightarrow> (Inl (ErrText ''redis rate limiter is unavailable''), w)
        | Some allow \<Rightarrow> (case allow key rule w of
              (Inl err, w1) \<Rightarrow> (Inl (ErrWrap ''check redis rate limit'' err), w1)
            | (Inr r, w1) \<Rightarrow> (Inr \<lparr>lr_Allowed = br_Allowed r > 0, lr_Limit = RateLimitRule_Burst rule,
                lr_Remaining = br_Remaining r, lr_RetryAfter = br_RetryAfter r\<rparr>, w1))))"

end
