(* ===== verification/Http_Middleware.thy ===== *)
theory Http_Middleware
  imports Http_Context
begin

text \<open>
  \<open>internal/transport/http/middleware.go\<close>: every middleware of the HTTP side except the access
  logger and the metrics, which only observe.  The platform's idempotency store, operation recorder,
  authorizer and policy evaluation, the media type parser and the hash are arguments.
\<close>

section \<open>Identity of the request\<close>

definition request_id_mw :: "string \<Rightarrow> ('w, 'b) middleware" where
  "request_id_mw generated next c w =
     (let given = rc_Header c ''X-Request-ID'';
          ident = (if \<not> valid_request_id given then generated else given)
      in next ((set_header ''X-Request-ID'' ident c)\<lparr>rc_request_id := ident\<rparr>) w)"

definition environment_mw :: "string \<Rightarrow> ('w, 'b) middleware" where
  "environment_mw profile next c w = next (c\<lparr>rc_environment := Some profile\<rparr>) w"

definition idempotency_key_mw :: "(string \<Rightarrow> bool) \<Rightarrow> ('w, 'b) middleware" where
  "idempotency_key_mw valid next c w =
     (let key = rc_Header c ''Idempotency-Key'' in
      if key = [] then next c w
      else if \<not> valid key then (fail_reply c (app_invalid ''invalid Idempotency-Key'' None), w)
      else next ((set_header ''Idempotency-Key'' key c)\<lparr>rc_idempotency := Some key\<rparr>) w)"

section \<open>Idempotent execution\<close>

text \<open>The platform's store of keys: its decisions and operations.\<close>

datatype 'b decision =
    StateCompleted "goerr + 'b envelope"
  | StateFailed errcode string nat
  | StateProcessing
  | StateConflict
  | StateAcquired string
  | StateOther

record ('w, 'b) idempotency_manager =
  im_enabled :: bool
  im_begin :: "string \<Rightarrow> string \<Rightarrow> 'w \<Rightarrow> (goerr + 'b decision) \<times> 'w"
  im_complete :: "string \<Rightarrow> string \<Rightarrow> 'b envelope \<Rightarrow> 'w \<Rightarrow> goerr option \<times> 'w"
  im_fail :: "string \<Rightarrow> string \<Rightarrow> errcode \<times> string \<times> nat \<Rightarrow> 'w \<Rightarrow> goerr option \<times> 'w"

text \<open>\<open>fmt.Sprint\<close> of a missing subject is the text of nil.\<close>

definition idempotency_fingerprint :: "(string \<Rightarrow> string) \<Rightarrow> request_context \<Rightarrow> goerr + string" where
  "idempotency_fingerprint sha256 c = (case read_body c of
      Inl err \<Rightarrow> Inl err
    | Inr body \<Rightarrow> Inr (hex_encode (sha256 ((case rc_subject c of None \<Rightarrow> ''<nil>'' | Some s \<Rightarrow> s)
        @ [CHR 0x00] @ rc_Method c @ [CHR 0x00] @ rc_FullPath c @ [CHR 0x00] @ body))))"

text \<open>
  What is kept of an answer: the captured body, when it is the uniform envelope, without the
  identifier of the request.  A panic leaves the key as it is.
\<close>

definition persist_outcome :: "('w, 'b) idempotency_manager \<Rightarrow> string \<Rightarrow> string \<Rightarrow> 'b outcome_of \<times> 'w
    \<Rightarrow> 'b outcome_of \<times> 'w" where
  "persist_outcome m key owner run = (case run of
      (Replied r, w1) \<Rightarrow>
        (case rs_body r of
           None \<Rightarrow> (Replied r, w1)
         | Some env \<Rightarrow>
             if rs_status r \<ge> 400
             then (Replied r, snd (im_fail m key owner (ev_Code env, ev_Message env, rs_status r) w1))
             else (Replied r, snd (im_complete m key owner (env\<lparr>ev_RequestID := []\<rparr>) w1)))
    | (other, w1) \<Rightarrow> (other, w1))"

definition idempotency_mw :: "('w, 'b) idempotency_manager option \<Rightarrow> string list \<Rightarrow> (string \<Rightarrow> string) \<Rightarrow> ('w, 'b) middleware" where
  "idempotency_mw manager paths sha256 next c w = (case (rc_idempotency c, manager) of
      (Some key, Some m) \<Rightarrow>
        if \<not> im_enabled m \<or> rc_Method c \<noteq> ''POST'' \<or> \<not> matches_any (rc_FullPath c) paths then next c w
        else (case idempotency_fingerprint sha256 c of
            Inl err \<Rightarrow> (fail_reply c (app_invalid ''read idempotent request'' (Some err)), w)
          | Inr fingerprint \<Rightarrow>
              (case im_begin m key fingerprint w of
                 (Inl err, w1) \<Rightarrow> (fail_reply c (app_unavailable ''idempotency is unavailable'' (Some err)), w1)
               | (Inr d, w1) \<Rightarrow>
                   (case d of
                      StateCompleted (Inl err) \<Rightarrow>
                        (fail_reply c (app_unavailable ''idempotency response is unavailable'' (Some err)), w1)
                    | StateCompleted (Inr env) \<Rightarrow>
                        (reply c 200 (ev_Code env) (ev_Message env) (ev_Body env), w1)
                    | StateFailed code message status \<Rightarrow> (reply c status code message None, w1)
                    | StateProcessing \<Rightarrow> (fail_reply c app_request_in_progress, w1)
                    | StateConflict \<Rightarrow>
                        (fail_reply c (app_conflict ''idempotency key belongs to a different request'' None), w1)
                    | StateAcquired owner \<Rightarrow> persist_outcome m key owner (next c w1)
                    | StateOther \<Rightarrow> (fail_reply c (app_unavailable ''idempotency state is invalid'' None), w1))))
    | _ \<Rightarrow> next c w)"

section \<open>The access log\<close>

record access_entry =
  ae_Operation :: string
  ae_Protocol :: string
  ae_Method :: string
  ae_Route :: string
  ae_Succeeded :: bool
  ae_ErrorCode :: string
  ae_ErrorMessage :: string
  ae_ClientIP :: string
  ae_UserAgent :: string
  ae_RequestID :: string

text \<open>A recorder that is enabled, or none.\<close>

type_synonym 'w recorder = "(access_entry \<Rightarrow> 'w \<Rightarrow> goerr option \<times> 'w) option"

definition audit_access_operation :: "string \<Rightarrow> string option" where
  "audit_access_operation route = map_of
     [(''/api/v1/audit/records/get'', ''audit.record.get''),
      (''/api/v1/audit/records/query'', ''audit.record.query''),
      (''/api/v1/audit/records/export'', ''audit.record.export''),
      (''/api/v1/route-policies/page'', ''audit.route-policy.page''),
      (''/api/v1/route-policies/get'', ''audit.route-policy.get'')] route"

text \<open>\<open>http.StatusText\<close> of the statuses from 400.\<close>

definition status_text :: "nat \<Rightarrow> string" where
  "status_text n = (case map_of
     [(400, ''Bad Request''), (401, ''Unauthorized''), (402, ''Payment Required''), (403, ''Forbidden''),
      (404, ''Not Found''), (405, ''Method Not Allowed''), (406, ''Not Acceptable''),
      (407, ''Proxy Authentication Required''), (408, ''Request Timeout''), (409, ''Conflict''), (410, ''Gone''),
      (411, ''Length Required''), (412, ''Precondition Failed''), (413, ''Request Entity Too Large''),
      (414, ''Request URI Too Long''), (415, ''Unsupported Media Type''), (416, ''Requested Range Not Satisfiable''),
      (417, ''Expectation Failed''), (418, ''I'' @ [CHR 0x27] @ ''m a teapot''), (421, ''Misdirected Request''),
      (422, ''Unprocessable Entity''), (423, ''Locked''), (424, ''Failed Dependency''), (425, ''Too Early''),
      (426, ''Upgrade Required''), (428, ''Precondition Required''), (429, ''Too Many Requests''),
      (431, ''Request Header Fields Too Large''), (451, ''Unavailable For Legal Reasons''),
      (500, ''Internal Server Error''), (501, ''Not Implemented''), (502, ''Bad Gateway''),
      (503, ''Service Unavailable''), (504, ''Gateway Timeout''), (505, ''HTTP Version Not Supported''),
      (506, ''Variant Also Negotiates''), (507, ''Insufficient Storage''), (508, ''Loop Detected''),
      (510, ''Not Extended''), (511, ''Network Authentication Required'')] n of None \<Rightarrow> [] | Some t \<Rightarrow> t)"

text \<open>The status of the writer: 200 while nothing was written.\<close>

definition written_status :: "'b outcome_of \<Rightarrow> nat" where
  "written_status r = (case r of Replied x \<Rightarrow> rs_status x | _ \<Rightarrow> 200)"

definition access_entry_of :: "string \<Rightarrow> request_context \<Rightarrow> nat \<Rightarrow> access_entry" where
  "access_entry_of operation c status = \<lparr>ae_Operation = operation, ae_Protocol = ''http'', ae_Method = rc_Method c,
     ae_Route = rc_FullPath c, ae_Succeeded = (status < 400), ae_ErrorCode = [],
     ae_ErrorMessage = (if status < 400 then [] else status_text status), ae_ClientIP = rc_ClientIP c,
     ae_UserAgent = rc_Header c ''User-Agent'', ae_RequestID = rc_request_id c\<rparr>"

definition audit_access_mw :: "'w recorder \<Rightarrow> ('w, 'b) middleware" where
  "audit_access_mw recorder next c w = (case (audit_access_operation (rc_FullPath c), recorder) of
      (Some operation, Some rec) \<Rightarrow>
        (case next c w of
           (Panicked hs, w1) \<Rightarrow> (Panicked hs, w1)
         | (r, w1) \<Rightarrow> (r, snd (rec (access_entry_of operation c (written_status r)) w1)))
    | _ \<Rightarrow> next c w)"

section \<open>Guards of the server\<close>

definition recovery_mw :: "('w, 'b) middleware" where
  "recovery_mw next c w = (case next c w of
      (Panicked hs, w1) \<Rightarrow> (reply (c\<lparr>rc_out := hs\<rparr>) 500 CodeInternal ''internal server error'' None, w1)
    | (r, w1) \<Rightarrow> (r, w1))"

text \<open>\<open>Timeout\<close>: \<open>expired\<close> says whether the deadline had passed when the handlers returned.\<close>

definition timeout_mw :: "('w \<Rightarrow> bool) \<Rightarrow> ('w, 'b) middleware" where
  "timeout_mw expired next c w = (case next c w of
      (Unwritten hs, w1) \<Rightarrow>
        if expired w1 then (fail_reply (c\<lparr>rc_out := hs\<rparr>) app_request_timeout, w1) else (Unwritten hs, w1)
    | (r, w1) \<Rightarrow> (r, w1))"

definition max_body_mw :: "int \<Rightarrow> ('w, 'b) middleware" where
  "max_body_mw limit next c w = next (c\<lparr>rc_limit := Some limit\<rparr>) w"

definition require_json_mw :: "(string \<Rightarrow> string option) \<Rightarrow> ('w, 'b) middleware" where
  "require_json_mw media_type next c w =
     (if rc_Method c = ''POST'' \<and> rc_ContentLength c \<noteq> 0 \<and> media_type (rc_Header c ''Content-Type'') \<noteq> Some ''application/json''
      then (reply c 415 CodeInvalidArgument ''content type must be application/json'' None, w)
      else next c w)"

definition security_headers_mw :: "('w, 'b) middleware" where
  "security_headers_mw next c w =
     (let c1 = set_header ''Cache-Control'' ''no-store''
          (set_header ''Content-Security-Policy'' (''default-src '' @ [CHR 0x27] @ ''none'' @ [CHR 0x27] @ ''; frame-ancestors '' @ [CHR 0x27] @ ''none'' @ [CHR 0x27])
          (set_header ''Referrer-Policy'' ''no-referrer''
          (set_header ''X-Frame-Options'' ''DENY''
          (set_header ''X-Content-Type-Options'' ''nosniff'' c))));
          c2 = (if rc_TLS c then set_header ''Strict-Transport-Security'' ''max-age=31536000; includeSubDomains'' c1 else c1)
      in next c2 w)"

text \<open>\<open>int(d.Seconds())\<close>: toward zero.\<close>

definition whole_seconds :: "duration \<Rightarrow> int" where
  "whole_seconds d = (if d < 0 then - ((- d) div second) else d div second)"

definition cors_mw :: "cCORS \<Rightarrow> ('w, 'b) middleware" where
  "cors_mw cfg next c w =
     (let origin = rc_Header c ''Origin'' in
      if \<not> CORS_Enabled cfg then next c w
      else if origin = [] then next c w
      else if origin \<notin> set (CORS_AllowedOrigins cfg)
      then (reply c 403 CodeForbidden ''origin is not allowed'' None, w)
      else (let c1 = set_header ''Access-Control-Max-Age'' (show_int (whole_seconds (CORS_MaxAge cfg)))
               (set_header ''Access-Control-Expose-Headers'' (join '', '' (CORS_ExposedHeaders cfg))
               (set_header ''Access-Control-Allow-Headers'' (join '', '' (CORS_AllowedHeaders cfg))
               (set_header ''Access-Control-Allow-Methods'' ''POST, GET, OPTIONS''
               (set_header ''Vary'' ''Origin''
               (set_header ''Access-Control-Allow-Origin'' origin c)))))
            in if rc_Method c = ''OPTIONS''
               then (Replied \<lparr>rs_status = 204, rs_headers = rc_out c1, rs_body = None\<rparr>, w)
               else next c1 w))"

section \<open>Rate limits\<close>

text \<open>\<open>Duration.Round\<close> to whole seconds, half away from zero.\<close>

definition round_seconds :: "duration \<Rightarrow> int" where
  "round_seconds d = (if d < 0 then - ((- d + second div 2) div second) else (d + second div 2) div second)"

definition rate_limit_mw :: "'w limiter \<Rightarrow> cRateLimitRule \<Rightarrow> string \<Rightarrow> (request_context \<Rightarrow> string) \<Rightarrow> ('w, 'b) middleware" where
  "rate_limit_mw limiter rule dimension key_of next c w =
     (if \<not> li_enabled limiter then next c w
      else (let key = key_of c in
        if key = [] then next c w
        else (case limiter_allow limiter (''rate:'' @ dimension @ '':'' @ key) rule w of
            (Inl err, w1) \<Rightarrow>
              if li_failOpen limiter then next c w1
              else (fail_reply c (app_unavailable ''rate limiter unavailable'' (Some err)), w1)
          | (Inr r, w1) \<Rightarrow>
              (let c1 = set_header ''X-RateLimit-Remaining'' (show_int (lr_Remaining r))
                   (set_header ''X-RateLimit-Limit'' (show_int (lr_Limit r)) c)
               in if \<not> lr_Allowed r
                  then (fail_reply (set_header ''Retry-After'' (show_int (max 1 (round_seconds (lr_RetryAfter r)))) c1)
                          app_too_many_requests, w1)
                  else next c1 w1))))"

section \<open>Authentication\<close>

text \<open>Attaching a verified caller to the request.\<close>

definition with_caller :: "principal \<Rightarrow> string \<Rightarrow> string \<Rightarrow> request_context \<Rightarrow> request_context" where
  "with_caller caller subject credential c =
     c\<lparr>rc_subject := Some subject, rc_principal := Some caller, rc_credential := Some credential\<rparr>"

definition jwt_mw :: "(string \<Rightarrow> goerr + principal) \<Rightarrow> ('w, 'b) middleware" where
  "jwt_mw verify next c w =
     (let header = rc_Header c ''Authorization'' in
      case cut (CHR '' '') header of (scheme, raw, ok) \<Rightarrow>
        if \<not> ok \<or> \<not> equal_fold scheme ''Bearer'' \<or> raw = []
        then (fail_reply c (app_unauthorized ''missing bearer token''), w)
        else (case verify raw of
            Inl err \<Rightarrow> (fail_reply c (app_unauthorized ''invalid or expired token''), w)
          | Inr caller \<Rightarrow> next (with_caller caller (p_ID caller) header c) w))"

definition psk_principal :: "string \<Rightarrow> principal" where
  "psk_principal name = \<lparr>p_ID = name @ '':psk'', p_Type = TypeServiceAccount, p_TenantID = []\<rparr>"

text \<open>\<open>Authentication\<close> of the configuration's route lists.\<close>

definition authentication_mw :: "(string \<Rightarrow> goerr + principal) \<Rightarrow> cAuth \<Rightarrow> ('w, 'b) middleware" where
  "authentication_mw verify cfg next c w =
     (if PSK_Enabled (Auth_PSK cfg) \<and> matches_any (rc_FullPath c) (PSK_HTTPPaths (Auth_PSK cfg)) then
        (if \<not> verify_psk (rc_Header c ''Authorization'') (PSK_Key (Auth_PSK cfg))
         then (fail_reply c (app_unauthorized ''missing or invalid PSK''), w)
         else next (with_caller (psk_principal ''audit-service'') ''psk'' (rc_Header c ''Authorization'') c) w)
      else if matches_any (rc_FullPath c) (Auth_SkipHTTPPaths cfg) then next c w
      else jwt_mw verify next c w)"

text \<open>
  \<open>DatabaseAuthentication\<close> checks a credential that was sent; whether one is needed is the policy's
  to say.  \<open>Inl\<close> is the refusal.
\<close>

definition check_credential :: "(string \<Rightarrow> goerr + principal) \<Rightarrow> cConfig \<Rightarrow> string \<Rightarrow> string + principal" where
  "check_credential verify cfg header = (case cut (CHR '' '') header of (scheme, raw, ok) \<Rightarrow>
     if \<not> ok \<or> raw = [] then Inl ''invalid authorization credential''
     else if equal_fold scheme ''Bearer'' then
       (case verify raw of Inl err \<Rightarrow> Inl ''invalid or expired token'' | Inr caller \<Rightarrow> Inr caller)
     else if equal_fold scheme ''PSK'' then
       (if \<not> PSK_Enabled (Auth_PSK (Config_Auth cfg)) \<or> \<not> verify_psk header (PSK_Key (Auth_PSK (Config_Auth cfg)))
        then Inl ''invalid PSK'' else Inr (psk_principal (App_Name (Config_App cfg))))
     else Inl ''unsupported authorization scheme'')"

definition database_authentication_mw :: "(string \<Rightarrow> goerr + principal) \<Rightarrow> cConfig \<Rightarrow> ('w, 'b) middleware" where
  "database_authentication_mw verify cfg next c w =
     (let header = trim_space (rc_Header c ''Authorization'') in
      if header = [] then next c w
      else (case check_credential verify cfg header of
          Inl message \<Rightarrow> (fail_reply c (app_unauthorized message), w)
        | Inr identity \<Rightarrow> next (with_caller identity (p_ID identity) header c) w))"

section \<open>Authorization\<close>

definition ErrDecisionUnavailable :: goerr where
  "ErrDecisionUnavailable = ErrVar ''platformauthz.ErrDecisionUnavailable''"

definition ErrPolicyMissing :: goerr where
  "ErrPolicyMissing = ErrVar ''platformpolicy.ErrMissing''"

record requirement =
  rq_Resource :: string
  rq_Action :: string

text \<open>The requirement of a route; its scope is always that of the principal.\<close>

definition audit_http_requirement :: "string \<Rightarrow> requirement option" where
  "audit_http_requirement route = map_of
     [(''/api/v1/audit/records/create'', \<lparr>rq_Resource = ''audit.record'', rq_Action = ''create''\<rparr>),
      (''/api/v1/audit/records/get'', \<lparr>rq_Resource = ''audit.record'', rq_Action = ''read''\<rparr>),
      (''/api/v1/audit/records/query'', \<lparr>rq_Resource = ''audit.record'', rq_Action = ''query''\<rparr>),
      (''/api/v1/audit/records/export'', \<lparr>rq_Resource = ''audit.record'', rq_Action = ''export''\<rparr>)] route"

definition authorization_mw :: "bool \<Rightarrow> (request_context \<Rightarrow> requirement \<Rightarrow> goerr option) \<Rightarrow> ('w, 'b) middleware" where
  "authorization_mw enabled enforce next c w = (case audit_http_requirement (rc_FullPath c) of
      None \<Rightarrow> next c w
    | Some requirement \<Rightarrow>
        if \<not> enabled then next c w
        else (case enforce c requirement of
            None \<Rightarrow> next c w
          | Some err \<Rightarrow>
              if errors_is err ErrDecisionUnavailable
              then (fail_reply c (app_unavailable ''authorization decision is unavailable'' (Some err)), w)
              else (fail_reply c (app_forbidden ''permission denied''), w)))"

text \<open>
  \<open>DatabaseAuthorization\<close>.  The evaluation is that of the policy manager with the caller of the
  context; it may fill its cache of route identifiers.
\<close>

type_synonym 'w evaluator = "request_context \<Rightarrow> string \<Rightarrow> string \<Rightarrow> string \<Rightarrow> string \<Rightarrow> 'w \<Rightarrow> goerr option \<times> 'w"

definition database_authorization_mw :: "bool \<Rightarrow> string \<Rightarrow> (string \<Rightarrow> string) \<Rightarrow> 'w evaluator \<Rightarrow> ('w, 'b) middleware" where
  "database_authorization_mw enabled service uni evaluate next c w =
     (if \<not> enabled then next c w
      else (case evaluate c ''http'' (to_lower uni (rc_Method c)) (rc_FullPath c) service w of
          (None, w1) \<Rightarrow> next c w1
        | (Some err, w1) \<Rightarrow>
            if errors_is err ErrDecisionUnavailable \<or> errors_is err ErrPolicyMissing
            then (fail_reply c (app_unavailable ''authorization decision is unavailable'' (Some err)), w1)
            else (fail_reply c (app_forbidden ''permission denied''), w1)))"

end
