(* ===== verification/Health.thy ===== *)
theory Health
  imports Go_Prelude App_Error
begin

text \<open>
  \<open>internal/health/service.go\<close>: two checks run side by side and send their results over one
  channel, in the order in which they finish.  A dependency that is not configured is \<open>None\<close>, and
  otherwise what its ping reports; how long the ping took is given as the text of its duration.
\<close>

record dependency =
  dp_Status :: string
  dp_Latency :: string

record health_status =
  hs_Status :: string
  hs_Dependencies :: "string \<rightharpoonup> dependency"

record health_result =
  hr_name :: string
  hr_dependency :: dependency
  hr_ready :: bool

definition check_result :: "string \<Rightarrow> string \<Rightarrow> goerr option \<Rightarrow> health_result" where
  "check_result name latency err =
     (let dependency = \<lparr>dp_Status = ''up'', dp_Latency = latency\<rparr> in
      case err of
        Some e \<Rightarrow> \<lparr>hr_name = name, hr_dependency = dependency\<lparr>dp_Status := ''down''\<rparr>, hr_ready = False\<rparr>
      | None \<Rightarrow> \<lparr>hr_name = name, hr_dependency = dependency, hr_ready = True\<rparr>)"

definition disabled :: "string \<Rightarrow> health_result" where
  "disabled name = \<lparr>hr_name = name, hr_dependency = \<lparr>dp_Status = ''disabled'', dp_Latency = []\<rparr>, hr_ready = True\<rparr>"

definition check_database :: "(string \<times> goerr option) option \<Rightarrow> health_result" where
  "check_database db = (case db of
      None \<Rightarrow> disabled ''database''
    | Some (latency, err) \<Rightarrow> check_result ''database'' latency err)"

definition check_redis :: "(string \<times> goerr option) option \<Rightarrow> health_result" where
  "check_redis redis = (case redis of
      None \<Rightarrow> disabled ''redis''
    | Some (latency, err) \<Rightarrow> check_result ''redis'' latency err)"

definition live_status :: health_status where
  "live_status = \<lparr>hs_Status = ''up'', hs_Dependencies = Map.empty\<rparr>"

text \<open>The loop that receives the results.\<close>

fun receive :: "health_result list \<Rightarrow> health_status \<Rightarrow> bool \<Rightarrow> health_status \<times> bool" where
  "receive [] status ready = (status, ready)"
| "receive (item # rest) status ready =
     receive rest (status\<lparr>hs_Dependencies := (hs_Dependencies status)(hr_name item \<mapsto> hr_dependency item)\<rparr>)
       (ready \<and> hr_ready item)"

definition ready_status :: "health_result list \<Rightarrow> health_status \<times> bool" where
  "ready_status results =
     (let (status, ready) = receive results \<lparr>hs_Status = ''ready'', hs_Dependencies = Map.empty\<rparr> True
      in (if \<not> ready then status\<lparr>hs_Status := ''not_ready''\<rparr> else status, ready))"

text \<open>\<open>Ready\<close>; the argument says whether Redis answered first.\<close>

definition health_ready :: "(string \<times> goerr option) option \<Rightarrow> (string \<times> goerr option) option \<Rightarrow> bool
    \<Rightarrow> health_status \<times> bool" where
  "health_ready db redis redis_first =
     ready_status (if redis_first then [check_redis redis, check_database db] else [check_database db, check_redis redis])"

text \<open>
  C39. Readiness does not depend on which check finishes first, and it is exact: the service is ready
  if and only if no configured dependency failed its ping, the status text says so, and both
  dependencies are reported.
\<close>

lemma ready_is_exact:
  "health_ready db redis redis_first = health_ready db redis False \<and>
   (snd (health_ready db redis redis_first) \<longleftrightarrow> (\<forall>d \<in> {db, redis}. \<forall>latency err. d \<noteq> Some (latency, Some err))) \<and>
   (hs_Status (fst (health_ready db redis redis_first)) = ''ready'' \<longleftrightarrow> snd (health_ready db redis redis_first)) \<and>
   dom (hs_Dependencies (fst (health_ready db redis redis_first))) = {''database'', ''redis''}"
  by (cases db; cases redis)
     (auto simp: health_ready_def ready_status_def check_database_def check_redis_def check_result_def disabled_def
       Let_def fun_upd_twist split: option.splits)

lemma ready_is_exact_witness:
  "\<not> snd (health_ready (Some (''1ms'', Some (ErrText ''timeout''))) None False) \<and>
   snd (health_ready (Some (''1ms'', None)) None False)"
  using ready_is_exact [of "Some (''1ms'', Some (ErrText ''timeout''))" None False]
    ready_is_exact [of "Some (''1ms'', None)" None False] by simp

end
