(* ===== verification/Http_Server.thy ===== *)
theory Http_Server
  imports Http_Middleware Audit_Export Audit_World Policy_Service Health
begin

text \<open>
  \<open>internal/transport/http\<close>: the handlers of \<open>handler.go\<close> and \<open>route_policy_handler.go\<close>, and the
  routes and chains of \<open>server.go\<close>.  Decoding a JSON body with its required fields is Gin's and an
  argument; so is what the platform library makes of a route.
\<close>

section \<open>Requests and answers of the API\<close>

record record_request =
  qr_ID :: string
  qr_TenantID :: string
  qr_ApplicationID :: string
  qr_ActorID :: string
  qr_ActorType :: string
  qr_Action :: string
  qr_ResourceType :: string
  qr_ResourceID :: string
  qr_RequestID :: string
  qr_TraceID :: string
  qr_SourceService :: string
  qr_BeforeSummary :: string
  qr_AfterSummary :: string
  qr_OccurredAt :: time

record get_request =
  qg_ID :: string
  qg_TenantID :: string

record query_request =
  qq_Keyword :: string
  qq_IDs :: "string list"
  qq_TenantID :: string
  qq_ApplicationID :: string
  qq_ActorID :: string
  qq_ActorType :: string
  qq_Action :: string
  qq_ResourceType :: string
  qq_ResourceID :: string
  qq_RequestID :: string
  qq_TraceID :: string
  qq_SourceService :: string
  qq_OccurredFrom :: time
  qq_OccurredTo :: time
  qq_Page :: int
  qq_PageSize :: int

record export_request =
  qe_Query :: query_request
  qe_MaxRecords :: int

record page_policies_request =
  qp_Keyword :: string
  qp_Protocol :: string
  qp_RouteStatus :: string
  qp_PolicyStatus :: string
  qp_Page :: int
  qp_PageSize :: int

record set_policy_request =
  qs_RouteID :: string
  qs_Expression :: string
  qs_Description :: string
  qs_Status :: string
  qs_ExpectedVersion :: int
  qs_Permissions :: "perm_input list"

record record_body =
  ab_ID :: string
  ab_TenantID :: string
  ab_ApplicationID :: string
  ab_ActorID :: string
  ab_ActorType :: string
  ab_Action :: string
  ab_ResourceType :: string
  ab_ResourceID :: string
  ab_RequestID :: string
  ab_TraceID :: string
  ab_SourceService :: string
  ab_BeforeSummary :: string
  ab_AfterSummary :: string
  ab_OccurredAt :: time
  ab_Version :: int
  ab_CreatedAt :: time
  ab_UpdatedAt :: time
  ab_CreatedBy :: string
  ab_UpdatedBy :: string

record page_body =
  pb_Records :: "record_body list"
  pb_Total :: int
  pb_Page :: int
  pb_PageSize :: int

record export_body =
  eb_Content :: string
  eb_ContentType :: string
  eb_Filename :: string
  eb_RecordCount :: int

record policy_page_body =
  lb_Items :: "detail list"
  lb_Total :: int
  lb_Page :: int
  lb_PageSize :: int

datatype body =
    HealthBody health_status
  | MeBody "string option"
  | VersionBody string
  | RecordBody record_body
  | PageBody page_body
  | ExportBody export_body
  | PolicyPageBody policy_page_body
  | PolicyBody detail

section \<open>The state and the surroundings\<close>

record 'p api_world =
  aw_audit :: world
  aw_policy :: "'p policy_world"
  aw_access :: "access_entry list"
  aw_idempotency :: "string \<rightharpoonup> string \<times> body decision"
  aw_calls :: nat

record decoders =
  de_record :: "string \<Rightarrow> goerr + record_request"
  de_get :: "string \<Rightarrow> goerr + get_request"
  de_query :: "string \<Rightarrow> goerr + query_request"
  de_export :: "string \<Rightarrow> goerr + export_request"
  de_page_policies :: "string \<Rightarrow> goerr + page_policies_request"
  de_get_policy :: "string \<Rightarrow> goerr + string"
  de_set_policy :: "string \<Rightarrow> goerr + set_policy_request"

record 'p http_server =
  hx_cfg :: cConfig
  hx_audits :: "world service"
  hx_policies :: "('p, principal option) policy_externals"
  hx_verify :: "string \<Rightarrow> goerr + principal"
  hx_decoders :: decoders
  hx_recorder :: "'p api_world recorder"
  hx_limiter :: "'p api_world limiter"
  hx_manager :: "('p api_world, body) idempotency_manager option"
  hx_sha256 :: "string \<Rightarrow> string"
  hx_media_type :: "string \<Rightarrow> string option"
  hx_uni :: "string \<Rightarrow> string"
  hx_valid_key :: "string \<Rightarrow> bool"
  hx_expired :: "'p api_world \<Rightarrow> bool"
  hx_version :: string

definition on_audit :: "(world \<Rightarrow> 'a \<times> world) \<Rightarrow> 'p api_world \<Rightarrow> 'a \<times> 'p api_world" where
  "on_audit f w = (let (r, a) = f (aw_audit w) in (r, w\<lparr>aw_audit := a\<rparr>))"

definition on_policy :: "('p policy_world \<Rightarrow> 'a \<times> 'p policy_world) \<Rightarrow> 'p api_world \<Rightarrow> 'a \<times> 'p api_world" where
  "on_policy f w = (let (r, a) = f (aw_policy w) in (r, w\<lparr>aw_policy := a\<rparr>))"

section \<open>Handlers\<close>

text \<open>\<open>ShouldBindJSON\<close>, and the answer to a service's result.\<close>

definition bind_json :: "(string \<Rightarrow> goerr + 'r) \<Rightarrow> request_context \<Rightarrow> goerr + 'r" where
  "bind_json decode c = (case read_body c of Inl err \<Rightarrow> Inl err | Inr b \<Rightarrow> decode b)"

definition respond :: "request_context \<Rightarrow> ('a \<Rightarrow> body) \<Rightarrow> goerr + 'a \<Rightarrow> body outcome_of" where
  "respond c f r = (case r of Inl err \<Rightarrow> fail_reply c err | Inr v \<Rightarrow> ok_reply c (f v))"

definition handle :: "(string \<Rightarrow> goerr + 'r) \<Rightarrow> string \<Rightarrow> ('r \<Rightarrow> request_context \<Rightarrow> 'w \<Rightarrow> (goerr + 'a) \<times> 'w)
    \<Rightarrow> ('r \<Rightarrow> 'a \<Rightarrow> body) \<Rightarrow> ('w, body) handler" where
  "handle decode message call f c w = (case bind_json decode c of
      Inl err \<Rightarrow> (fail_reply c (app_invalid message (Some err)), w)
    | Inr request \<Rightarrow> (let (r, w1) = call request c w in (respond c (f request) r, w1)))"

definition record_of_request :: "record_request \<Rightarrow> audit_record" where
  "record_of_request q = zero_record\<lparr>r_ID := qr_ID q, r_TenantID := qr_TenantID q,
     r_ApplicationID := qr_ApplicationID q, r_ActorID := qr_ActorID q, r_ActorType := qr_ActorType q,
     r_Action := qr_Action q, r_ResourceType := qr_ResourceType q, r_ResourceID := qr_ResourceID q,
     r_RequestID := qr_RequestID q, r_TraceID := qr_TraceID q, r_SourceService := qr_SourceService q,
     r_BeforeSummary := qr_BeforeSummary q, r_AfterSummary := qr_AfterSummary q, r_OccurredAt := qr_OccurredAt q\<rparr>"

definition record_response :: "audit_record \<Rightarrow> record_body" where
  "record_response r = \<lparr>ab_ID = r_ID r, ab_TenantID = r_TenantID r, ab_ApplicationID = r_ApplicationID r,
     ab_ActorID = r_ActorID r, ab_ActorType = r_ActorType r, ab_Action = r_Action r,
     ab_ResourceType = r_ResourceType r, ab_ResourceID = r_ResourceID r, ab_RequestID = r_RequestID r,
     ab_TraceID = r_TraceID r, ab_SourceService = r_SourceService r, ab_BeforeSummary = r_BeforeSummary r,
     ab_AfterSummary = r_AfterSummary r, ab_OccurredAt = r_OccurredAt r, ab_Version = r_Version r,
     ab_CreatedAt = r_CreatedAt r, ab_UpdatedAt = r_UpdatedAt r, ab_CreatedBy = r_CreatedBy r,
     ab_UpdatedBy = r_UpdatedBy r\<rparr>"

definition filter_of_request :: "query_request \<Rightarrow> audit_filter" where
  "filter_of_request q = \<lparr>f_Keyword = qq_Keyword q, f_IDs = qq_IDs q, f_TenantID = qq_TenantID q,
     f_ApplicationID = qq_ApplicationID q, f_ActorID = qq_ActorID q, f_ActorType = qq_ActorType q,
     f_Action = qq_Action q, f_ResourceType = qq_ResourceType q, f_ResourceID = qq_ResourceID q,
     f_RequestID = qq_RequestID q, f_TraceID = qq_TraceID q, f_SourceService = qq_SourceService q,
     f_OccurredFrom = qq_OccurredFrom q, f_OccurredTo = qq_OccurredTo q, f_Page = qq_Page q,
     f_PageSize = qq_PageSize q\<rparr>"

definition handle_record :: "'p http_server \<Rightarrow> ('p api_world, body) handler" where
  "handle_record s = handle (de_record (hx_decoders s)) ''invalid json request''
     (\<lambda>q c. on_audit (service_record (hx_audits s) (rc_principal c) (record_of_request q)))
     (\<lambda>q v. RecordBody (record_response v))"

definition handle_get :: "'p http_server \<Rightarrow> ('p api_world, body) handler" where
  "handle_get s = handle (de_get (hx_decoders s)) ''invalid json request''
     (\<lambda>q c. on_audit (service_get (hx_audits s) (rc_principal c) (qg_ID q) (qg_TenantID q)))
     (\<lambda>q v. RecordBody (record_response v))"

definition handle_query :: "'p http_server \<Rightarrow> ('p api_world, body) handler" where
  "handle_query s = handle (de_query (hx_decoders s)) ''invalid json request''
     (\<lambda>q c. on_audit (service_query (hx_audits s) (rc_principal c) (filter_of_request q)))
     (\<lambda>q v. PageBody \<lparr>pb_Records = map record_response (pg_Records v), pb_Total = pg_Total v,
        pb_Page = pg_Page v, pb_PageSize = pg_PageSize v\<rparr>)"

definition handle_export :: "'p http_server \<Rightarrow> ('p api_world, body) handler" where
  "handle_export s = handle (de_export (hx_decoders s)) ''invalid json request''
     (\<lambda>q c. on_audit (service_export (hx_audits s) (rc_principal c) (filter_of_request (qe_Query q)) (qe_MaxRecords q)))
     (\<lambda>q (content, count). ExportBody \<lparr>eb_Content = content, eb_ContentType = ''text/csv; charset=utf-8'',
        eb_Filename = ''audit-records.csv'', eb_RecordCount = count\<rparr>)"

definition default_policy_paging :: "page_policies_request \<Rightarrow> page_policies_request" where
  "default_policy_paging q =
     (let q1 = (if qp_Page q = 0 then q\<lparr>qp_Page := 1\<rparr> else q)
      in if qp_PageSize q1 = 0 then q1\<lparr>qp_PageSize := 20\<rparr> else q1)"

definition handle_page_policies :: "'p http_server \<Rightarrow> ('p api_world, body) handler" where
  "handle_page_policies s = handle (\<lambda>b. map_sum id default_policy_paging (de_page_policies (hx_decoders s) b)) ''invalid request''
     (\<lambda>q c. on_policy (policy_service_page (hx_policies s) \<lparr>pf_Keyword = qp_Keyword q, pf_Protocol = qp_Protocol q,
        pf_RouteStatus = qp_RouteStatus q, pf_PolicyStatus = qp_PolicyStatus q\<rparr> (qp_Page q) (qp_PageSize q)))
     (\<lambda>q (items, n). PolicyPageBody \<lparr>lb_Items = items, lb_Total = n, lb_Page = qp_Page q, lb_PageSize = qp_PageSize q\<rparr>)"

definition handle_get_policy :: "'p http_server \<Rightarrow> ('p api_world, body) handler" where
  "handle_get_policy s = handle (de_get_policy (hx_decoders s)) ''invalid request''
     (\<lambda>q c. on_policy (policy_service_get q)) (\<lambda>q v. PolicyBody v)"

definition handle_set_policy :: "'p http_server \<Rightarrow> ('p api_world, body) handler" where
  "handle_set_policy s = handle (de_set_policy (hx_decoders s)) ''invalid request''
     (\<lambda>q c. on_policy (policy_service_set (hx_policies s) (rc_principal c)
        (if rc_request_id c = [] then None else Some (rc_request_id c))
        \<lparr>si_RouteID = qs_RouteID q, si_Expression = qs_Expression q, si_Description = qs_Description q,
          si_Status = qs_Status q, si_ExpectedVersion = qs_ExpectedVersion q, si_Permissions = qs_Permissions q\<rparr>))
     (\<lambda>q v. PolicyBody v)"

definition handle_live :: "('w, body) handler" where
  "handle_live c w = (ok_reply c (HealthBody live_status), w)"

definition handle_ready :: "health_status \<times> bool \<Rightarrow> ('w, body) handler" where
  "handle_ready health c w = (case health of (status, ready) \<Rightarrow>
     (if \<not> ready then reply c 503 CodeDependencyUnavailable ''service is not ready'' (Some (HealthBody status))
      else ok_reply c (HealthBody status), w))"

definition handle_me :: "('w, body) handler" where
  "handle_me c w = (ok_reply c (MeBody (rc_subject c)), w)"

definition handle_version :: "'p http_server \<Rightarrow> ('w, body) handler" where
  "handle_version s c w = (ok_reply c (VersionBody (hx_version s)), w)"

section \<open>Routes and chains\<close>

definition api_routes :: "'p http_server \<Rightarrow> (string \<times> ('p api_world, body) handler) list" where
  "api_routes s =
     [(''/api/v1/version'', handle_version s), (''/api/v1/me'', handle_me),
      (''/api/v1/audit/records/create'', handle_record s), (''/api/v1/audit/records/get'', handle_get s),
      (''/api/v1/audit/records/query'', handle_query s), (''/api/v1/audit/records/export'', handle_export s),
      (''/api/v1/route-policies/page'', handle_page_policies s),
      (''/api/v1/route-policies/get'', handle_get_policy s), (''/api/v1/route-policies/set'', handle_set_policy s)]"

definition evaluate_http :: "'p http_server \<Rightarrow> 'p api_world evaluator" where
  "evaluate_http s c protocol method path service =
     on_policy (\<lambda>pw. let (r, m) = evaluate_route (hx_policies s) protocol method path service (Some (rc_principal c))
          (pw_manager pw) in (r, pw\<lparr>pw_manager := m\<rparr>))"

text \<open>The middlewares before every route, and those of the API in front of a handler.\<close>

definition server_chain :: "'p http_server \<Rightarrow> string \<Rightarrow> ('p api_world, body) middleware" where
  "server_chain s generated h = request_id_mw generated (idempotency_key_mw (hx_valid_key s)
     (environment_mw (Runtime_ActiveProfile (Config_Runtime (hx_cfg s))) (recovery_mw (security_headers_mw
     (cors_mw (HTTP_CORS (Config_HTTP (hx_cfg s))) (max_body_mw (HTTP_MaxBodyBytes (Config_HTTP (hx_cfg s)))
     (timeout_mw (hx_expired s) (require_json_mw (hx_media_type s) h))))))))"

definition api_inner_chain :: "'p http_server \<Rightarrow> ('p api_world, body) middleware" where
  "api_inner_chain s h = audit_access_mw (hx_recorder s)
     (rate_limit_mw (hx_limiter s) (RateLimit_User (Config_RateLimit (hx_cfg s))) ''user''
        (\<lambda>c. case rc_subject c of None \<Rightarrow> [] | Some v \<Rightarrow> v)
     (idempotency_mw (hx_manager s) (Idempotency_HTTPPaths (Config_Idempotency (hx_cfg s))) (hx_sha256 s) h))"

definition api_chain :: "'p http_server \<Rightarrow> ('p api_world, body) middleware" where
  "api_chain s h =
     rate_limit_mw (hx_limiter s) (RateLimit_IP (Config_RateLimit (hx_cfg s))) ''ip'' rc_ClientIP
     (rate_limit_mw (hx_limiter s) (RateLimit_API (Config_RateLimit (hx_cfg s))) ''api'' rc_FullPath
     (database_authentication_mw (hx_verify s) (hx_cfg s)
     (database_authorization_mw (Authorization_Enabled (Config_Authorization (hx_cfg s)))
        (App_Name (Config_App (hx_cfg s))) (hx_uni s) (evaluate_http s)
     (api_inner_chain s h))))"

text \<open>A request to a route of the API; a path without one gets the router's plain 404.\<close>

definition serve_api :: "'p http_server \<Rightarrow> string \<Rightarrow> ('p api_world, body) handler" where
  "serve_api s generated c w = server_chain s generated
     (\<lambda>c. case map_of (api_routes s) (rc_FullPath c) of
        Some h \<Rightarrow> api_chain s h c
      | None \<Rightarrow> (\<lambda>w. (Replied \<lparr>rs_status = 404, rs_headers = rc_out c, rs_body = None\<rparr>, w))) c w"

text \<open>The profiler's guard: the token must be the configured one.\<close>

definition pprof_auth_mw :: "string \<Rightarrow> ('w, 'b) middleware" where
  "pprof_auth_mw expected next c w = (case cut (CHR '' '') (rc_Header c ''Authorization'') of (scheme, token, ok) \<Rightarrow>
     if \<not> ok \<or> \<not> equal_fold scheme ''Bearer'' \<or> token \<noteq> expected
     then (Replied \<lparr>rs_status = 401, rs_headers = rc_out c, rs_body = None\<rparr>, w) else next c w)"

text \<open>\<open>discoveredBusinessRoutes\<close>: the routes under the API, each with the name of its handler.\<close>

fun discovered_business_routes :: "(string \<Rightarrow> string \<Rightarrow> goerr + route) \<Rightarrow> (string \<times> string \<times> string) list
    \<Rightarrow> goerr + route list" where
  "discovered_business_routes new_route [] = Inr []"
| "discovered_business_routes new_route ((method, path, handler) # rest) =
     (if \<not> has_prefix path ''/api/v1/'' then discovered_business_routes new_route rest
      else (case new_route method path of
          Inl err \<Rightarrow> Inl (ErrWrap (''describe HTTP route '' @ path) err)
        | Inr r \<Rightarrow> (case discovered_business_routes new_route rest of
              Inl err \<Rightarrow> Inl err
            | Inr routes \<Rightarrow> Inr (r\<lparr>ro_Operation := handler\<rparr> # routes))))"

text \<open>
  \<open>OnStart\<close> up to the listener: the routes are stored, the policies loaded, and their coverage
  checked, which only warns.
\<close>

definition start_http :: "'p http_server \<Rightarrow> (string \<Rightarrow> string \<Rightarrow> goerr + route) \<Rightarrow> (string \<times> string \<times> string) list
    \<Rightarrow> 'p policy_world \<Rightarrow> goerr option \<times> 'p policy_world" where
  "start_http s new_route infos w =
     (if \<not> Authorization_Enabled (Config_Authorization (hx_cfg s)) then (None, w)
      else (case discovered_business_routes new_route infos of
          Inl err \<Rightarrow> (Some err, w)
        | Inr routes \<Rightarrow>
            (let name = App_Name (Config_App (hx_cfg s));
                 (sync_err, s1) = sync_routes (px_driver (hx_policies s)) routes (name @ '':route-discovery'') (pw_db w)
             in (case sync_err of
                   Some err \<Rightarrow> (Some (ErrWrap ''sync HTTP routes'' err), w\<lparr>pw_db := s1\<rparr>)
                 | None \<Rightarrow> (case refresh_source (hx_policies s) (w\<lparr>pw_db := s1\<rparr>) of
                       (Some err, w1) \<Rightarrow> (Some (ErrWrap ''load route policies'' err), w1)
                     | (None, w1) \<Rightarrow> (None, snd (validate_routes (hx_policies s) name w1)))))))"

end
