(* ===== verification/Http_Examples.thy ===== *)
theory Http_Examples
  imports Http_Server Audit_Examples Config_Facts Policy_Facts
begin

text \<open>
  A server in production with one record, whose policies let any verified caller read it, and a
  request for it.  The properties of the HTTP side are applied to them.
\<close>

definition ex_policies :: "(string list, principal option) policy_externals" where
  "ex_policies = \<lparr>px_driver = Some ''pgx'', px_sql = ex_env, px_compile = (\<lambda>d. None),
     px_reload = (\<lambda>r p. (None, p)),
     px_evaluate = (\<lambda>p ident a. if ident \<in> set p then (case a of Some (Some u) \<Rightarrow> None | _ \<Rightarrow> Some ErrPolicyDenied)
       else Some ErrPolicyMissing),
     px_new_route = (\<lambda>pr m pa sv. Inr (pr @ '' '' @ m @ '' '' @ pa)), px_publish = None, px_operations = None,
     px_uuid = (\<lambda>n. ex_fresh)\<rparr>"

definition ex_manager :: "(string list api_world, body) idempotency_manager" where
  "ex_manager = \<lparr>im_enabled = True,
     im_begin = (\<lambda>key fingerprint w. case aw_idempotency w key of
         None \<Rightarrow> (Inr (StateAcquired fingerprint), w\<lparr>aw_idempotency := (aw_idempotency w)(key \<mapsto> (fingerprint, StateProcessing))\<rparr>)
       | Some (f, d) \<Rightarrow> (if f = fingerprint then (case d of StateAcquired _ \<Rightarrow> Inr StateOther | _ \<Rightarrow> Inr d) else Inr StateConflict, w)),
     im_complete = (\<lambda>key owner e w. (None, w\<lparr>aw_idempotency := (aw_idempotency w)(key \<mapsto> (owner, StateCompleted (Inr e)))\<rparr>)),
     im_fail = (\<lambda>key owner (code, m, n) w. (None, w\<lparr>aw_idempotency := (aw_idempotency w)(key \<mapsto> (owner, StateFailed code m n))\<rparr>))\<rparr>"

definition ex_recorder :: "access_entry \<Rightarrow> string list api_world \<Rightarrow> goerr option \<times> string list api_world" where
  "ex_recorder e w = (None, w\<lparr>aw_access := aw_access w @ [e]\<rparr>)"

definition ex_verify :: "string \<Rightarrow> goerr + principal" where
  "ex_verify raw = (if raw = ''token'' then Inr ex_user else Inl (ErrText ''token has invalid claims''))"

definition ex_http :: "string list http_server" where
  "ex_http = \<lparr>hx_cfg = ex_production, hx_audits = ex_service, hx_policies = ex_policies, hx_verify = ex_verify,
     hx_decoders = \<lparr>de_record = (\<lambda>b. Inl (ErrText ''EOF'')),
       de_get = (\<lambda>b. if b = ''{}'' then Inl (ErrText ''required'') else Inr \<lparr>qg_ID = ''i1'', qg_TenantID = ''t1''\<rparr>),
       de_query = (\<lambda>b. Inl (ErrText ''EOF'')), de_export = (\<lambda>b. Inl (ErrText ''EOF'')),
       de_page_policies = (\<lambda>b. Inl (ErrText ''EOF'')), de_get_policy = (\<lambda>b. Inl (ErrText ''EOF'')),
       de_set_policy = (\<lambda>b. Inl (ErrText ''EOF''))\<rparr>,
     hx_recorder = Some ex_recorder, hx_limiter = new_limiter None ex_production, hx_manager = Some ex_manager,
     hx_sha256 = (\<lambda>s. s), hx_media_type = Some, hx_uni = (\<lambda>s. map lower_byte s), hx_valid_key = (\<lambda>k. True), hx_expired = (\<lambda>w. False),
     hx_version = ''1''\<rparr>"

definition ex_state :: "string list api_world" where
  "ex_state = \<lparr>aw_audit = ex_world, aw_policy = \<lparr>pw_db = ex_policy_db,
       pw_manager = \<lparr>mg_snapshot = [''http post /api/v1/audit/records/get''], mg_revision = 0, mg_routeIDs = Map.empty\<rparr>,
       pw_calls = 0, pw_operations = []\<rparr>, aw_access = [], aw_idempotency = Map.empty, aw_calls = 0\<rparr>"

definition ex_request :: request_context where
  "ex_request = \<lparr>rc_Method = ''POST'', rc_FullPath = ''/api/v1/audit/records/get'',
     rc_Header = (\<lambda>k. if k = ''Authorization'' then '' Bearer token'' else if k = ''Content-Type'' then ''application/json''
       else if k = ''X-Request-ID'' then ''r-1'' else []),
     rc_Body = ''{id}'', rc_ContentLength = 4, rc_ClientIP = ''10.0.0.1'', rc_TLS = False, rc_limit = None, rc_request_id = [],
     rc_environment = None, rc_idempotency = None, rc_subject = None, rc_principal = None, rc_credential = None, rc_out = []\<rparr>"

end
