(* ===== verification/Http_Gates.thy ===== *)
theory Http_Gates
  imports Http_Examples
begin

text \<open>
  What the middlewares in front of a handler may do to a request, and what follows for the whole
  server: nothing happens to the data that the policies do not allow.
\<close>

section \<open>What a request may do\<close>

text \<open>
  A run has an effect when it changes the audit tables or the policy tables, or answers with a body.
\<close>

definition discloses :: "'b outcome_of \<Rightarrow> bool" where
  "discloses r \<longleftrightarrow> (case r of
      Replied x \<Rightarrow> (case rs_body x of Some e \<Rightarrow> (case ev_Body e of Some b \<Rightarrow> True | None \<Rightarrow> False) | None \<Rightarrow> False)
    | _ \<Rightarrow> False)"

lemma discloses_iff: "discloses r \<longleftrightarrow> (\<exists>x e b. r = Replied x \<and> rs_body x = Some e \<and> ev_Body e = Some b)"
  by (simp add: discloses_def split: outcome_of.splits option.splits)

definition effect :: "'p api_world \<Rightarrow> body outcome_of \<times> 'p api_world \<Rightarrow> bool" where
  "effect w run \<longleftrightarrow> discloses (fst run) \<or> aw_audit (snd run) \<noteq> aw_audit w \<or>
     pw_db (aw_policy (snd run)) \<noteq> pw_db (aw_policy w)"

lemma no_disclosure [simp]: "\<not> discloses (reply c n code m None)" "\<not> discloses (fail_reply c e)"
  "\<not> discloses (Unwritten hs)" "\<not> discloses (Panicked hs)"
  "\<not> discloses (Replied \<lparr>rs_status = n, rs_headers = hs, rs_body = None\<rparr>)"
  by (simp_all add: discloses_iff fail_reply_eq reply_def)

lemma effect_same [simp]: "effect w (r, w) \<longleftrightarrow> discloses r"
  by (simp add: effect_def)

definition traced_id :: "string \<Rightarrow> request_context \<Rightarrow> string" where
  "traced_id generated c = (if valid_request_id (rc_Header c ''X-Request-ID'') then rc_Header c ''X-Request-ID'' else generated)"

text \<open>
  What the middlewares in front of the authorization do to a request: they refuse it, disclosing nothing
  and touching neither the tables nor the log of accesses, or pass on the same request, and then the answer
  is that of the handlers behind, up to a panic or an empty answer that they replace.
\<close>

definition untouched :: "'p api_world \<Rightarrow> 'p api_world \<Rightarrow> bool" where
  "untouched w w1 \<longleftrightarrow> aw_audit w1 = aw_audit w \<and> aw_policy w1 = aw_policy w \<and> aw_access w1 = aw_access w"

text \<open>The key of a request on its way: the one it has already, or the one its header names.\<close>

definition same_key :: "request_context \<Rightarrow> request_context \<Rightarrow> bool" where
  "same_key c c1 \<longleftrightarrow> rc_idempotency c1 = rc_idempotency c \<or>
     rc_Header c ''Idempotency-Key'' \<noteq> [] \<and> rc_idempotency c1 = Some (rc_Header c ''Idempotency-Key'')"

definition same_request :: "request_context \<Rightarrow> request_context \<Rightarrow> bool" where
  "same_request c c1 \<longleftrightarrow> rc_Method c1 = rc_Method c \<and> rc_FullPath c1 = rc_FullPath c \<and> rc_Header c1 = rc_Header c \<and>
     rc_principal c1 = rc_principal c \<and> rc_request_id c1 = rc_request_id c \<and> rc_ClientIP c1 = rc_ClientIP c \<and>
     rc_Body c1 = rc_Body c \<and> rc_subject c1 = rc_subject c \<and> same_key c c1"

definition stands_for :: "body outcome_of \<times> 'p api_world \<Rightarrow> body outcome_of \<times> 'p api_world \<Rightarrow> bool" where
  "stands_for run' run \<longleftrightarrow> run' = run \<or>
     \<not> discloses (fst run') \<and> (\<forall>x. fst run \<noteq> Replied x) \<and> snd run' = snd run"

text \<open>What they keep of the state is a parameter: a reflexive, transitive relation.\<close>

definition gates_keeping :: "('p api_world \<Rightarrow> 'p api_world \<Rightarrow> bool) \<Rightarrow> ('p api_world, body) handler
    \<Rightarrow> ('p api_world, body) handler \<Rightarrow> bool" where
  "gates_keeping keep h' h \<longleftrightarrow> (\<forall>c w. keep w (snd (h' c w)) \<and> \<not> discloses (fst (h' c w)) \<or>
     (\<exists>c1 w1. same_request c c1 \<and> keep w w1 \<and> stands_for (h' c w) (h c1 w1)))"

abbreviation gates :: "('p api_world, body) handler \<Rightarrow> ('p api_world, body) handler \<Rightarrow> bool" where
  "gates \<equiv> gates_keeping untouched"

lemma untouched_refl [simp]: "untouched w w"
  by (simp add: untouched_def)

lemma untouched_trans: "untouched w w1 \<Longrightarrow> untouched w1 w2 \<Longrightarrow> untouched w w2"
  by (simp add: untouched_def)

lemma same_request_updates [simp]:
  "same_request c c" "same_request c (set_header k v c)"
  "same_request c (c\<lparr>rc_limit := l\<rparr>)" "same_request c (c\<lparr>rc_environment := e\<rparr>)"
  by (simp_all add: same_request_def same_key_def)

lemma same_request_keyed [simp]:
  "rc_Header c ''Idempotency-Key'' \<noteq> [] \<Longrightarrow>
     same_request c ((set_header k v c)\<lparr>rc_idempotency := Some (rc_Header c ''Idempotency-Key'')\<rparr>)"
  by (simp add: same_request_def same_key_def)

lemma same_request_set_header [simp]: "same_request c (set_header k v c1) = same_request c c1"
  by (simp add: same_request_def same_key_def)

lemma same_request_trans: "same_request c c1 \<Longrightarrow> same_request c1 c2 \<Longrightarrow> same_request c c2"
  by (auto simp: same_request_def same_key_def)

lemma stands_for_refl [simp]: "stands_for run run"
  by (simp add: stands_for_def)

text \<open>A limiter keeps its counters elsewhere, and so does the store of keys.\<close>

definition aside :: "('p api_world \<Rightarrow> 'a \<times> 'p api_world) \<Rightarrow> bool" where
  "aside f \<longleftrightarrow> (\<forall>w. untouched w (snd (f w)))"

definition limiter_aside :: "'p api_world limiter \<Rightarrow> bool" where
  "limiter_aside l \<longleftrightarrow> (\<forall>allow key rule. li_backend l = Some allow \<longrightarrow> aside (allow key rule))"

definition limiter_keeps :: "('p api_world \<Rightarrow> 'p api_world \<Rightarrow> bool) \<Rightarrow> 'p api_world limiter \<Rightarrow> bool" where
  "limiter_keeps keep l \<longleftrightarrow> (\<forall>allow key rule w. li_backend l = Some allow \<longrightarrow> keep w (snd (allow key rule w)))"

lemma limiter_aside_keeps: "limiter_aside l = limiter_keeps untouched l"
  by (auto simp: limiter_aside_def limiter_keeps_def aside_def)

lemma asideD: "aside f \<Longrightarrow> f w = (r, w1) \<Longrightarrow> untouched w w1"
  by (metis aside_def snd_conv)

text \<open>What is behind every gate of the server and of the API's limits.\<close>

definition dispatch :: "('p http_server \<Rightarrow> ('p api_world, body) middleware) \<Rightarrow> 'p http_server \<Rightarrow> ('p api_world, body) handler" where
  "dispatch chain s c w = (case map_of (api_routes s) (rc_FullPath c) of
        Some h \<Rightarrow> chain s h c w
      | None \<Rightarrow> (Replied \<lparr>rs_status = 404, rs_headers = rc_out c, rs_body = None\<rparr>, w))"

definition behind_limits :: "'p http_server \<Rightarrow> ('p api_world, body) middleware" where
  "behind_limits s h = database_authentication_mw (hx_verify s) (hx_cfg s)
     (database_authorization_mw (Authorization_Enabled (Config_Authorization (hx_cfg s)))
        (App_Name (Config_App (hx_cfg s))) (hx_uni s) (evaluate_http s) (api_inner_chain s h))"

definition traced_request :: "string \<Rightarrow> request_context \<Rightarrow> request_context" where
  "traced_request ident c = (set_header ''X-Request-ID'' ident c)\<lparr>rc_request_id := ident\<rparr>"

text \<open>The gates of the server, for anything they and the limiter keep.\<close>

locale gate_states =
  fixes keep :: "'p api_world \<Rightarrow> 'p api_world \<Rightarrow> bool"
  assumes keep_refl: "keep w w" and keep_trans: "keep w w1 \<Longrightarrow> keep w1 w2 \<Longrightarrow> keep w w2"
begin

declare keep_refl [simp]

lemma limiter_allow_keeps:
  assumes "limiter_keeps keep l" "limiter_allow l key rule w = (r, w1)"
  shows "keep w w1"
proof -
  have "keep w (snd (limiter_allow l key rule w))"
    using assms(1) keep_refl by (auto simp: limiter_allow_def limiter_keeps_def split: option.splits prod.splits sum.splits) (metis snd_conv)+
  with assms(2) show ?thesis by simp
qed

lemma gatesI:
  assumes "\<And>c w. (\<exists>w1 r. h' c w = (r, w1) \<and> keep w w1 \<and> \<not> discloses r) \<or>
    (\<exists>c1 w1. same_request c c1 \<and> keep w w1 \<and> stands_for (h' c w) (h c1 w1))"
  shows "gates_keeping keep h' h"
  unfolding gates_keeping_def
proof (intro allI)
  fix c w
  from assms [of c w] show "keep w (snd (h' c w)) \<and> \<not> discloses (fst (h' c w)) \<or>
     (\<exists>c1 w1. same_request c c1 \<and> keep w w1 \<and> stands_for (h' c w) (h c1 w1))"
    by (elim disjE) (auto intro: disjI2)
qed

lemma gates_pass: "h' c w = h c1 w1 \<Longrightarrow> same_request c c1 \<Longrightarrow> keep w w1 \<Longrightarrow>
    \<exists>c1 w1. same_request c c1 \<and> keep w w1 \<and> stands_for (h' c w) (h c1 w1)"
  by (metis stands_for_refl)

lemma gates_refl: "gates_keeping keep h h"
  unfolding gates_keeping_def by (metis keep_refl same_request_updates(1) stands_for_refl)

lemma gates_environment: "gates_keeping keep (environment_mw p h) h"
  by (rule gatesI, rule disjI2, rule gates_pass, simp add: environment_mw_def) simp_all

lemma gates_security: "gates_keeping keep (security_headers_mw h) h"
  by (rule gatesI, rule disjI2, rule gates_pass, simp add: security_headers_mw_def Let_def) simp_all

lemma gates_max_body: "gates_keeping keep (max_body_mw n h) h"
  by (rule gatesI, rule disjI2, rule gates_pass, simp add: max_body_mw_def) simp_all

lemma gates_by:
  assumes "\<And>c w. (\<exists>w1 r. h' c w = (r, w1) \<and> keep w w1 \<and> \<not> discloses r) \<or>
    (\<exists>c1 w1. h' c w = h c1 w1 \<and> same_request c c1 \<and> keep w w1)"
  shows "gates_keeping keep h' h"
  by (rule gatesI) (metis assms stands_for_refl)

lemma gates_idempotency_key: "gates_keeping keep (idempotency_key_mw valid h) h"
  by (rule gates_by) (force simp: idempotency_key_mw_def Let_def)

lemma gates_json: "gates_keeping keep (require_json_mw mt h) h"
  by (rule gates_by) (force simp: require_json_mw_def)

lemma gates_cors: "gates_keeping keep (cors_mw cfg h) h"
proof (rule gates_by)
  fix c :: request_context and w
  consider "\<not> CORS_Enabled cfg \<or> rc_Header c ''Origin'' = []" | "rc_Header c ''Origin'' \<notin> set (CORS_AllowedOrigins cfg)"
      "CORS_Enabled cfg" "rc_Header c ''Origin'' \<noteq> []"
    | "rc_Header c ''Origin'' \<in> set (CORS_AllowedOrigins cfg)" "CORS_Enabled cfg" "rc_Header c ''Origin'' \<noteq> []" by blast
  then show "(\<exists>w1 r. cors_mw cfg h c w = (r, w1) \<and> keep w w1 \<and> \<not> discloses r) \<or>
    (\<exists>c1 w1. cors_mw cfg h c w = h c1 w1 \<and> same_request c c1 \<and> keep w w1)"
  proof cases
    case 1
    then have "cors_mw cfg h c w = h c w" by (auto simp: cors_mw_def Let_def)
    then show ?thesis using same_request_updates(1) keep_refl by blast
  next
    case 2
    then show ?thesis by (simp add: cors_mw_def Let_def)
  next
    case 3
    show ?thesis
    proof (cases "rc_Method c = ''OPTIONS''")
      case True
      with 3 show ?thesis by (simp add: cors_mw_def Let_def)
    next
      case False
      have "\<exists>c1. cors_mw cfg h c w = h c1 w \<and> same_request c c1"
        by (rule exI, rule conjI, simp add: cors_mw_def Let_def 3 False) simp
      then show ?thesis using keep_refl by blast
    qed
  qed
qed

lemma gates_recovery: "gates_keeping keep (recovery_mw h) h"
proof (rule gatesI, rule disjI2)
  fix c w
  obtain r w1 where "h c w = (r, w1)" by fastforce
  then have "stands_for (recovery_mw h c w) (h c w)" by (cases r) (simp_all add: recovery_mw_def stands_for_def)
  then show "\<exists>c1 w1. same_request c c1 \<and> keep w w1 \<and> stands_for (recovery_mw h c w) (h c1 w1)"
    by (metis same_request_updates(1) keep_refl)
qed

lemma gates_timeout: "gates_keeping keep (timeout_mw expired h) h"
proof (rule gatesI, rule disjI2)
  fix c w
  obtain r w1 where "h c w = (r, w1)" by fastforce
  then have "stands_for (timeout_mw expired h c w) (h c w)" by (cases r) (simp_all add: timeout_mw_def stands_for_def)
  then show "\<exists>c1 w1. same_request c c1 \<and> keep w w1 \<and> stands_for (timeout_mw expired h c w) (h c1 w1)"
    by (metis same_request_updates(1) keep_refl)
qed

lemma limit_cases:
  fixes c :: request_context and h :: "('p api_world, body) handler"
  assumes "limiter_keeps keep l"
  obtains (refused) c1 e w1 where "rate_limit_mw l rule d key_of h c w = (fail_reply c1 e, w1)" "keep w w1"
  | (passed) c1 w1 where "rate_limit_mw l rule d key_of h c w = h c1 w1" "same_request c c1" "keep w w1"
proof (cases "li_enabled l \<and> key_of c \<noteq> []")
  case False
  then have "rate_limit_mw l rule d key_of h c w = h c w" by (auto simp: rate_limit_mw_def Let_def)
  then show ?thesis by (rule passed) simp_all
next
  case on: True
  obtain r w1 where a: "limiter_allow l (''rate:'' @ d @ '':'' @ key_of c) rule w = (r, w1)" by fastforce
  note same = limiter_allow_keeps [OF assms a]
  show ?thesis
  proof (cases r)
    case (Inl err)
    with on a same show ?thesis
      by (cases "li_failOpen l") (auto simp: rate_limit_mw_def Let_def intro: refused passed [of c w1])
  next
    case (Inr x)
    let ?c = "set_header ''X-RateLimit-Remaining'' (show_int (lr_Remaining x))
                 (set_header ''X-RateLimit-Limit'' (show_int (lr_Limit x)) c)"
    from Inr on a same show ?thesis
      by (cases "lr_Allowed x") (auto simp: rate_limit_mw_def Let_def intro: refused passed [of ?c w1])
  qed
qed

lemma gates_rate: "limiter_keeps keep l \<Longrightarrow> gates_keeping keep (rate_limit_mw l rule d key_of h) h"
  by (rule gates_by) (metis limit_cases no_disclosure(2))

lemma gates_trans:
  assumes "gates_keeping keep h2 h1" "gates_keeping keep h1 h"
  shows "gates_keeping keep h2 h"
  unfolding gates_keeping_def
proof (intro allI)
  fix c w
  show "keep w (snd (h2 c w)) \<and> \<not> discloses (fst (h2 c w)) \<or>
     (\<exists>c1 w1. same_request c c1 \<and> keep w w1 \<and> stands_for (h2 c w) (h c1 w1))"
  proof (rule disjCI)
    assume no: "\<not> (\<exists>c1 w1. same_request c c1 \<and> keep w w1 \<and> stands_for (h2 c w) (h c1 w1))"
    show "keep w (snd (h2 c w)) \<and> \<not> discloses (fst (h2 c w))"
    proof (rule ccontr)
      assume not: "\<not> ?thesis"
      then obtain c1 w1 where 1: "same_request c c1" "keep w w1" "stands_for (h2 c w) (h1 c1 w1)"
        using assms(1) unfolding gates_keeping_def by blast
      consider "keep w1 (snd (h1 c1 w1))" "\<not> discloses (fst (h1 c1 w1))"
        | c2 w2 where "same_request c1 c2" "keep w1 w2" "stands_for (h1 c1 w1) (h c2 w2)"
        using assms(2) unfolding gates_keeping_def by blast
      then show False
      proof cases
        case 1
        with \<open>keep w w1\<close> \<open>stands_for (h2 c w) (h1 c1 w1)\<close> not show False
          by (auto simp: stands_for_def dest: keep_trans)
      next
        case 2
        have "stands_for (h2 c w) (h c2 w2)"
          using 1(3) 2(3) by (auto simp: stands_for_def discloses_iff)
        with 1 2 no same_request_trans keep_trans show False by blast
      qed
    qed
  qed
qed

lemma gates_dispatch:
  assumes "limiter_keeps keep (hx_limiter s)"
  shows "gates_keeping keep (dispatch api_chain s) (dispatch behind_limits s)"
proof -
  have g: "gates_keeping keep (api_chain s h) (behind_limits s h)" for h
    unfolding api_chain_def behind_limits_def by (rule gates_trans [OF gates_rate gates_rate]) (rule assms)+
  show ?thesis
    unfolding gates_keeping_def
  proof (intro allI)
    fix c w
    show "keep w (snd (dispatch api_chain s c w)) \<and> \<not> discloses (fst (dispatch api_chain s c w)) \<or>
      (\<exists>c1 w1. same_request c c1 \<and> keep w w1 \<and> stands_for (dispatch api_chain s c w) (dispatch behind_limits s c1 w1))"
    proof (cases "map_of (api_routes s) (rc_FullPath c)")
      case None
      then show ?thesis by (simp add: dispatch_def)
    next
      case (Some h)
      have "dispatch behind_limits s c1 w1 = behind_limits s h c1 w1" if "same_request c c1" for c1 w1
        using that Some by (simp add: dispatch_def same_request_def)
      with g [of h] Some show ?thesis unfolding gates_keeping_def dispatch_def by (metis option.simps(5))
    qed
  qed
qed

lemma served_gates:
  fixes s :: "'p http_server"
  assumes "limiter_keeps keep (hx_limiter s)"
  obtains h :: "('p api_world, body) handler" where "gates_keeping keep h (dispatch behind_limits s)"
    "\<And>c w. serve_api s generated c w = h (traced_request (traced_id generated c) c) w"
proof -
  let ?h = "idempotency_key_mw (hx_valid_key s)
     (environment_mw (Runtime_ActiveProfile (Config_Runtime (hx_cfg s))) (recovery_mw (security_headers_mw
     (cors_mw (HTTP_CORS (Config_HTTP (hx_cfg s))) (max_body_mw (HTTP_MaxBodyBytes (Config_HTTP (hx_cfg s)))
     (timeout_mw (hx_expired s) (require_json_mw (hx_media_type s) (dispatch api_chain s))))))))"
  have d: "(\<lambda>c. case map_of (api_routes s) (rc_FullPath c) of
        Some h \<Rightarrow> api_chain s h c
      | None \<Rightarrow> (\<lambda>w. (Replied \<lparr>rs_status = 404, rs_headers = rc_out c, rs_body = None\<rparr>, w))) = dispatch api_chain s"
    by (intro ext) (simp add: dispatch_def split: option.split)
  have "gates_keeping keep ?h (dispatch behind_limits s)"
    by (rule gates_trans [OF gates_idempotency_key gates_trans [OF gates_environment gates_trans [OF gates_recovery
        gates_trans [OF gates_security gates_trans [OF gates_cors gates_trans [OF gates_max_body gates_trans
        [OF gates_timeout gates_trans [OF gates_json gates_dispatch [OF assms]]]]]]]]])
  moreover have "serve_api s generated c w = ?h (traced_request (traced_id generated c) c) w" for c w
    unfolding serve_api_def d by (simp add: server_chain_def request_id_mw_def Let_def traced_id_def traced_request_def)
  ultimately show ?thesis by (rule that)
qed

end

interpretation data: gate_states untouched
  by unfold_locales (simp, rule untouched_trans)

lemmas rate_limit_cases = data.limit_cases [folded limiter_aside_keeps]

lemmas served_behind_gates = data.served_gates [folded limiter_aside_keeps]

text \<open>The caller a request presents: nobody, or the one its credential proves.\<close>

definition presented_caller :: "(string \<Rightarrow> goerr + principal) \<Rightarrow> cConfig \<Rightarrow> (string \<Rightarrow> string) \<Rightarrow> string + principal option" where
  "presented_caller verify cfg header = (let credential = trim_space (header ''Authorization'') in
     if credential = [] then Inr None else map_sum id Some (check_credential verify cfg credential))"

definition decision_of :: "'p http_server \<Rightarrow> string \<Rightarrow> string \<Rightarrow> principal option \<Rightarrow> 'p policy_world \<Rightarrow> goerr option" where
  "decision_of s method route caller w = fst (evaluate_route (hx_policies s) ''http'' (to_lower (hx_uni s) method) route
     (App_Name (Config_App (hx_cfg s))) (Some caller) (pw_manager w))"

definition admits :: "'p http_server \<Rightarrow> string \<Rightarrow> string \<Rightarrow> (string \<Rightarrow> string) \<Rightarrow> 'p policy_world \<Rightarrow> bool" where
  "admits s method route header w \<longleftrightarrow> (\<exists>caller. presented_caller (hx_verify s) (hx_cfg s) header = Inr caller \<and>
     decision_of s method route caller w = None)"

lemma authorization_run:
  "database_authorization_mw True (App_Name (Config_App (hx_cfg s))) (hx_uni s) (evaluate_http s) h c w =
     (case decision_of s (rc_Method c) (rc_FullPath c) (rc_principal c) (aw_policy w) of
        None \<Rightarrow> h c (snd (evaluate_http s c ''http'' (to_lower (hx_uni s) (rc_Method c)) (rc_FullPath c) (App_Name (Config_App (hx_cfg s))) w))
      | Some err \<Rightarrow>
          (if errors_is err ErrDecisionUnavailable \<or> errors_is err ErrPolicyMissing
           then fail_reply c (app_unavailable ''authorization decision is unavailable'' (Some err))
           else fail_reply c (app_forbidden ''permission denied''),
           snd (evaluate_http s c ''http'' (to_lower (hx_uni s) (rc_Method c)) (rc_FullPath c) (App_Name (Config_App (hx_cfg s))) w)))"
  by (simp add: database_authorization_mw_def decision_of_def evaluate_http_def on_policy_def Let_def split: prod.splits option.splits)

lemma evaluate_http_aside:
  "aw_audit (snd (evaluate_http s c p m r n w)) = aw_audit w"
  "pw_db (aw_policy (snd (evaluate_http s c p m r n w))) = pw_db (aw_policy w)"
  by (simp_all add: evaluate_http_def on_policy_def Let_def split: prod.splits)

lemma authorized_effect:
  assumes "effect w (database_authorization_mw True (App_Name (Config_App (hx_cfg s))) (hx_uni s) (evaluate_http s) h c w)"
  shows "decision_of s (rc_Method c) (rc_FullPath c) (rc_principal c) (aw_policy w) = None"
proof (rule ccontr)
  assume "decision_of s (rc_Method c) (rc_FullPath c) (rc_principal c) (aw_policy w) \<noteq> None"
  then show False
    using assms by (auto simp: authorization_run effect_def evaluate_http_aside split: if_splits)
qed

lemma authenticated_effect:
  assumes "Authorization_Enabled (Config_Authorization (hx_cfg s))" "rc_principal c = None"
    and e: "effect w (behind_limits s h c w)"
  shows "admits s (rc_Method c) (rc_FullPath c) (rc_Header c) (aw_policy w)"
proof -
  let ?credential = "trim_space (rc_Header c ''Authorization'')"
  let ?h = "database_authorization_mw True (App_Name (Config_App (hx_cfg s))) (hx_uni s) (evaluate_http s) (api_inner_chain s h)"
  have run: "behind_limits s h c w = database_authentication_mw (hx_verify s) (hx_cfg s) ?h c w"
    using assms(1) by (simp add: behind_limits_def)
  show ?thesis
  proof (cases "?credential = []")
    case True
    then have "effect w (?h c w)" using e run by (simp add: database_authentication_mw_def)
    from authorized_effect [OF this] True assms(2) show ?thesis by (auto simp: admits_def presented_caller_def)
  next
    case False
    show ?thesis
    proof (cases "check_credential (hx_verify s) (hx_cfg s) ?credential")
      case (Inl m)
      with False e run show ?thesis by (simp add: database_authentication_mw_def Let_def)
    next
      case (Inr caller)
      with False e run have "effect w (?h (with_caller caller (p_ID caller) ?credential c) w)"
        by (simp add: database_authentication_mw_def Let_def)
      from authorized_effect [OF this] Inr False show ?thesis
        by (auto simp: admits_def presented_caller_def with_caller_def)
    qed
  qed
qed

lemma effect_behind_gate:
  assumes "gates h' h" "effect w (h' c w)"
  obtains c1 w1 where "same_request c c1" "untouched w w1" "effect w1 (h c1 w1)"
proof -
  have "\<not> (untouched w (snd (h' c w)) \<and> \<not> discloses (fst (h' c w)))"
    using assms(2) by (auto simp: effect_def untouched_def)
  then obtain c1 w1 where 1: "same_request c c1" "untouched w w1" "stands_for (h' c w) (h c1 w1)"
    using assms(1) unfolding gates_keeping_def by blast
  then have "effect w1 (h c1 w1)" using assms(2) by (auto simp: stands_for_def effect_def untouched_def)
  with 1 show ?thesis using that by blast
qed

text \<open>
  C22. With authorization on, nothing happens that was not allowed: a request to the API that changes the
  audit tables or the policy tables, or is answered with a body, went to a route of the API, presented no
  credential or one that proves its caller, and the policies loaded at its arrival allow exactly that
  caller that route.
\<close>

lemma effects_are_authorized:
  assumes "Authorization_Enabled (Config_Authorization (hx_cfg s))" "limiter_aside (hx_limiter s)"
    and "rc_principal c = None" "effect w (serve_api s generated c w)"
  shows "map_of (api_routes s) (rc_FullPath c) \<noteq> None \<and>
    (\<exists>caller. presented_caller (hx_verify s) (hx_cfg s) (rc_Header c) = Inr caller \<and>
       decision_of s (rc_Method c) (rc_FullPath c) caller (aw_policy w) = None)"
proof -
  let ?c = "traced_request (traced_id generated c) c"
  obtain g where g: "gates g (dispatch behind_limits s)" and run: "\<And>c w. serve_api s generated c w = g (traced_request (traced_id generated c) c) w"
    using served_behind_gates [OF assms(2)] by blast
  from assms(4) have e: "effect w (g ?c w)" by (simp only: run)
  from effect_behind_gate [OF g e]
  obtain c1 w1 where 1: "same_request ?c c1" "untouched w w1" and e1: "effect w1 (dispatch behind_limits s c1 w1)" .
  have same: "rc_Method c1 = rc_Method c" "rc_FullPath c1 = rc_FullPath c" "rc_Header c1 = rc_Header c" "rc_principal c1 = None"
    "aw_policy w1 = aw_policy w"
    using 1 assms(3) by (simp_all add: same_request_def traced_request_def untouched_def)
  obtain h where h: "map_of (api_routes s) (rc_FullPath c) = Some h"
    using e1 same by (cases "map_of (api_routes s) (rc_FullPath c)") (auto simp: dispatch_def)
  with e1 same have "effect w1 (behind_limits s h c1 w1)" by (simp add: dispatch_def)
  from authenticated_effect [OF assms(1) same(4) this] h show ?thesis by (simp add: same admits_def)
qed


lemma effects_are_authorized_witness:
  "decision_of ex_http ''POST'' ''/api/v1/audit/records/get'' (Some ex_user) (aw_policy ex_state) = None"
proof -
  have "discloses (fst (serve_api ex_http ''g'' ex_request ex_state))" by code_simp
  then have e: "effect ex_state (serve_api ex_http ''g'' ex_request ex_state)" by (simp add: effect_def)
  have on: "Authorization_Enabled (Config_Authorization (hx_cfg ex_http))" by code_simp
  have l: "limiter_aside (hx_limiter ex_http)" by (simp add: limiter_aside_def ex_http_def new_limiter_def)
  have c: "rc_principal ex_request = None" "rc_Method ex_request = ''POST''" "rc_FullPath ex_request = ''/api/v1/audit/records/get''"
    by (simp_all add: ex_request_def)
  have "presented_caller (hx_verify ex_http) (hx_cfg ex_http) (rc_Header ex_request) = Inr (Some ex_user)" by code_simp
  with effects_are_authorized [OF on l c(1) e] c(2,3) show ?thesis by simp
qed

end
