(* ===== verification/Http_Facts.thy ===== *)
theory Http_Facts
  imports Http_Gates
begin

text \<open>
  The HTTP side from end to end: every answer is traced, every read of audit data is logged, and a
  request that repeats an idempotency key runs once.
\<close>

lemma fst_persist [simp]: "fst (persist_outcome m key owner run) = fst run"
  by (auto simp: persist_outcome_def split: prod.splits outcome_of.splits option.splits)

section \<open>What every answer carries\<close>

text \<open>
  A handler carries some headers and the identifier of the request when every answer it gives to a
  context that has them shows them.  Every middleware keeps that of the handlers behind it, as long as it
  sets none of these headers itself.
\<close>

definition carries :: "(string \<times> string) set \<Rightarrow> string \<Rightarrow> request_context \<Rightarrow> bool" where
  "carries hs ident c \<longleftrightarrow> hs \<subseteq> set (rc_out c) \<and> rc_request_id c = ident"

definition displays :: "(string \<times> string) set \<Rightarrow> string \<Rightarrow> 'b outcome_of \<Rightarrow> bool" where
  "displays hs ident r \<longleftrightarrow> (case r of
      Replied x \<Rightarrow> hs \<subseteq> set (rs_headers x) \<and> (\<forall>e. rs_body x = Some e \<longrightarrow> ev_RequestID e = ident)
    | Unwritten out \<Rightarrow> hs \<subseteq> set out
    | Panicked out \<Rightarrow> hs \<subseteq> set out)"

definition carrier :: "(string \<times> string) set \<Rightarrow> string \<Rightarrow> ('w, 'b) handler \<Rightarrow> bool" where
  "carrier hs ident h \<longleftrightarrow> (\<forall>c w. carries hs ident c \<longrightarrow> displays hs ident (fst (h c w)))"

lemma carrier_run: "carrier hs ident h \<Longrightarrow> carries hs ident c \<Longrightarrow> displays hs ident (fst (h c w))"
  by (simp add: carrier_def)

lemma carries_set_header: "carries hs ident c \<Longrightarrow> k \<notin> fst ` hs \<Longrightarrow> carries hs ident (set_header k v c)"
  by (force simp: carries_def set_header_def)

lemma carries_update [simp]:
  "carries hs ident (c\<lparr>rc_limit := l\<rparr>) = carries hs ident c"
  "carries hs ident (c\<lparr>rc_environment := e\<rparr>) = carries hs ident c"
  "carries hs ident (c\<lparr>rc_idempotency := i\<rparr>) = carries hs ident c"
  "carries hs ident (with_caller p s cr c) = carries hs ident c"
  by (simp_all add: carries_def with_caller_def)

lemma displays_reply [simp]: "carries hs ident c \<Longrightarrow> displays hs ident (reply c n code m b)"
  by (simp add: carries_def displays_def reply_def)

lemma displays_ok [simp]: "carries hs ident c \<Longrightarrow> displays hs ident (ok_reply c b)"
  by (simp add: ok_reply_def)

lemma displays_fail [simp]: "carries hs ident c \<Longrightarrow> displays hs ident (fail_reply c e)"
  by (simp add: fail_reply_eq)

lemma displays_plain [simp]:
  "carries hs ident c \<Longrightarrow> displays hs ident (Replied \<lparr>rs_status = n, rs_headers = rc_out c, rs_body = None\<rparr>)"
  by (simp add: carries_def displays_def)

lemma carries_out: "displays hs ident (Panicked out) \<Longrightarrow> carries hs ident c \<Longrightarrow> carries hs ident (c\<lparr>rc_out := out\<rparr>)"
  "displays hs ident (Unwritten out) \<Longrightarrow> carries hs ident c \<Longrightarrow> carries hs ident (c\<lparr>rc_out := out\<rparr>)"
  by (simp_all add: carries_def displays_def)

lemma carrier_idempotency_key:
  "carrier hs ident h \<Longrightarrow> ''Idempotency-Key'' \<notin> fst ` hs \<Longrightarrow> carrier hs ident (idempotency_key_mw valid h)"
  by (auto simp: carrier_def idempotency_key_mw_def Let_def carries_set_header)

lemma carrier_environment: "carrier hs ident h \<Longrightarrow> carrier hs ident (environment_mw p h)"
  by (simp add: carrier_def environment_mw_def)

lemma carrier_recovery:
  assumes "carrier hs ident h"
  shows "carrier hs ident (recovery_mw h)"
  unfolding carrier_def
proof (intro allI impI)
  fix c w
  assume c: "carries hs ident c"
  obtain r w1 where run: "h c w = (r, w1)" by fastforce
  then have "displays hs ident r" using carrier_run [OF assms c, of w] by simp
  then show "displays hs ident (fst (recovery_mw h c w))"
    using run by (cases r) (simp_all add: recovery_mw_def carries_out(1) [OF _ c])
qed

lemma carrier_timeout:
  assumes "carrier hs ident h"
  shows "carrier hs ident (timeout_mw expired h)"
  unfolding carrier_def
proof (intro allI impI)
  fix c w
  assume c: "carries hs ident c"
  obtain r w1 where run: "h c w = (r, w1)" by fastforce
  then have "displays hs ident r" using carrier_run [OF assms c, of w] by simp
  then show "displays hs ident (fst (timeout_mw expired h c w))"
    using run by (cases r) (simp_all add: timeout_mw_def carries_out(2) [OF _ c])
qed

definition security_header_names :: "string set" where
  "security_header_names = {''Cache-Control'', ''Content-Security-Policy'', ''Referrer-Policy'',
     ''X-Frame-Options'', ''X-Content-Type-Options'', ''Strict-Transport-Security''}"

definition cors_header_names :: "string set" where
  "cors_header_names = {''Access-Control-Max-Age'', ''Access-Control-Expose-Headers'', ''Access-Control-Allow-Headers'',
     ''Access-Control-Allow-Methods'', ''Vary'', ''Access-Control-Allow-Origin''}"

definition limit_header_names :: "string set" where
  "limit_header_names = {''X-RateLimit-Remaining'', ''X-RateLimit-Limit'', ''Retry-After''}"

lemma carrier_security:
  "carrier hs ident h \<Longrightarrow> fst ` hs \<inter> security_header_names = {} \<Longrightarrow> carrier hs ident (security_headers_mw h)"
  unfolding carrier_def security_headers_mw_def security_header_names_def Let_def
  by (auto simp: carries_set_header)

lemma carrier_cors:
  "carrier hs ident h \<Longrightarrow> fst ` hs \<inter> cors_header_names = {} \<Longrightarrow> carrier hs ident (cors_mw cfg h)"
  unfolding carrier_def cors_mw_def cors_header_names_def Let_def
  by (auto simp: carries_set_header)

lemma carrier_max_body: "carrier hs ident h \<Longrightarrow> carrier hs ident (max_body_mw n h)"
  by (simp add: carrier_def max_body_mw_def)

lemma carrier_json: "carrier hs ident h \<Longrightarrow> carrier hs ident (require_json_mw mt h)"
  by (simp add: carrier_def require_json_mw_def)

lemma carrier_rate:
  "carrier hs ident h \<Longrightarrow> fst ` hs \<inter> limit_header_names = {} \<Longrightarrow> carrier hs ident (rate_limit_mw l rule d k h)"
  unfolding carrier_def rate_limit_mw_def limit_header_names_def Let_def
  by (auto simp: carries_set_header split: prod.splits sum.splits)

lemma carrier_authentication:
  "carrier hs ident h \<Longrightarrow> carrier hs ident (database_authentication_mw verify cfg h)"
  by (auto simp: carrier_def database_authentication_mw_def Let_def split: sum.splits)

lemma carrier_authorization:
  "carrier hs ident h \<Longrightarrow> carrier hs ident (database_authorization_mw enabled service uni evaluate h)"
  by (auto simp: carrier_def database_authorization_mw_def split: prod.splits option.splits)

lemma carrier_access:
  assumes "carrier hs ident h"
  shows "carrier hs ident (audit_access_mw recorder h)"
  unfolding carrier_def
proof (intro allI impI)
  fix c w
  assume c: "carries hs ident c"
  obtain r w1 where run: "h c w = (r, w1)" by fastforce
  then have "displays hs ident r" using carrier_run [OF assms c, of w] by simp
  then show "displays hs ident (fst (audit_access_mw recorder h c w))"
    using run by (cases r) (auto simp: audit_access_mw_def split: option.splits)
qed

lemma carrier_idempotency:
  "carrier hs ident h \<Longrightarrow> carrier hs ident (idempotency_mw manager paths sha h)"
  by (auto simp: carrier_def idempotency_mw_def split: option.splits sum.splits prod.splits decision.splits)

lemma carrier_handle: "carrier hs ident (handle d m call f)"
  by (auto simp: carrier_def handle_def respond_def split: sum.splits prod.splits)

lemma carrier_routes: "map_of (api_routes s) p = Some h \<Longrightarrow> carrier hs ident h"
  by (auto simp: api_routes_def handle_record_def handle_get_def handle_query_def handle_export_def
      handle_page_policies_def handle_get_policy_def handle_set_policy_def carrier_handle
      split: if_splits) (simp_all add: carrier_def handle_version_def handle_me_def)

lemma carrier_serve:
  assumes "fst ` hs \<inter> limit_header_names = {}"
  shows "map_of (api_routes s) p = Some h \<Longrightarrow> carrier hs ident (api_chain s h)"
  using assms unfolding api_chain_def api_inner_chain_def
  by (intro carrier_rate carrier_authentication carrier_authorization carrier_access carrier_idempotency carrier_routes)

lemma carrier_dispatch:
  assumes "fst ` hs \<inter> limit_header_names = {}"
  shows "carrier hs ident (\<lambda>c. case map_of (api_routes s) (rc_FullPath c) of
        Some h \<Rightarrow> api_chain s h c
      | None \<Rightarrow> (\<lambda>w. (Replied \<lparr>rs_status = 404, rs_headers = rc_out c, rs_body = None\<rparr>, w)))"
  using carrier_serve [OF assms, of s _ _ ident] by (auto simp: carrier_def split: option.splits)

lemma recovery_no_panic: "fst (recovery_mw h c w) \<noteq> Panicked hs"
  by (auto simp: recovery_mw_def reply_def split: prod.splits outcome_of.splits)

text \<open>
  C25. Every answer of the API can be traced and no panic reaches the server: whatever the client sent as
  the identifier of the request, the answer shows a well-formed one, the client's when it is well-formed
  and the generated one otherwise, in the header and in the envelope.
\<close>

lemma answers_are_traced:
  assumes "\<And>bytes. random = Inr bytes \<Longrightarrow> length bytes = 16" "\<bar>nanos\<bar> < 2 ^ 63"
  shows "valid_request_id (traced_id (generate_request_id random nanos) c) \<and>
    (case fst (serve_api s (generate_request_id random nanos) c w) of
       Replied x \<Rightarrow> (''X-Request-ID'', traced_id (generate_request_id random nanos) c) \<in> set (rs_headers x) \<and>
         (\<forall>e. rs_body x = Some e \<longrightarrow> ev_RequestID e = traced_id (generate_request_id random nanos) c)
     | Unwritten out \<Rightarrow> (''X-Request-ID'', traced_id (generate_request_id random nanos) c) \<in> set out
     | Panicked out \<Rightarrow> False)"
proof -
  define generated where "generated = generate_request_id random nanos"
  define ident where "ident = traced_id generated"
  let ?hs = "{(''X-Request-ID'', ident c)}"
  let ?inner = "\<lambda>c. case map_of (api_routes s) (rc_FullPath c) of
        Some h \<Rightarrow> api_chain s h c
      | None \<Rightarrow> (\<lambda>w. (Replied \<lparr>rs_status = 404, rs_headers = rc_out c, rs_body = None\<rparr>, w))"
  let ?rest = "recovery_mw (security_headers_mw (cors_mw (HTTP_CORS (Config_HTTP (hx_cfg s)))
     (max_body_mw (HTTP_MaxBodyBytes (Config_HTTP (hx_cfg s)))
     (timeout_mw (hx_expired s) (require_json_mw (hx_media_type s) ?inner)))))"
  let ?chain = "idempotency_key_mw (hx_valid_key s)
     (environment_mw (Runtime_ActiveProfile (Config_Runtime (hx_cfg s))) ?rest)"
  let ?c = "(set_header ''X-Request-ID'' (ident c) c)\<lparr>rc_request_id := ident c\<rparr>"
  have valid: "valid_request_id (ident c)"
    using generated_id_valid [of random nanos, OF assms(1)] assms(2) by (simp add: ident_def traced_id_def generated_def)
  have chain: "carrier ?hs (ident c) ?chain"
    by (intro carrier_idempotency_key carrier_environment carrier_recovery carrier_security carrier_cors
        carrier_max_body carrier_timeout carrier_json carrier_dispatch)
      (simp_all add: limit_header_names_def cors_header_names_def security_header_names_def)
  have run: "serve_api s generated c w = ?chain ?c w"
    by (simp add: serve_api_def server_chain_def request_id_mw_def Let_def ident_def traced_id_def generated_def)
  have "carries ?hs (ident c) ?c" by (simp add: carries_def set_header_def)
  from carrier_run [OF chain this]
  have "displays ?hs (ident c) (fst (serve_api s generated c w))" by (simp only: run)
  moreover have panic: "fst (serve_api s generated c w) \<noteq> Panicked out" for out
    by (auto simp: run idempotency_key_mw_def environment_mw_def Let_def recovery_no_panic)
  ultimately show ?thesis using valid
    unfolding generated_def [symmetric] ident_def [symmetric]
    by (cases "fst (serve_api s generated c w)") (simp_all add: displays_def panic)
qed

lemma answers_are_traced_witness:
  "valid_request_id (traced_id (generate_request_id (Inl (ErrText ''entropy'')) 7) ex_request)"
  using answers_are_traced [of "Inl (ErrText ''entropy'')" 7 ex_request ex_http ex_state] by simp

section \<open>The log of accesses\<close>

definition manager_aside :: "('p api_world, body) idempotency_manager \<Rightarrow> bool" where
  "manager_aside m \<longleftrightarrow> (\<forall>k f. aside (im_begin m k f)) \<and> (\<forall>k ow e. aside (im_complete m k ow e)) \<and>
     (\<forall>k ow e. aside (im_fail m k ow e))"

text \<open>A handler that always answers and leaves the log alone.\<close>

definition quiet :: "('p api_world, body) handler \<Rightarrow> bool" where
  "quiet h \<longleftrightarrow> (\<forall>c w. aw_access (snd (h c w)) = aw_access w \<and> (\<exists>x. fst (h c w) = Replied x))"

lemma reply_is_replied: "\<exists>x. reply c n code m b = Replied x" "\<exists>x. fail_reply c e = Replied x"
  "\<exists>x. ok_reply c b2 = Replied x"
  by (simp_all add: fail_reply_eq ok_reply_def reply_def)

lemma quiet_run: "quiet h \<Longrightarrow> h c w = (r, w1) \<Longrightarrow> aw_access w1 = aw_access w \<and> (\<exists>x. r = Replied x)"
  by (metis quiet_def fst_conv snd_conv)

lemma quiet_gate:
  assumes "quiet h" "\<And>c w. (\<exists>r w1. h' c w = (r, w1) \<and> untouched w w1 \<and> (\<exists>x. r = Replied x)) \<or> (\<exists>c1 w1. h' c w = h c1 w1 \<and> untouched w w1)"
  shows "quiet h'"
  unfolding quiet_def
proof (intro allI)
  fix c w
  from assms(2) [of c w] assms(1) show "aw_access (snd (h' c w)) = aw_access w \<and> (\<exists>x. fst (h' c w) = Replied x)"
    by (auto simp: quiet_def untouched_def)
qed

lemma quiet_handle:
  assumes "\<And>q c w. aw_access (snd (call q c w)) = aw_access w"
  shows "quiet (handle d m call f)"
  using assms by (auto simp: quiet_def handle_def respond_def reply_is_replied split: sum.splits prod.splits)
    (metis snd_conv)+

lemma on_access [simp]: "aw_access (snd (on_audit f w)) = aw_access w" "aw_access (snd (on_policy g w)) = aw_access w"
  by (simp_all add: on_audit_def on_policy_def Let_def split: prod.splits)

lemma quiet_routes: "map_of (api_routes s) p = Some h \<Longrightarrow> quiet h"
  by (auto simp: api_routes_def handle_record_def handle_get_def handle_query_def handle_export_def
      handle_page_policies_def handle_get_policy_def handle_set_policy_def intro!: quiet_handle split: if_splits)
    (simp_all add: quiet_def handle_version_def handle_me_def reply_is_replied)

lemma quiet_rate:
  assumes "limiter_aside l" "quiet h"
  shows "quiet (rate_limit_mw l rule d k h)"
proof (rule quiet_gate [OF assms(2)])
  fix c :: request_context and w
  show "(\<exists>r w1. rate_limit_mw l rule d k h c w = (r, w1) \<and> untouched w w1 \<and> (\<exists>x. r = Replied x)) \<or>
    (\<exists>c1 w1. rate_limit_mw l rule d k h c w = h c1 w1 \<and> untouched w w1)"
    by (rule rate_limit_cases [OF assms(1), of rule d k h c w]) (auto simp: reply_is_replied)
qed

lemma quiet_persist:
  assumes "manager_aside m" "aw_access w1 = aw_access w" "\<exists>x. r = Replied x"
  shows "aw_access (snd (persist_outcome m key ow (r, w1))) = aw_access w"
  using assms by (auto simp: persist_outcome_def manager_aside_def aside_def untouched_def split: option.splits)

lemma quiet_idempotency:
  assumes "\<And>m. manager = Some m \<Longrightarrow> manager_aside m" "quiet h"
  shows "quiet (idempotency_mw manager paths sha h)"
  unfolding quiet_def
proof (intro allI)
  fix c w
  show "aw_access (snd (idempotency_mw manager paths sha h c w)) = aw_access w \<and>
    (\<exists>x. fst (idempotency_mw manager paths sha h c w) = Replied x)"
  proof (cases "rc_idempotency c = None \<or> manager = None")
    case True
    then have "idempotency_mw manager paths sha h c w = h c w" by (auto simp: idempotency_mw_def split: option.splits)
    with assms(2) show ?thesis by (simp add: quiet_def)
  next
    case False
    then obtain key m where k: "rc_idempotency c = Some key" and m: "manager = Some m" by auto
    obtain r w1 where b: "\<And>fp. idempotency_fingerprint sha c = Inr fp \<Longrightarrow> im_begin m key fp w = (r, w1)"
      by (cases "idempotency_fingerprint sha c") (auto, metis surj_pair)
    have same: "untouched w w1" if "idempotency_fingerprint sha c = Inr fp" for fp
      using b [OF that] assms(1) [OF m] by (auto simp: manager_aside_def dest: asideD)
    obtain r2 w2 where h: "h c w1 = (r2, w2)" by fastforce
    note q = quiet_run [OF assms(2) h]
    have "aw_access (snd (persist_outcome m key ow (r2, w2))) = aw_access w1" for ow
      using quiet_persist [OF assms(1) [OF m]] q by blast
    with q b same h assms(2) show ?thesis
      by (auto simp: idempotency_mw_def k m reply_is_replied quiet_def untouched_def split: sum.splits decision.splits)
  qed
qed


text \<open>What the log has to say of a run: nothing, and nothing was disclosed, or the one entry of its answer.\<close>

definition accounted :: "string \<Rightarrow> request_context \<Rightarrow> 'p api_world \<Rightarrow> body outcome_of \<times> 'p api_world \<Rightarrow> bool" where
  "accounted operation c w run \<longleftrightarrow> aw_access (snd run) = aw_access w \<and> \<not> discloses (fst run) \<or>
     (\<exists>x. fst run = Replied x \<and> aw_access (snd run) = aw_access w @ [access_entry_of operation c (rs_status x)])"

lemma accounted_access:
  assumes "quiet h" "\<And>e w. aw_access (snd (rec e w)) = aw_access w @ [e]"
    and "audit_access_operation (rc_FullPath c) = Some operation"
  shows "accounted operation c w (audit_access_mw (Some rec) h c w)"
proof -
  obtain r w1 where run: "h c w = (r, w1)" by fastforce
  obtain x where x: "r = Replied x" and w1: "aw_access w1 = aw_access w" using quiet_run [OF assms(1) run] by blast
  have "audit_access_mw (Some rec) h c w = (Replied x, snd (rec (access_entry_of operation c (rs_status x)) w1))"
    by (simp add: audit_access_mw_def assms(3) run x written_status_def)
  moreover have "aw_access (snd (rec (access_entry_of operation c (rs_status x)) w1)) = aw_access w @ [access_entry_of operation c (rs_status x)]"
    by (simp only: assms(2) w1)
  ultimately show ?thesis unfolding accounted_def by (intro disjI2 exI [of _ x]) (simp only: fst_conv snd_conv simp_thms)
qed

lemma accounted_from:
  assumes "accounted operation c1 w1 run" "aw_access w1 = aw_access w" "access_entry_of operation c1 = access_entry_of operation c"
  shows "accounted operation c w run"
  using assms by (simp add: accounted_def)

lemma same_entry: "same_request c c1 \<Longrightarrow> access_entry_of op c1 = access_entry_of op c"
  by (intro ext) (simp add: access_entry_of_def same_request_def)

lemma accounted_authorization:
  assumes "\<And>w. accounted operation c w (h c w)"
  shows "accounted operation c w (database_authorization_mw enabled n uni (evaluate_http s) h c w)"
proof -
  obtain r w1 where e: "evaluate_http s c ''http'' (to_lower uni (rc_Method c)) (rc_FullPath c) n w = (r, w1)" by fastforce
  moreover have "aw_access (snd (evaluate_http s c ''http'' (to_lower uni (rc_Method c)) (rc_FullPath c) n w)) = aw_access w"
    by (simp add: evaluate_http_def)
  ultimately have same: "aw_access w1 = aw_access w" by simp
  show ?thesis
  proof (cases "enabled \<and> r \<noteq> None")
    case True
    then obtain err where r: "r = Some err" by blast
    show ?thesis
      by (cases "errors_is err ErrDecisionUnavailable \<or> errors_is err ErrPolicyMissing")
        (use True e same in \<open>simp_all add: database_authorization_mw_def accounted_def r\<close>)
  next
    case False
    have "accounted operation c w (h c w1)" by (rule accounted_from [OF assms same refl])
    with False e assms show ?thesis by (auto simp: database_authorization_mw_def)
  qed
qed

lemma accounted_authentication:
  assumes "\<And>c w. audit_access_operation (rc_FullPath c) = Some operation \<Longrightarrow> accounted operation c w (h c w)"
    and "audit_access_operation (rc_FullPath c) = Some operation"
  shows "accounted operation c w (database_authentication_mw verify cfg h c w)"
proof -
  have "accounted operation c w (h (with_caller p i cr c) w)" for p i cr
  proof (rule accounted_from [OF _ refl])
    show "accounted operation (with_caller p i cr c) w (h (with_caller p i cr c) w)"
      using assms(2) by (intro assms(1)) (simp add: with_caller_def)
  qed (rule ext, simp add: access_entry_of_def with_caller_def)
  then show ?thesis using assms
    by (auto simp: database_authentication_mw_def Let_def accounted_def split: sum.splits)
qed


lemma accounted_dispatch:
  assumes "hx_recorder s = Some rec" "\<And>e w. aw_access (snd (rec e w)) = aw_access w @ [e]"
    and "limiter_aside (hx_limiter s)" "\<And>m. hx_manager s = Some m \<Longrightarrow> manager_aside m"
    and "audit_access_operation (rc_FullPath c) = Some operation"
  shows "accounted operation c w (dispatch behind_limits s c w)"
proof (cases "map_of (api_routes s) (rc_FullPath c)")
  case None
  then show ?thesis by (simp add: dispatch_def accounted_def)
next
  case (Some h)
  have "quiet (rate_limit_mw (hx_limiter s) (RateLimit_User (Config_RateLimit (hx_cfg s))) ''user''
        (\<lambda>c. case rc_subject c of None \<Rightarrow> [] | Some v \<Rightarrow> v)
     (idempotency_mw (hx_manager s) (Idempotency_HTTPPaths (Config_Idempotency (hx_cfg s))) (hx_sha256 s) h))"
    by (intro quiet_rate quiet_idempotency assms(3,4) quiet_routes [OF Some])
  then have "accounted operation c w (api_inner_chain s h c w)"
    if "audit_access_operation (rc_FullPath c) = Some operation" for c w
    unfolding api_inner_chain_def assms(1) using that by (intro accounted_access assms(2))
  then have "accounted operation c w (behind_limits s h c w)"
    unfolding behind_limits_def by (intro accounted_authentication accounted_authorization assms(5))
  with Some show ?thesis by (simp add: dispatch_def)
qed

lemma accounted_gate:
  assumes "gates h' h" "\<And>c w. audit_access_operation (rc_FullPath c) = Some operation \<Longrightarrow> accounted operation c w (h c w)"
    and "audit_access_operation (rc_FullPath c) = Some operation"
  shows "accounted operation c w (h' c w)"
proof (cases "untouched w (snd (h' c w)) \<and> \<not> discloses (fst (h' c w))")
  case True
  then show ?thesis by (simp add: accounted_def untouched_def)
next
  case False
  then obtain c1 w1 where 1: "same_request c c1" "untouched w w1" "stands_for (h' c w) (h c1 w1)"
    using assms(1) unfolding gates_keeping_def by blast
  have "accounted operation c1 w1 (h c1 w1)" using 1(1) assms(3) by (intro assms(2)) (simp add: same_request_def)
  then have "accounted operation c w (h c1 w1)"
    using 1(2) same_entry [OF 1(1)] by (auto intro: accounted_from simp: untouched_def)
  with 1(3) show ?thesis by (auto simp: accounted_def stands_for_def)
qed

text \<open>
  C23. Reads of the audit data leave a trace: when the operation log is on, a request to one of the reading
  routes is either refused with nothing disclosed and nothing logged, or adds exactly one entry to the log,
  with the operation, the route, the identifier that the answer carries, and a success exactly when the
  status the client sees is below 400.
\<close>

lemma reads_are_logged:
  assumes "hx_recorder s = Some rec" "\<And>e w. aw_access (snd (rec e w)) = aw_access w @ [e]"
    and "limiter_aside (hx_limiter s)" "\<And>m. hx_manager s = Some m \<Longrightarrow> manager_aside m"
    and "audit_access_operation (rc_FullPath c) = Some operation" "serve_api s generated c w = (r, w')"
  shows "aw_access w' = aw_access w \<and> \<not> discloses r \<or>
    (\<exists>x e. r = Replied x \<and> aw_access w' = aw_access w @ [e] \<and> ae_Operation e = operation \<and> ae_Route e = rc_FullPath c \<and>
       ae_RequestID e = traced_id generated c \<and> (ae_Succeeded e \<longleftrightarrow> rs_status x < 400))"
proof -
  let ?c = "traced_request (traced_id generated c) c"
  obtain g where g: "gates g (dispatch behind_limits s)" and run: "\<And>c w. serve_api s generated c w = g (traced_request (traced_id generated c) c) w"
    using served_behind_gates [OF assms(3)] by blast
  have "accounted operation ?c w (g ?c w)"
    by (rule accounted_gate [OF g accounted_dispatch [OF assms(1-4)]]) (simp_all add: traced_request_def assms(5))
  then show ?thesis unfolding run [symmetric] assms(6)
    by (auto simp: accounted_def access_entry_of_def traced_request_def)
qed

lemma reads_are_logged_witness:
  "\<exists>e. aw_access (snd (serve_api ex_http ''g'' ex_request ex_state)) = [e] \<and> ae_RequestID e = ''r-1'' \<and> ae_Succeeded e"
proof -
  let ?run = "serve_api ex_http ''g'' ex_request ex_state"
  have rec: "hx_recorder ex_http = Some ex_recorder" by (simp add: ex_http_def)
  have adds: "aw_access (snd (ex_recorder e w)) = aw_access w @ [e]" for e w by (simp add: ex_recorder_def)
  have l: "limiter_aside (hx_limiter ex_http)" by (simp add: limiter_aside_def ex_http_def new_limiter_def)
  have m: "manager_aside m" if "hx_manager ex_http = Some m" for m
    using that by (auto simp: ex_http_def ex_manager_def manager_aside_def aside_def untouched_def split: option.splits)
  have op: "audit_access_operation (rc_FullPath ex_request) = Some ''audit.record.get''" by code_simp
  have "discloses (fst ?run)" "case fst ?run of Replied x \<Rightarrow> rs_status x = 200 | _ \<Rightarrow> False" by code_simp+
  moreover have "traced_id ''g'' ex_request = ''r-1''" "aw_access ex_state = []" by code_simp+
  ultimately show ?thesis
    using reads_are_logged [OF rec adds l m op prod.collapse [symmetric, of ?run]] by (auto split: outcome_of.splits)
qed

section \<open>Idempotent requests\<close>

lemma of_hex_digit: "n < 16 \<Longrightarrow> of_char (hex_digit n) = (if n < 10 then 48 + n else 87 + n)"
  by (simp add: hex_digit_def of_char_of)

lemma hex_digit_inj:
  assumes "m < 16" "n < 16" "hex_digit m = hex_digit n"
  shows "m = n"
proof -
  have "(if m < 10 then 48 + m else 87 + m) = (if n < 10 then 48 + n else 87 + n)"
    using of_hex_digit [OF assms(1)] of_hex_digit [OF assms(2)] assms(3) by simp
  with assms(1,2) show ?thesis by (auto split: if_splits)
qed

lemma hex_encode_inj: "hex_encode s = hex_encode t \<Longrightarrow> s = t"
proof (induction s arbitrary: t)
  case Nil
  then show ?case by (cases t) (simp_all add: hex_encode_def)
next
  case (Cons a s)
  then obtain b t' where t: "t = b # t'" by (cases t) (simp_all add: hex_encode_def)
  have small: "of_char c < (256 :: nat)" for c using of_char_mod_256 [of c, where 'a = nat] by (metis mod_less_divisor zero_less_numeral)
  have low: "of_char c div 16 < (16 :: nat)" "of_char c mod 16 < (16 :: nat)" for c
    using small [of c] by (simp_all add: less_mult_imp_div_less)
  from Cons.prems t have "hex_digit (of_char a div 16) = hex_digit (of_char b div 16)"
    "hex_digit (of_char a mod 16) = hex_digit (of_char b mod 16)" and r: "hex_encode s = hex_encode t'"
    by (simp_all add: hex_encode_def)
  then have "of_char a div 16 = (of_char b div 16 :: nat)" "of_char a mod 16 = (of_char b mod 16 :: nat)"
    using hex_digit_inj low by blast+
  then have "(of_char a :: nat) = of_char b" by (metis div_mult_mod_eq)
  then have "a = b" by (metis char_of_char)
  with Cons.IH [OF r] t show ?case by simp
qed

text \<open>What the fingerprint of a request covers: the subject, the method, the route and the body.\<close>

definition fingerprinted :: "request_context \<Rightarrow> string \<Rightarrow> string" where
  "fingerprinted c body = (case rc_subject c of None \<Rightarrow> ''<nil>'' | Some s \<Rightarrow> s)
        @ [CHR 0x00] @ rc_Method c @ [CHR 0x00] @ rc_FullPath c @ [CHR 0x00] @ body"

lemma fingerprint_eq:
  "read_body c = Inr body \<Longrightarrow> idempotency_fingerprint sha c = Inr (hex_encode (sha (fingerprinted c body)))"
  by (simp add: idempotency_fingerprint_def fingerprinted_def)

definition guarded :: "('w, 'b) idempotency_manager \<Rightarrow> string list \<Rightarrow> string \<Rightarrow> request_context \<Rightarrow> bool" where
  "guarded m paths key c \<longleftrightarrow> im_enabled m \<and> rc_Method c = ''POST'' \<and> matches_any (rc_FullPath c) paths \<and> rc_idempotency c = Some key"

lemma idempotency_run:
  assumes "guarded m paths key c" "read_body c = Inr body"
    and "im_begin m key (hex_encode (sha (fingerprinted c body))) w = (Inr d, w1)"
  shows "d = StateAcquired ow \<Longrightarrow> idempotency_mw (Some m) paths sha h c w = persist_outcome m key ow (h c w1)"
    and "d = StateConflict \<Longrightarrow> idempotency_mw (Some m) paths sha h c w =
      (fail_reply c (app_conflict ''idempotency key belongs to a different request'' None), w1)"
    and "d = StateFailed code msg n \<Longrightarrow> idempotency_mw (Some m) paths sha h c w = (reply c n code msg None, w1)"
    and "d = StateCompleted (Inr env) \<Longrightarrow>
      idempotency_mw (Some m) paths sha h c w = (reply c 200 (ev_Code env) (ev_Message env) (ev_Body env), w1)"
  using assms by (simp_all add: idempotency_mw_def guarded_def fingerprint_eq [OF assms(2)])

text \<open>The answer that is kept of an answer, and the one it is replayed as.\<close>

definition replayed :: "request_context \<Rightarrow> 'b response \<Rightarrow> 'b envelope \<Rightarrow> 'b outcome_of" where
  "replayed c x e = (if rs_status x \<ge> 400 then reply c (rs_status x) (ev_Code e) (ev_Message e) None
     else reply c 200 (ev_Code e) (ev_Message e) (ev_Body e))"

text \<open>
  The store of keys remembers what it was told: after an outcome was stored for a key by the request that
  acquired it, the same fingerprint finds that outcome and another finds a conflict.
\<close>

definition finds :: "('w, 'b) idempotency_manager \<Rightarrow> string \<Rightarrow> string \<Rightarrow> 'b decision \<Rightarrow> 'w \<Rightarrow> bool" where
  "finds m k fp d w \<longleftrightarrow> fst (im_begin m k fp w) = Inr d \<and> (\<forall>fp'. fp' \<noteq> fp \<longrightarrow> fst (im_begin m k fp' w) = Inr StateConflict)"

definition remembers :: "('w, 'b) idempotency_manager \<Rightarrow> bool" where
  "remembers m \<longleftrightarrow> (\<forall>k ow fp w w1. im_begin m k fp w = (Inr (StateAcquired ow), w1) \<longrightarrow>
     (\<forall>env w2 w3. im_complete m k ow env w2 = (None, w3) \<longrightarrow> finds m k fp (StateCompleted (Inr env)) w3) \<and>
     (\<forall>code msg n w2 w3. im_fail m k ow (code, msg, n) w2 = (None, w3) \<longrightarrow> finds m k fp (StateFailed code msg n) w3))"

text \<open>What is kept of the answer of the request that acquired the key, and where.\<close>

definition kept_decision :: "'b response \<Rightarrow> 'b envelope \<Rightarrow> 'b decision" where
  "kept_decision x e = (if rs_status x \<ge> 400 then StateFailed (ev_Code e) (ev_Message e) (rs_status x)
     else StateCompleted (Inr (e\<lparr>ev_RequestID := []\<rparr>)))"

definition keep_answer :: "('w, 'b) idempotency_manager \<Rightarrow> string \<Rightarrow> string \<Rightarrow> 'b response \<Rightarrow> 'b envelope \<Rightarrow> 'w \<Rightarrow> goerr option \<times> 'w" where
  "keep_answer m key ow x e w = (if rs_status x \<ge> 400 then im_fail m key ow (ev_Code e, ev_Message e, rs_status x) w
     else im_complete m key ow (e\<lparr>ev_RequestID := []\<rparr>) w)"

lemma kept_is_found:
  assumes "remembers m" "im_begin m key fp w = (Inr (StateAcquired ow), w1)" "keep_answer m key ow x e w2 = (None, w3)"
  shows "finds m key fp (kept_decision x e) w3"
  using assms unfolding remembers_def keep_answer_def kept_decision_def by (simp split: if_splits) blast+

lemma persist_keeps:
  "rs_body x = Some e \<Longrightarrow> persist_outcome m key ow (Replied x, w) = (Replied x, snd (keep_answer m key ow x e w))"
  by (simp add: persist_outcome_def keep_answer_def)

lemma second_is_answered:
  assumes "guarded m paths key c" "read_body c = Inr body" "finds m key fp (kept_decision x e) w"
  shows "idempotency_mw (Some m) paths sha h c w =
    (if hex_encode (sha (fingerprinted c body)) = fp then replayed c x e
     else fail_reply c (app_conflict ''idempotency key belongs to a different request'' None),
     snd (im_begin m key (hex_encode (sha (fingerprinted c body))) w))"
proof -
  let ?fp = "hex_encode (sha (fingerprinted c body))"
  have "fst (im_begin m key ?fp w) = Inr (if ?fp = fp then kept_decision x e else StateConflict)"
    using assms(3) by (cases "?fp = fp") (simp_all add: finds_def)
  then obtain w1 where b: "im_begin m key ?fp w = (Inr (if ?fp = fp then kept_decision x e else StateConflict), w1)"
    by (metis prod.collapse)
  note run = idempotency_run [where sha = sha, OF assms(1,2) b]
  consider "?fp \<noteq> fp" | "?fp = fp" "rs_status x \<ge> 400" | "?fp = fp" "\<not> rs_status x \<ge> 400" by blast
  then show ?thesis
  proof cases
    case 1
    then show ?thesis using run(2) [of h] b by simp
  next
    case 2
    then show ?thesis using run(3) [of _ _ _ h] b by (simp add: kept_decision_def replayed_def)
  next
    case 3
    then show ?thesis using run(4) [of _ h] b by (simp add: kept_decision_def replayed_def)
  qed
qed

text \<open>
  C24. A key runs its request once, given a store of keys that remembers: after a first request
  acquired the key and its answer was stored, a second request with the key gets that answer with
  its own identifier when its fingerprint covers the same (subject, method, route and body), and is
  refused as a conflict when it covers anything else and the two hashes do not collide.  Either way
  the whole run, answer and state, is what \<open>Begin\<close> left, the same for every handler behind: none
  is run.
\<close>

lemma requests_run_once:
  assumes "remembers m"
    and first: "guarded m paths key c" "read_body c = Inr body"
      "im_begin m key (hex_encode (sha (fingerprinted c body))) w = (Inr (StateAcquired ow), w1)"
      "h c w1 = (Replied x, w2)" "rs_body x = Some e"
    and stored: "if rs_status x \<ge> 400 then fst (im_fail m key ow (ev_Code e, ev_Message e, rs_status x) w2) = None
      else fst (im_complete m key ow (e\<lparr>ev_RequestID := []\<rparr>) w2) = None"
    and second: "guarded m paths key c'" "read_body c' = Inr body'"
    and no_collision: "sha (fingerprinted c' body') = sha (fingerprinted c body) \<Longrightarrow>
      fingerprinted c' body' = fingerprinted c body"
  shows "fst (idempotency_mw (Some m) paths sha h c w) = Replied x \<and>
    idempotency_mw (Some m) paths sha other c' (snd (idempotency_mw (Some m) paths sha h c w)) =
      (if fingerprinted c' body' = fingerprinted c body then replayed c' x e
       else fail_reply c' (app_conflict ''idempotency key belongs to a different request'' None),
       snd (im_begin m key (hex_encode (sha (fingerprinted c' body')))
         (snd (idempotency_mw (Some m) paths sha h c w))))"
proof -
  let ?fp = "hex_encode (sha (fingerprinted c body))"
  obtain w3 where w3: "keep_answer m key ow x e w2 = (None, w3)"
    using stored by (cases "keep_answer m key ow x e w2") (auto simp: keep_answer_def split: if_splits)
  have run: "idempotency_mw (Some m) paths sha h c w = (Replied x, w3)"
    using w3 by (simp add: idempotency_run(1) [where sha = sha, OF first(1,2,3)] first(4) persist_keeps [OF first(5)])
  have "hex_encode (sha (fingerprinted c' body')) = ?fp \<longleftrightarrow> fingerprinted c' body' = fingerprinted c body"
    using hex_encode_inj no_collision by metis
  then show ?thesis
    using second_is_answered [OF second kept_is_found [OF assms(1) first(3) w3], of sha other] by (simp add: run)
qed

text \<open>
  Two requests with the key of a first one, whose own handler would panic: the same request gets the
  answer of the first, one with another body is refused, and nothing is changed.  The hash is one that
  has collisions, the sum of the bytes.
\<close>

definition ex_answer :: "body response" where
  "ex_answer = \<lparr>rs_status = 200, rs_headers = [], rs_body = Some \<lparr>ev_Code = CodeOK, ev_Message = ''success'',
     ev_Body = Some (MeBody (Some ''alice'')), ev_RequestID = ''r-1''\<rparr>\<rparr>"

definition ex_checksum :: "string \<Rightarrow> string" where
  "ex_checksum s = [char_of (sum_list (map of_char s) :: int)]"

lemma ex_remembers: "remembers ex_manager"
  unfolding remembers_def
proof (intro allI impI)
  fix k ow fp w w1
  assume a: "im_begin ex_manager k fp w = (Inr (StateAcquired ow), w1)"
  have "ow = fp"
  proof (cases "aw_idempotency w k")
    case (Some x)
    with a show ?thesis by (cases x; cases "snd x") (auto simp: ex_manager_def split: if_splits)
  qed (use a in \<open>simp add: ex_manager_def\<close>)
  then show "(\<forall>env w2 w3. im_complete ex_manager k ow env w2 = (None, w3) \<longrightarrow> finds ex_manager k fp (StateCompleted (Inr env)) w3) \<and>
   (\<forall>code msg n w2 w3. im_fail ex_manager k ow (code, msg, n) w2 = (None, w3) \<longrightarrow> finds ex_manager k fp (StateFailed code msg n) w3)"
    by (auto simp: finds_def ex_manager_def)
qed

definition ex_first :: request_context where
  "ex_first = ex_request\<lparr>rc_idempotency := Some ''k''\<rparr>"

definition ex_again :: request_context where
  "ex_again = ex_first\<lparr>rc_request_id := ''r-2''\<rparr>"

definition ex_another :: request_context where
  "ex_another = ex_first\<lparr>rc_Body := ''{x}''\<rparr>"

definition ex_panics :: "(string list api_world, body) handler" where
  "ex_panics c w = (Panicked [], w)"

definition ex_paths :: "string list" where
  "ex_paths = [''/api/*/*/*/*'']"

definition ex_kept_state :: "string list api_world" where
  "ex_kept_state = snd (idempotency_mw (Some ex_manager) ex_paths ex_checksum (\<lambda>c w. (Replied ex_answer, w)) ex_first ex_state)"

lemma requests_run_once_witness:
  "ex_checksum ''ab'' = ex_checksum ''ba'' \<and>
    idempotency_mw (Some ex_manager) ex_paths ex_checksum ex_panics ex_again ex_kept_state =
      (reply ex_again 200 CodeOK ''success'' (Some (MeBody (Some ''alice''))), ex_kept_state) \<and>
    idempotency_mw (Some ex_manager) ex_paths ex_checksum ex_panics ex_another ex_kept_state =
      (fail_reply ex_another (app_conflict ''idempotency key belongs to a different request'' None), ex_kept_state)"
proof -
  obtain e where e: "rs_body ex_answer = Some e" "e = \<lparr>ev_Code = CodeOK, ev_Message = ''success'',
     ev_Body = Some (MeBody (Some ''alice'')), ev_RequestID = ''r-1''\<rparr>" by (simp add: ex_answer_def)
  have g: "guarded ex_manager ex_paths ''k'' ex_first" "guarded ex_manager ex_paths ''k'' ex_again" "guarded ex_manager ex_paths ''k'' ex_another"
    "read_body ex_first = Inr ''{id}''" "read_body ex_again = Inr ''{id}''" "read_body ex_another = Inr ''{x}''"
    by code_simp+
  have same: "fingerprinted ex_again ''{id}'' = fingerprinted ex_first ''{id}''"
    by (simp add: fingerprinted_def ex_again_def)
  have other: "fingerprinted ex_another ''{x}'' \<noteq> fingerprinted ex_first ''{id}''"
    "ex_checksum (fingerprinted ex_another ''{x}'') \<noteq> ex_checksum (fingerprinted ex_first ''{id}'')"
    by code_simp+
  have acquired: "im_begin ex_manager ''k'' fp ex_state = (Inr (StateAcquired fp), ex_state\<lparr>aw_idempotency := [''k'' \<mapsto> (fp, StateProcessing)]\<rparr>)" for fp
    by (simp add: ex_manager_def ex_state_def)
  have stored: "if rs_status ex_answer \<ge> 400 then fst (im_fail ex_manager ''k'' ow (ev_Code e, ev_Message e, rs_status ex_answer) w2) = None
      else fst (im_complete ex_manager ''k'' ow (e\<lparr>ev_RequestID := []\<rparr>) w2) = None" for ow w2
    by (simp add: ex_manager_def)
  note runs = requests_run_once [where h = "\<lambda>c w. (Replied ex_answer, w)" and sha = ex_checksum and other = ex_panics,
      OF ex_remembers g(1,4) acquired refl e(1) stored, THEN conjunct2, folded ex_kept_state_def]
  have kept: "aw_idempotency ex_kept_state ''k'' \<noteq> None" by code_simp
  then have left: "snd (im_begin ex_manager ''k'' fp ex_kept_state) = ex_kept_state" for fp
    by (auto simp: ex_manager_def split: option.splits prod.splits)
  have "idempotency_mw (Some ex_manager) ex_paths ex_checksum ex_panics ex_again ex_kept_state = (replayed ex_again ex_answer e, ex_kept_state)"
    using runs [OF g(2,5)] same left by simp
  moreover have "replayed ex_again ex_answer e = reply ex_again 200 CodeOK ''success'' (Some (MeBody (Some ''alice'')))"
    by (simp add: replayed_def ex_answer_def e(2))
  moreover have "idempotency_mw (Some ex_manager) ex_paths ex_checksum ex_panics ex_another ex_kept_state =
      (fail_reply ex_another (app_conflict ''idempotency key belongs to a different request'' None), ex_kept_state)"
    using runs [OF g(3,6)] other left by simp
  moreover have "ex_checksum ''ab'' = ex_checksum ''ba''" by code_simp
  ultimately show ?thesis by simp
qed

end
