(* ===== verification/Grpc_Status.thy ===== *)
theory Grpc_Status
  imports Go_Prelude
begin

text \<open>The codes of \<open>google.golang.org/grpc/codes\<close> and their names, for the server and the client.\<close>

datatype grpc_code =
    OK | Canceled | Unknown | InvalidArgument | DeadlineExceeded | NotFound | AlreadyExists | PermissionDenied
  | ResourceExhausted | FailedPrecondition | Aborted | OutOfRange | Unimplemented | InternalError | Unavailable
  | DataLoss | Unauthenticated

definition code_name :: "grpc_code \<Rightarrow> string" where
  "code_name c = (case c of
      OK \<Rightarrow> ''OK'' | Canceled \<Rightarrow> ''Canceled'' | Unknown \<Rightarrow> ''Unknown'' | InvalidArgument \<Rightarrow> ''InvalidArgument''
    | DeadlineExceeded \<Rightarrow> ''DeadlineExceeded'' | NotFound \<Rightarrow> ''NotFound'' | AlreadyExists \<Rightarrow> ''AlreadyExists''
    | PermissionDenied \<Rightarrow> ''PermissionDenied'' | ResourceExhausted \<Rightarrow> ''ResourceExhausted''
    | FailedPrecondition \<Rightarrow> ''FailedPrecondition'' | Aborted \<Rightarrow> ''Aborted'' | OutOfRange \<Rightarrow> ''OutOfRange''
    | Unimplemented \<Rightarrow> ''Unimplemented'' | InternalError \<Rightarrow> ''Internal'' | Unavailable \<Rightarrow> ''Unavailable''
    | DataLoss \<Rightarrow> ''DataLoss'' | Unauthenticated \<Rightarrow> ''Unauthenticated'')"

end
