(* ===== verification/Grpc_Server.thy ===== *)
theory Grpc_Server
  imports Http_Server Grpc_Status "HOL-Library.Word"
begin

text \<open>
  \<open>internal/transport/grpc/server.go\<close>: the status of errors, the interceptors of unary calls and of
  streams, the methods of the audit service and of the health service, and the chain in front of them.
  The generated messages are records with the fields the code reads, a message that may be absent is an
  option, and the time conversion of protobuf, the platform's idempotency interceptor, the recorder and
  the policy evaluation are arguments.
\<close>

section \<open>Status\<close>

text \<open>What a call comes to: a message, a status, or a panic.\<close>

datatype 'a answered = Answered 'a | Status grpc_code string | Crashed

definition status_code :: "'a answered \<Rightarrow> grpc_code" where
  "status_code r = (case r of Answered _ \<Rightarrow> OK | Status c _ \<Rightarrow> c | Crashed \<Rightarrow> Unknown)"

definition grpc_error :: "goerr \<Rightarrow> 'a answered" where
  "grpc_error err = (case errors_as_app err of
      Some (AppErr code message _ _) \<Rightarrow>
        Status (case code of
            CodeInvalidArgument \<Rightarrow> InvalidArgument
          | CodeUnauthorized \<Rightarrow> Unauthenticated
          | CodeForbidden \<Rightarrow> PermissionDenied
          | CodeNotFound \<Rightarrow> NotFound
          | CodeConflict \<Rightarrow> Aborted
          | CodeDependencyUnavailable \<Rightarrow> Unavailable
          | _ \<Rightarrow> InternalError) message
    | _ \<Rightarrow> Status InternalError ''internal server error'')"

section \<open>Calls and interceptors\<close>

text \<open>The context of a call: its metadata, and what the interceptors have put into it.\<close>

record call_context =
  gc_Metadata :: "string \<Rightarrow> string list"
  gc_environment :: "string option"
  gc_request_id :: string
  gc_idempotency :: "string option"
  gc_principal :: "principal option"
  gc_credential :: "string option"
  gc_header :: "(string \<times> string) list"

type_synonym ('w, 'a) call = "call_context \<Rightarrow> 'w \<Rightarrow> 'a answered \<times> 'w"
type_synonym ('w, 'a) interceptor = "('w, 'a) call \<Rightarrow> ('w, 'a) call"

definition environment_interceptor :: "string \<Rightarrow> ('w, 'a) interceptor" where
  "environment_interceptor profile handler c w = handler (c\<lparr>gc_environment := Some profile\<rparr>) w"

definition incoming_request_id :: "string \<Rightarrow> call_context \<Rightarrow> string" where
  "incoming_request_id generated c =
     (let ident = (case gc_Metadata c ''x-request-id'' of v # _ \<Rightarrow> (if valid_request_id v then v else []) | [] \<Rightarrow> [])
      in if ident = [] then generated else ident)"

definition request_id_interceptor :: "string \<Rightarrow> ('w, 'a) interceptor" where
  "request_id_interceptor generated handler c w =
     (let ident = incoming_request_id generated c
      in handler (c\<lparr>gc_header := gc_header c @ [(''x-request-id'', ident)], gc_request_id := ident\<rparr>) w)"

definition idempotency_interceptor :: "(string \<Rightarrow> bool) \<Rightarrow> ('w, 'a) interceptor" where
  "idempotency_interceptor valid handler c w = (case gc_Metadata c ''idempotency-key'' of
      [] \<Rightarrow> handler c w
    | v # _ \<Rightarrow>
        if \<not> valid v then (Status InvalidArgument ''invalid idempotency-key'', w)
        else handler (c\<lparr>gc_idempotency := Some v\<rparr>) w)"

definition recovery_interceptor :: "('w, 'a) interceptor" where
  "recovery_interceptor handler c w = (case handler c w of
      (Crashed, w1) \<Rightarrow> (Status InternalError ''internal server error'', w1)
    | (r, w1) \<Rightarrow> (r, w1))"

text \<open>\<open>observe\<close> is what the metrics count of a finished call.\<close>

definition metrics_interceptor :: "(string \<Rightarrow> grpc_code \<Rightarrow> 'w \<Rightarrow> 'w) option \<Rightarrow> string \<Rightarrow> ('w, 'a) interceptor" where
  "metrics_interceptor observe method handler c w = (case handler c w of
      (Crashed, w1) \<Rightarrow> (Crashed, w1)
    | (r, w1) \<Rightarrow> (r, case observe of Some count \<Rightarrow> count method (status_code r) w1 | None \<Rightarrow> w1))"

section \<open>Authentication\<close>

definition authenticate_grpc_optional :: "(string \<Rightarrow> goerr + principal) \<Rightarrow> cConfig \<Rightarrow> call_context
    \<Rightarrow> (grpc_code \<times> string) + call_context" where
  "authenticate_grpc_optional verify cfg c = (case gc_Metadata c ''authorization'' of
      [] \<Rightarrow> Inr c
    | v # _ \<Rightarrow>
        if trim_space v = [] then Inr c
        else (let header = trim_space v in
          case cut (CHR '' '') header of (scheme, raw, ok) \<Rightarrow>
            if \<not> ok \<or> raw = [] then Inl (Unauthenticated, ''invalid authorization credential'')
            else if equal_fold scheme ''Bearer'' then
              (case verify raw of
                 Inl err \<Rightarrow> Inl (Unauthenticated, ''invalid or expired token'')
               | Inr verified \<Rightarrow> Inr (c\<lparr>gc_principal := Some verified, gc_credential := Some header\<rparr>))
            else if equal_fold scheme ''PSK'' then
              (if \<not> PSK_Enabled (Auth_PSK (Config_Auth cfg)) \<or> \<not> verify_psk header (PSK_Key (Auth_PSK (Config_Auth cfg)))
               then Inl (Unauthenticated, ''invalid PSK'')
               else Inr (c\<lparr>gc_principal := Some \<lparr>p_ID = App_Name (Config_App cfg) @ '':psk'', p_Type = TypeServiceAccount,
                 p_TenantID = []\<rparr>, gc_credential := Some header\<rparr>))
            else Inl (Unauthenticated, ''unsupported authorization scheme'')))"

definition optional_auth_interceptor :: "(string \<Rightarrow> goerr + principal) \<Rightarrow> cConfig \<Rightarrow> ('w, 'a) interceptor" where
  "optional_auth_interceptor verify cfg handler c w = (case authenticate_grpc_optional verify cfg c of
      Inl (code, message) \<Rightarrow> (Status code message, w)
    | Inr authenticated \<Rightarrow> handler authenticated w)"

text \<open>The authentication by the configuration's method lists.\<close>

definition authenticate_grpc :: "(string \<Rightarrow> goerr + principal) \<Rightarrow> cAuth \<Rightarrow> string \<Rightarrow> call_context
    \<Rightarrow> (grpc_code \<times> string) + call_context" where
  "authenticate_grpc verify cfg method c =
     (let values = gc_Metadata c ''authorization'' in
      if PSK_Enabled (Auth_PSK cfg) \<and> matches_any method (PSK_GRPCMethods (Auth_PSK cfg)) then
        (case values of
           v # _ \<Rightarrow>
             if verify_psk v (PSK_Key (Auth_PSK cfg))
             then Inr (c\<lparr>gc_principal := Some \<lparr>p_ID = ''audit-service:psk'', p_Type = TypeServiceAccount, p_TenantID = []\<rparr>\<rparr>)
             else Inl (Unauthenticated, ''missing or invalid PSK'')
         | [] \<Rightarrow> Inl (Unauthenticated, ''missing or invalid PSK''))
      else if matches_any method (Auth_SkipGRPCMethods cfg) then Inr c
      else (case values of
          [] \<Rightarrow> Inl (Unauthenticated, ''missing bearer token'')
        | v # _ \<Rightarrow> (case cut (CHR '' '') v of (scheme, raw, ok) \<Rightarrow>
            if \<not> ok \<or> \<not> equal_fold scheme ''Bearer'' then Inl (Unauthenticated, ''invalid bearer token'')
            else (case verify raw of
                Inl err \<Rightarrow> Inl (Unauthenticated, ''invalid or expired token'')
              | Inr caller \<Rightarrow> Inr (c\<lparr>gc_principal := Some caller\<rparr>)))))"

section \<open>Authorization and the access log\<close>

type_synonym 'w call_evaluator = "call_context \<Rightarrow> string \<Rightarrow> string \<Rightarrow> string \<Rightarrow> string \<Rightarrow> 'w \<Rightarrow> goerr option \<times> 'w"

definition database_authorization_interceptor :: "bool \<Rightarrow> string \<Rightarrow> 'w call_evaluator \<Rightarrow> string \<Rightarrow> ('w, 'a) interceptor" where
  "database_authorization_interceptor enabled service evaluate method handler c w =
     (if enabled then (case evaluate c ''grpc'' ''call'' method service w of
          (Some err, w1) \<Rightarrow>
            if errors_is err ErrPolicyDenied then (Status PermissionDenied ''permission denied'', w1)
            else (Status Unavailable ''authorization decision is unavailable'', w1)
        | (None, w1) \<Rightarrow> handler c w1)
      else handler c w)"

definition record_method :: string where "record_method = ''/platform.audit.v1.AuditService/Record''"
definition get_method :: string where "get_method = ''/platform.audit.v1.AuditService/Get''"
definition query_method :: string where "query_method = ''/platform.audit.v1.AuditService/Query''"
definition export_method :: string where "export_method = ''/platform.audit.v1.AuditService/Export''"

definition audit_grpc_requirement :: "bool \<Rightarrow> string \<Rightarrow> requirement option" where
  "audit_grpc_requirement enabled method =
     (if \<not> enabled then None
      else map_of [(record_method, \<lparr>rq_Resource = ''audit.record'', rq_Action = ''create''\<rparr>),
        (get_method, \<lparr>rq_Resource = ''audit.record'', rq_Action = ''read''\<rparr>),
        (query_method, \<lparr>rq_Resource = ''audit.record'', rq_Action = ''query''\<rparr>),
        (export_method, \<lparr>rq_Resource = ''audit.record'', rq_Action = ''export''\<rparr>)] method)"

definition audit_grpc_access_operation :: "string \<Rightarrow> string option" where
  "audit_grpc_access_operation method = map_of [(get_method, ''audit.record.get''), (query_method, ''audit.record.query''),
     (export_method, ''audit.record.export'')] method"

definition call_entry_of :: "string \<Rightarrow> string \<Rightarrow> call_context \<Rightarrow> 'a answered \<Rightarrow> access_entry" where
  "call_entry_of operation method c r =
     (let failed = (case r of Answered _ \<Rightarrow> False | _ \<Rightarrow> True); name = (if failed then code_name (status_code r) else [])
      in \<lparr>ae_Operation = operation, ae_Protocol = ''grpc'', ae_Method = method, ae_Route = method, ae_Succeeded = \<not> failed,
        ae_ErrorCode = name, ae_ErrorMessage = name, ae_ClientIP = [], ae_UserAgent = [], ae_RequestID = gc_request_id c\<rparr>)"

definition audit_access_interceptor :: "'w recorder \<Rightarrow> string \<Rightarrow> ('w, 'a) interceptor" where
  "audit_access_interceptor recorder method handler c w = (case (audit_grpc_access_operation method, recorder) of
      (Some operation, Some rec) \<Rightarrow> (case handler c w of
          (Crashed, w1) \<Rightarrow> (Crashed, w1)
        | (r, w1) \<Rightarrow> (r, snd (rec (call_entry_of operation method c r) w1)))
    | _ \<Rightarrow> handler c w)"

section \<open>Streams\<close>

text \<open>A stream ends without an error or with a status.  \<open>sent\<close> says whether its header could be set.\<close>

type_synonym 'w stream_interceptor = "('w, unit) interceptor"

definition environment_stream_interceptor :: "string \<Rightarrow> 'w stream_interceptor" where
  "environment_stream_interceptor profile handler c w = handler (c\<lparr>gc_environment := Some profile\<rparr>) w"

definition request_id_stream_interceptor :: "bool \<Rightarrow> string \<Rightarrow> 'w stream_interceptor" where
  "request_id_stream_interceptor sent generated handler c w =
     (let ident = incoming_request_id generated c in
      if \<not> sent then (Status InternalError ''set request metadata'', w)
      else handler (c\<lparr>gc_header := gc_header c @ [(''x-request-id'', ident)], gc_request_id := ident\<rparr>) w)"

definition idempotency_stream_interceptor :: "(string \<Rightarrow> bool) \<Rightarrow> 'w stream_interceptor" where
  "idempotency_stream_interceptor valid handler c w = (case gc_Metadata c ''idempotency-key'' of
      [] \<Rightarrow> handler c w
    | v # _ \<Rightarrow>
        if \<not> valid v then (Status InvalidArgument ''invalid idempotency-key'', w)
        else handler (c\<lparr>gc_idempotency := Some v\<rparr>) w)"

definition optional_auth_stream_interceptor :: "(string \<Rightarrow> goerr + principal) \<Rightarrow> cConfig \<Rightarrow> 'w stream_interceptor" where
  "optional_auth_stream_interceptor verify cfg handler c w = (case authenticate_grpc_optional verify cfg c of
      Inl (code, message) \<Rightarrow> (Status code message, w)
    | Inr authenticated \<Rightarrow> handler authenticated w)"

definition database_authorization_stream_interceptor :: "bool \<Rightarrow> string \<Rightarrow> 'w call_evaluator \<Rightarrow> string \<Rightarrow> 'w stream_interceptor" where
  "database_authorization_stream_interceptor enabled service evaluate method handler c w =
     (if enabled then (case evaluate c ''grpc'' ''call'' method service w of
          (Some err, w1) \<Rightarrow>
            if errors_is err ErrPolicyDenied then (Status PermissionDenied ''permission denied'', w1)
            else (Status Unavailable ''authorization decision is unavailable'', w1)
        | (None, w1) \<Rightarrow> handler c w1)
      else handler c w)"

definition recovery_stream_interceptor :: "'w stream_interceptor" where
  "recovery_stream_interceptor handler c w = (case handler c w of
      (Crashed, w1) \<Rightarrow> (Status InternalError ''internal server error'', w1)
    | (r, w1) \<Rightarrow> (r, w1))"

definition metrics_stream_interceptor :: "(string \<Rightarrow> grpc_code \<Rightarrow> 'w \<Rightarrow> 'w) option \<Rightarrow> string \<Rightarrow> 'w stream_interceptor" where
  "metrics_stream_interceptor observe method handler c w = (case handler c w of
      (Crashed, w1) \<Rightarrow> (Crashed, w1)
    | (r, w1) \<Rightarrow> (r, case observe of Some count \<Rightarrow> count method (status_code r) w1 | None \<Rightarrow> w1))"

section \<open>Messages\<close>

record 'ts timestamps =
  ts_new :: "time \<Rightarrow> 'ts"
  ts_as_time :: "'ts \<Rightarrow> time"

record 'ts proto_record =
  pr_Id :: string
  pr_TenantId :: string
  pr_ApplicationId :: string
  pr_ActorId :: string
  pr_ActorType :: string
  pr_Action :: string
  pr_ResourceType :: string
  pr_ResourceId :: string
  pr_RequestId :: string
  pr_TraceId :: string
  pr_SourceService :: string
  pr_BeforeSummary :: string
  pr_AfterSummary :: string
  pr_OccurredAt :: "'ts option"
  pr_Version :: int
  pr_CreatedAt :: "'ts option"
  pr_UpdatedAt :: "'ts option"
  pr_CreatedBy :: string
  pr_UpdatedBy :: string

record 'ts proto_query =
  pq_Keyword :: string
  pq_Ids :: "string list"
  pq_TenantId :: string
  pq_ApplicationId :: string
  pq_ActorId :: string
  pq_ActorType :: string
  pq_Action :: string
  pq_ResourceType :: string
  pq_ResourceId :: string
  pq_RequestId :: string
  pq_TraceId :: string
  pq_SourceService :: string
  pq_OccurredFrom :: "'ts option"
  pq_OccurredTo :: "'ts option"
  pq_Page :: "(int \<times> int) option"

datatype 'ts grpc_request =
    RecordRequest "'ts proto_record option"
  | GetRequest string string
  | QueryRequest "'ts proto_query"
  | ExportRequest "'ts proto_query option" int
  | HealthCheckRequest
  | HealthListRequest

datatype 'ts grpc_message =
    RecordMessage "'ts proto_record"
  | QueryMessage "'ts proto_record list" "64 word" "32 word" "32 word"
  | ExportMessage string string string int
  | HealthMessage bool
  | HealthListMessage

definition from_proto_audit :: "'ts timestamps \<Rightarrow> 'ts proto_record \<Rightarrow> audit_record" where
  "from_proto_audit ts v =
     (let result = zero_record\<lparr>r_ID := pr_Id v, r_TenantID := pr_TenantId v, r_ApplicationID := pr_ApplicationId v,
        r_ActorID := pr_ActorId v, r_ActorType := pr_ActorType v, r_Action := pr_Action v,
        r_ResourceType := pr_ResourceType v, r_ResourceID := pr_ResourceId v, r_RequestID := pr_RequestId v,
        r_TraceID := pr_TraceId v, r_SourceService := pr_SourceService v, r_BeforeSummary := pr_BeforeSummary v,
        r_AfterSummary := pr_AfterSummary v\<rparr>
      in case pr_OccurredAt v of Some t \<Rightarrow> result\<lparr>r_OccurredAt := ts_as_time ts t\<rparr> | None \<Rightarrow> result)"

definition to_proto_audit :: "'ts timestamps \<Rightarrow> audit_record \<Rightarrow> 'ts proto_record" where
  "to_proto_audit ts v = \<lparr>pr_Id = r_ID v, pr_TenantId = r_TenantID v, pr_ApplicationId = r_ApplicationID v,
     pr_ActorId = r_ActorID v, pr_ActorType = r_ActorType v, pr_Action = r_Action v, pr_ResourceType = r_ResourceType v,
     pr_ResourceId = r_ResourceID v, pr_RequestId = r_RequestID v, pr_TraceId = r_TraceID v,
     pr_SourceService = r_SourceService v, pr_BeforeSummary = r_BeforeSummary v, pr_AfterSummary = r_AfterSummary v,
     pr_OccurredAt = Some (ts_new ts (r_OccurredAt v)), pr_Version = r_Version v,
     pr_CreatedAt = Some (ts_new ts (r_CreatedAt v)), pr_UpdatedAt = Some (ts_new ts (r_UpdatedAt v)),
     pr_CreatedBy = r_CreatedBy v, pr_UpdatedBy = r_UpdatedBy v\<rparr>"

text \<open>The filter of a query; a request that is absent is the empty filter.\<close>

definition query_filter :: "'ts timestamps \<Rightarrow> 'ts proto_query \<Rightarrow> audit_filter" where
  "query_filter ts q =
     (let (page, page_size) = (case pq_Page q of Some p \<Rightarrow> p | None \<Rightarrow> (0, 0));
          f = \<lparr>f_Keyword = pq_Keyword q, f_IDs = pq_Ids q, f_TenantID = pq_TenantId q, f_ApplicationID = pq_ApplicationId q,
            f_ActorID = pq_ActorId q, f_ActorType = pq_ActorType q, f_Action = pq_Action q,
            f_ResourceType = pq_ResourceType q, f_ResourceID = pq_ResourceId q, f_RequestID = pq_RequestId q,
            f_TraceID = pq_TraceId q, f_SourceService = pq_SourceService q, f_OccurredFrom = f_OccurredFrom zero_filter,
            f_OccurredTo = f_OccurredTo zero_filter, f_Page = page, f_PageSize = page_size\<rparr>;
          f1 = (case pq_OccurredFrom q of Some t \<Rightarrow> f\<lparr>f_OccurredFrom := ts_as_time ts t\<rparr> | None \<Rightarrow> f)
      in case pq_OccurredTo q of Some t \<Rightarrow> f1\<lparr>f_OccurredTo := ts_as_time ts t\<rparr> | None \<Rightarrow> f1)"

definition filter_from_proto :: "'ts timestamps \<Rightarrow> 'ts proto_query option \<Rightarrow> audit_filter" where
  "filter_from_proto ts request = (case request of None \<Rightarrow> zero_filter | Some q \<Rightarrow> query_filter ts q)"

section \<open>The audit service\<close>

definition conclude :: "('a \<Rightarrow> 'ts grpc_message) \<Rightarrow> (goerr + 'a) \<times> 'w \<Rightarrow> 'ts grpc_message answered \<times> 'w" where
  "conclude f run = (case run of (Inl err, w1) \<Rightarrow> (grpc_error err, w1) | (Inr v, w1) \<Rightarrow> (Answered (f v), w1))"

definition grpc_record :: "'ts timestamps \<Rightarrow> world service \<Rightarrow> 'ts proto_record option \<Rightarrow> ('p api_world, 'ts grpc_message) call" where
  "grpc_record ts audits request c w = (case request of
      None \<Rightarrow> (Status InvalidArgument ''record is required'', w)
    | Some input \<Rightarrow> conclude (\<lambda>v. RecordMessage (to_proto_audit ts v))
        (on_audit (service_record audits (gc_principal c) (from_proto_audit ts input)) w))"

definition grpc_get :: "'ts timestamps \<Rightarrow> world service \<Rightarrow> string \<Rightarrow> string \<Rightarrow> ('p api_world, 'ts grpc_message) call" where
  "grpc_get ts audits ident tenant c w = conclude (\<lambda>v. RecordMessage (to_proto_audit ts v))
     (on_audit (service_get audits (gc_principal c) ident tenant) w)"

definition grpc_query :: "'ts timestamps \<Rightarrow> world service \<Rightarrow> 'ts proto_query \<Rightarrow> ('p api_world, 'ts grpc_message) call" where
  "grpc_query ts audits q c w = conclude (\<lambda>v. QueryMessage (map (to_proto_audit ts) (pg_Records v))
        (word_of_int (pg_Total v)) (word_of_int (pg_Page v)) (word_of_int (pg_PageSize v)))
     (on_audit (service_query audits (gc_principal c) (query_filter ts q)) w)"

definition grpc_export :: "'ts timestamps \<Rightarrow> world service \<Rightarrow> 'ts proto_query option \<Rightarrow> int \<Rightarrow> ('p api_world, 'ts grpc_message) call" where
  "grpc_export ts audits q max_records c w =
     conclude (\<lambda>(content, count). ExportMessage content ''text/csv; charset=utf-8'' ''audit-records.csv'' count)
       (on_audit (service_export audits (gc_principal c) (filter_from_proto ts q) max_records) w)"

definition health_check :: "health_status \<times> bool \<Rightarrow> ('w, 'ts grpc_message) call" where
  "health_check health c w = (case health of (_, ready) \<Rightarrow> (Answered (HealthMessage ready), w))"

definition health_list :: "('w, 'ts grpc_message) call" where
  "health_list c w = (Answered HealthListMessage, w)"

section \<open>The server\<close>

record ('p, 'ts) grpc_server =
  gs_http :: "'p http_server"
  gs_timestamps :: "'ts timestamps"
  gs_health :: "health_status \<times> bool"
  gs_observe :: "(string \<Rightarrow> grpc_code \<Rightarrow> 'p api_world \<Rightarrow> 'p api_world) option"
  gs_idempotent :: "string list \<Rightarrow> string \<Rightarrow> 'ts grpc_request \<Rightarrow> ('p api_world, 'ts grpc_message) interceptor"

text \<open>
  Both servers are given the same configuration, services, verifier, policies and recorder: the record
  of the HTTP server holds them.
\<close>

fun method_of :: "'ts grpc_request \<Rightarrow> string" where
  "method_of (RecordRequest _) = record_method"
| "method_of (GetRequest _ _) = get_method"
| "method_of (QueryRequest _) = query_method"
| "method_of (ExportRequest _ _) = export_method"
| "method_of HealthCheckRequest = ''/grpc.health.v1.Health/Check''"
| "method_of HealthListRequest = ''/grpc.health.v1.Health/List''"

fun grpc_handler :: "('p, 'ts) grpc_server \<Rightarrow> 'ts grpc_request \<Rightarrow> ('p api_world, 'ts grpc_message) call" where
  "grpc_handler s (RecordRequest r) = grpc_record (gs_timestamps s) (hx_audits (gs_http s)) r"
| "grpc_handler s (GetRequest i t) = grpc_get (gs_timestamps s) (hx_audits (gs_http s)) i t"
| "grpc_handler s (QueryRequest q) = grpc_query (gs_timestamps s) (hx_audits (gs_http s)) q"
| "grpc_handler s (ExportRequest q n) = grpc_export (gs_timestamps s) (hx_audits (gs_http s)) q n"
| "grpc_handler s HealthCheckRequest = health_check (gs_health s)"
| "grpc_handler s HealthListRequest = health_list"

definition evaluate_grpc :: "'p http_server \<Rightarrow> 'p api_world call_evaluator" where
  "evaluate_grpc s c protocol method path service =
     on_policy (\<lambda>pw. let (r, m) = evaluate_route (hx_policies s) protocol method path service (Some (gc_principal c))
          (pw_manager pw) in (r, pw\<lparr>pw_manager := m\<rparr>))"

definition serve_grpc :: "('p, 'ts) grpc_server \<Rightarrow> string \<Rightarrow> 'ts grpc_request \<Rightarrow> ('p api_world, 'ts grpc_message) call" where
  "serve_grpc s generated request =
     (let h = gs_http s; cfg = hx_cfg h; method = method_of request in
      environment_interceptor (Runtime_ActiveProfile (Config_Runtime cfg))
      (request_id_interceptor generated
      (idempotency_interceptor (hx_valid_key h)
      (recovery_interceptor
      (optional_auth_interceptor (hx_verify h) cfg
      (database_authorization_interceptor (Authorization_Enabled (Config_Authorization cfg)) (App_Name (Config_App cfg))
         (evaluate_grpc h) method
      (audit_access_interceptor (hx_recorder h) method
      (gs_idempotent s (Idempotency_GRPCMethods (Config_Idempotency cfg)) method request
      (metrics_interceptor (gs_observe s) method
      (grpc_handler s request))))))))))"

section \<open>Start\<close>

text \<open>\<open>discoveredGRPCRoutes\<close>, from the services registered with the server.\<close>

fun describe_methods :: "(string \<Rightarrow> string \<Rightarrow> goerr + route) \<Rightarrow> string \<Rightarrow> string list \<Rightarrow> goerr + route list" where
  "describe_methods new_route service [] = Inr []"
| "describe_methods new_route service (method # rest) =
     (let path = ''/'' @ service @ ''/'' @ method in
      case new_route ''call'' path of
        Inl err \<Rightarrow> Inl err
      | Inr r \<Rightarrow> (case describe_methods new_route service rest of
            Inl err \<Rightarrow> Inl err
          | Inr routes \<Rightarrow> Inr (r\<lparr>ro_Operation := path\<rparr> # routes)))"

fun discovered_grpc_routes :: "(string \<Rightarrow> string \<Rightarrow> goerr + route) \<Rightarrow> (string \<times> string list) list \<Rightarrow> goerr + route list" where
  "discovered_grpc_routes new_route [] = Inr []"
| "discovered_grpc_routes new_route ((service, methods) # rest) =
     (if service = ''grpc.health.v1.Health'' then discovered_grpc_routes new_route rest
      else (case describe_methods new_route service methods of
          Inl err \<Rightarrow> Inl err
        | Inr routes \<Rightarrow> (case discovered_grpc_routes new_route rest of
              Inl err \<Rightarrow> Inl err
            | Inr others \<Rightarrow> Inr (routes @ others))))"

definition start_grpc :: "'p http_server \<Rightarrow> (string \<Rightarrow> string \<Rightarrow> goerr + route) \<Rightarrow> (string \<times> string list) list
    \<Rightarrow> 'p policy_world \<Rightarrow> goerr option \<times> 'p policy_world" where
  "start_grpc s new_route services w =
     (if GRPC_Enabled (Config_GRPC (hx_cfg s)) \<and> Authorization_Enabled (Config_Authorization (hx_cfg s)) then
        (case discovered_grpc_routes new_route services of
           Inl err \<Rightarrow> (Some err, w)
         | Inr routes \<Rightarrow>
             (case sync_routes (px_driver (hx_policies s)) routes (App_Name (Config_App (hx_cfg s)) @ '':route-discovery'') (pw_db w) of
                (Some err, s1) \<Rightarrow> (Some (ErrWrap ''sync gRPC routes'' err), w\<lparr>pw_db := s1\<rparr>)
              | (None, s1) \<Rightarrow> (case refresh_source (hx_policies s) (w\<lparr>pw_db := s1\<rparr>) of
                    (Some err, w1) \<Rightarrow> (Some (ErrWrap ''load gRPC route policies'' err), w1)
                  | (None, w1) \<Rightarrow> (None, w1))))
      else (None, w))"

end
