(* ===== verification/Grpc_Facts.thy ===== *)
theory Grpc_Facts
  imports Grpc_Server Http_Gates
begin

text \<open>
  The gRPC side, and what it has in common with the HTTP side: the callers both accept, the errors they
  report, the answers they give to the same request and the records they carry.
\<close>

definition ex_call :: call_context where
  "ex_call = \<lparr>gc_Metadata = (\<lambda>k. if k = ''authorization'' then [''Bearer token''] else []), gc_environment = None, gc_request_id = [],
     gc_idempotency = None, gc_principal = None, gc_credential = None, gc_header = []\<rparr>"

definition ex_times :: "int timestamps" where
  "ex_times = \<lparr>ts_new = (\<lambda>t. t), ts_as_time = (\<lambda>t. t)\<rparr>"

definition ex_grpc :: "(string list, int) grpc_server" where
  "ex_grpc = \<lparr>gs_http = ex_http, gs_timestamps = ex_times, gs_health = health_ready None None False, gs_observe = None,
     gs_idempotent = (\<lambda>ms m r h. h)\<rparr>"

section \<open>The same callers\<close>

text \<open>
  C29. Both servers accept the same credentials.  For the same authorization header and the same context,
  they either refuse the request with the same message, without running what is behind, or pass it on with
  the same principal and credential.
\<close>

lemma transports_authenticate_alike:
  assumes "gc_Metadata gc ''authorization'' = [rc_Header hc ''Authorization''] \<or>
      gc_Metadata gc ''authorization'' = [] \<and> rc_Header hc ''Authorization'' = []"
    and "gc_principal gc = rc_principal hc" "gc_credential gc = rc_credential hc"
  shows "(\<exists>message. optional_auth_interceptor verify cfg call gc v = (Status Unauthenticated message, v) \<and>
      database_authentication_mw verify cfg h hc w = (reply hc 401 CodeUnauthorized message None, w)) \<or>
    (\<exists>gc1 hc1. optional_auth_interceptor verify cfg call gc v = call gc1 v \<and> database_authentication_mw verify cfg h hc w = h hc1 w \<and>
      gc_principal gc1 = rc_principal hc1 \<and> gc_credential gc1 = rc_credential hc1)"
proof -
  let ?header = "trim_space (rc_Header hc ''Authorization'')"
  have blank: "trim_space [] = []" by code_simp
  obtain scheme raw ok where c: "cut (CHR '' '') ?header = (scheme, raw, ok)" by (cases "cut (CHR '' '') ?header") auto
  have fail: "fail_reply hc (app_unauthorized m) = reply hc 401 CodeUnauthorized m None" for m
    by (simp add: fail_reply_eq app_error_defs)
  consider "?header = []" | "?header \<noteq> []" "gc_Metadata gc ''authorization'' = [rc_Header hc ''Authorization'']"
    using assms(1) blank by metis
  then show ?thesis
  proof cases
    case 1
    with assms have "optional_auth_interceptor verify cfg call gc v = call gc v"
      by (auto simp: optional_auth_interceptor_def authenticate_grpc_optional_def)
    moreover have "database_authentication_mw verify cfg h hc w = h hc w" using 1 by (simp add: database_authentication_mw_def)
    ultimately show ?thesis using assms(2,3) by blast
  next
    case 2
    note defs = optional_auth_interceptor_def authenticate_grpc_optional_def database_authentication_mw_def
      check_credential_def Let_def 2 c fail
    consider "\<not> ok \<or> raw = []" | "ok" "raw \<noteq> []" "equal_fold scheme ''Bearer''"
      | "ok" "raw \<noteq> []" "\<not> equal_fold scheme ''Bearer''" "equal_fold scheme ''PSK''"
      | "ok" "raw \<noteq> []" "\<not> equal_fold scheme ''Bearer''" "\<not> equal_fold scheme ''PSK''" by blast
    then show ?thesis
    proof cases
      case 1
      then show ?thesis by (simp add: defs)
    next
      case 2
      then show ?thesis by (cases "verify raw") (auto simp: defs with_caller_def intro!: exI)
    next
      case 3
      then show ?thesis
        by (cases "PSK_Enabled (Auth_PSK (Config_Auth cfg)) \<and> verify_psk ?header (PSK_Key (Auth_PSK (Config_Auth cfg)))")
          (auto simp: defs with_caller_def psk_principal_def intro!: exI)
    next
      case 4
      then show ?thesis by (simp add: defs)
    qed
  qed
qed

lemma transports_authenticate_alike_witness:
  "\<exists>gc hc. (\<exists>m. optional_auth_interceptor ex_verify ex_production (\<lambda>c w. (Answered (), w)) gc () = (Status Unauthenticated m, ()) \<and>
      database_authentication_mw ex_verify ex_production (\<lambda>c w. (ok_reply c (), w)) hc () = (reply hc 401 CodeUnauthorized m None, ()))"
proof -
  let ?hc = "ex_request\<lparr>rc_Header := (\<lambda>k. ''Bearer stolen'')\<rparr>" and ?gc = "ex_call\<lparr>gc_Metadata := (\<lambda>k. [''Bearer stolen''])\<rparr>"
  have same: "gc_principal ?gc = rc_principal ?hc" "gc_credential ?gc = rc_credential ?hc"
    "gc_Metadata ?gc ''authorization'' = [rc_Header ?hc ''Authorization'']" by (simp_all add: ex_call_def ex_request_def)
  have "fst (optional_auth_interceptor ex_verify ex_production (\<lambda>c w. (Answered (), w)) ?gc ()) = Status Unauthenticated ''invalid or expired token''"
    by code_simp
  with transports_authenticate_alike [OF disjI1 [OF same(3)] same(1,2), of ex_verify ex_production "\<lambda>c w. (Answered (), w)" "()"
      "\<lambda>c w. (ok_reply c (), w)" "()"]
  show ?thesis by fastforce
qed

section \<open>The same errors\<close>

text \<open>The HTTP statuses that each gRPC code stands for.\<close>

fun http_statuses :: "grpc_code \<Rightarrow> nat set" where
  "http_statuses InvalidArgument = {400}"
| "http_statuses Unauthenticated = {401}"
| "http_statuses PermissionDenied = {403}"
| "http_statuses NotFound = {404}"
| "http_statuses Aborted = {409}"
| "http_statuses Unavailable = {503}"
| "http_statuses InternalError = {409, 429, 500, 504}"
| "http_statuses _ = {}"

definition unmapped_codes :: "errcode set" where
  "unmapped_codes = {CodeStaleVersion, CodeRequestInProgress, CodeTooManyRequests, CodeRequestTimeout}"

text \<open>
  C31. An error is reported alike: both servers show the message of its application error, or that of an
  internal error, and nothing of its cause; and the code of gRPC and the status of HTTP correspond, save for
  the four codes that gRPC reports as internal though HTTP has a status of its own for them.
\<close>

lemma transports_report_alike:
  assumes "case errors_as_app err of Some a \<Rightarrow> app_wf a | None \<Rightarrow> True"
  shows "\<exists>code. grpc_error err = Status code (err_message err) \<and>
    fail_reply c err = reply c (err_status err) (err_code err) (err_message err) None \<and>
    err_status err \<in> http_statuses code \<and> err_status err \<ge> 400 \<and>
    (code = InternalError \<longleftrightarrow> err_code err \<in> insert CodeInternal unmapped_codes)"
proof (cases "errors_as_app err")
  case None
  then show ?thesis
    by (simp add: grpc_error_def fail_reply_eq err_status_def err_code_def err_message_def unmapped_codes_def)
next
  case (Some a)
  then obtain k m i where a: "a = AppErr k m (code_status k) i" "k \<noteq> CodeOK" using assms by (auto simp: app_wf_def)
  with Some show ?thesis
    by (cases k) (simp_all add: grpc_error_def fail_reply_eq err_status_def err_code_def err_message_def unmapped_codes_def)
qed

lemma transports_report_alike_witness:
  "grpc_error (ErrWrap ''get'' (app_not_found ''audit record not found'')) = (Status NotFound ''audit record not found'' :: unit answered)"
proof -
  have "case errors_as_app (ErrWrap ''get'' (app_not_found ''audit record not found'')) of Some a \<Rightarrow> app_wf a | None \<Rightarrow> True"
    by (simp add: app_error_defs app_wf_def)
  from transports_report_alike [OF this, of undefined] obtain code
    where c: "grpc_error (ErrWrap ''get'' (app_not_found ''audit record not found'')) = (Status code ''audit record not found'' :: unit answered)"
      "404 \<in> http_statuses code"
    by (auto simp: app_error_defs)
  then show ?thesis by (cases code) simp_all
qed

section \<open>The same records\<close>

text \<open>
  C34. A record survives the wire: given a time conversion that is exact on the times of the record, what is
  read and sent back is the record itself, without the fields only the database sets; and a message that
  gives a time comes back as it was in every field a client sets.
\<close>

lemma records_survive_the_wire:
  assumes "ts_as_time ts (ts_new ts (r_OccurredAt r)) = r_OccurredAt r" "ts_new ts (ts_as_time ts t) = t"
  shows "from_proto_audit ts (to_proto_audit ts r) =
      r\<lparr>r_Version := 0, r_CreatedAt := 0, r_UpdatedAt := 0, r_CreatedBy := [], r_UpdatedBy := []\<rparr> \<and>
    (pr_OccurredAt p = Some t \<longrightarrow> to_proto_audit ts (from_proto_audit ts p) =
      p\<lparr>pr_Version := 0, pr_CreatedAt := Some (ts_new ts 0), pr_UpdatedAt := Some (ts_new ts 0), pr_CreatedBy := [], pr_UpdatedBy := []\<rparr>)"
  using assms by (simp add: from_proto_audit_def to_proto_audit_def zero_record_def)


lemma records_survive_the_wire_witness:
  "from_proto_audit ex_times (to_proto_audit ex_times (ex_record\<lparr>r_Version := 3\<rparr>)) = ex_record"
  using records_survive_the_wire [of ex_times "ex_record\<lparr>r_Version := 3\<rparr>" 0] by (simp add: ex_times_def ex_record_def zero_record_def)

section \<open>The same answers\<close>

text \<open>
  What the two answers to one operation have in common: both deliver the value, each in its shape, or both
  report the same error, and the services are left in the same state.
\<close>

definition delivers :: "('a \<Rightarrow> body) \<Rightarrow> ('a \<Rightarrow> 'ts grpc_message) \<Rightarrow> request_context \<Rightarrow> body outcome_of \<times> 'w
    \<Rightarrow> 'ts grpc_message answered \<times> 'w \<Rightarrow> bool" where
  "delivers shape message c http grpc \<longleftrightarrow> snd http = snd grpc \<and>
     ((\<exists>v. fst http = ok_reply c (shape v) \<and> fst grpc = Answered (message v)) \<or>
      (\<exists>err. fst http = fail_reply c err \<and> fst grpc = grpc_error err))"

lemma delivers_run:
  assumes "bind_json decode c = Inr q"
  shows "delivers (f q) message c (handle decode m call f c w) (conclude message (call q c w))"
proof -
  obtain r w1 where run: "call q c w = (r, w1)" by fastforce
  then show ?thesis
    by (cases r) (auto simp: delivers_def handle_def respond_def conclude_def assms Let_def)
qed

definition same_query :: "'ts timestamps \<Rightarrow> query_request \<Rightarrow> 'ts proto_query \<Rightarrow> bool" where
  "same_query ts q p \<longleftrightarrow> pq_Keyword p = qq_Keyword q \<and> pq_Ids p = qq_IDs q \<and> pq_TenantId p = qq_TenantID q \<and>
     pq_ApplicationId p = qq_ApplicationID q \<and> pq_ActorId p = qq_ActorID q \<and> pq_ActorType p = qq_ActorType q \<and>
     pq_Action p = qq_Action q \<and> pq_ResourceType p = qq_ResourceType q \<and> pq_ResourceId p = qq_ResourceID q \<and>
     pq_RequestId p = qq_RequestID q \<and> pq_TraceId p = qq_TraceID q \<and> pq_SourceService p = qq_SourceService q \<and>
     (case pq_OccurredFrom p of Some t \<Rightarrow> ts_as_time ts t = qq_OccurredFrom q | None \<Rightarrow> qq_OccurredFrom q = 0) \<and>
     (case pq_OccurredTo p of Some t \<Rightarrow> ts_as_time ts t = qq_OccurredTo q | None \<Rightarrow> qq_OccurredTo q = 0) \<and>
     (case pq_Page p of Some pg \<Rightarrow> pg = (qq_Page q, qq_PageSize q) | None \<Rightarrow> qq_Page q = 0 \<and> qq_PageSize q = 0)"

lemma same_query_filter: "same_query ts q p \<Longrightarrow> query_filter ts p = filter_of_request q"
  by (auto simp: same_query_def query_filter_def filter_of_request_def zero_filter_def Let_def split: option.splits)

text \<open>What a page becomes in either shape.\<close>

definition page_shape :: "audit_page \<Rightarrow> body" where
  "page_shape v = PageBody \<lparr>pb_Records = map record_response (pg_Records v), pb_Total = pg_Total v, pb_Page = pg_Page v,
     pb_PageSize = pg_PageSize v\<rparr>"

definition page_message :: "'ts timestamps \<Rightarrow> audit_page \<Rightarrow> 'ts grpc_message" where
  "page_message ts v = QueryMessage (map (to_proto_audit ts) (pg_Records v)) (word_of_int (pg_Total v))
     (word_of_int (pg_Page v)) (word_of_int (pg_PageSize v))"

text \<open>
  C30. The two servers do the same work: for the same caller and the same fields, recording, getting, querying
  and exporting over HTTP and over gRPC leave the service in the same state, and both deliver the same value or
  both report the same error.
\<close>

lemma transports_answer_alike:
  assumes "gc_principal gc = rc_principal c"
  shows "(bind_json (de_record (hx_decoders s)) c = Inr rq \<longrightarrow> from_proto_audit ts p = record_of_request rq \<longrightarrow>
      delivers (\<lambda>v. RecordBody (record_response v)) (\<lambda>v. RecordMessage (to_proto_audit ts v)) c
        (handle_record s c w) (grpc_record ts (hx_audits s) (Some p) gc w)) \<and>
    (bind_json (de_get (hx_decoders s)) c = Inr g \<longrightarrow>
      delivers (\<lambda>v. RecordBody (record_response v)) (\<lambda>v. RecordMessage (to_proto_audit ts v)) c
        (handle_get s c w) (grpc_get ts (hx_audits s) (qg_ID g) (qg_TenantID g) gc w)) \<and>
    (bind_json (de_query (hx_decoders s)) c = Inr q \<longrightarrow> same_query ts q pq \<longrightarrow>
      delivers page_shape (page_message ts) c (handle_query s c w) (grpc_query ts (hx_audits s) pq gc w)) \<and>
    (bind_json (de_export (hx_decoders s)) c = Inr e \<longrightarrow> same_query ts (qe_Query e) pq \<longrightarrow>
      delivers (\<lambda>(content, n). ExportBody \<lparr>eb_Content = content, eb_ContentType = ''text/csv; charset=utf-8'',
          eb_Filename = ''audit-records.csv'', eb_RecordCount = n\<rparr>)
        (\<lambda>(content, n). ExportMessage content ''text/csv; charset=utf-8'' ''audit-records.csv'' n) c
        (handle_export s c w) (grpc_export ts (hx_audits s) (Some pq) (qe_MaxRecords e) gc w))"
proof (intro conjI impI)
  assume "bind_json (de_record (hx_decoders s)) c = Inr rq" "from_proto_audit ts p = record_of_request rq"
  with assms show "delivers (\<lambda>v. RecordBody (record_response v)) (\<lambda>v. RecordMessage (to_proto_audit ts v)) c
        (handle_record s c w) (grpc_record ts (hx_audits s) (Some p) gc w)"
    using delivers_run [where call = "\<lambda>q c. on_audit (service_record (hx_audits s) (rc_principal c) (record_of_request q))" and c = c]
    by (simp add: handle_record_def grpc_record_def)
next
  assume "bind_json (de_get (hx_decoders s)) c = Inr g"
  with assms show "delivers (\<lambda>v. RecordBody (record_response v)) (\<lambda>v. RecordMessage (to_proto_audit ts v)) c
        (handle_get s c w) (grpc_get ts (hx_audits s) (qg_ID g) (qg_TenantID g) gc w)"
    using delivers_run [where call = "\<lambda>q c. on_audit (service_get (hx_audits s) (rc_principal c) (qg_ID q) (qg_TenantID q))" and c = c]
    by (simp add: handle_get_def grpc_get_def)
next
  assume "bind_json (de_query (hx_decoders s)) c = Inr q" "same_query ts q pq"
  with assms show "delivers page_shape (page_message ts) c (handle_query s c w) (grpc_query ts (hx_audits s) pq gc w)"
    using delivers_run [where call = "\<lambda>q c. on_audit (service_query (hx_audits s) (rc_principal c) (filter_of_request q))" and c = c]
    by (simp add: handle_query_def grpc_query_def same_query_filter page_shape_def [abs_def] page_message_def [abs_def])
next
  assume "bind_json (de_export (hx_decoders s)) c = Inr e" "same_query ts (qe_Query e) pq"
  with assms show "delivers (\<lambda>(content, n). ExportBody \<lparr>eb_Content = content, eb_ContentType = ''text/csv; charset=utf-8'',
          eb_Filename = ''audit-records.csv'', eb_RecordCount = n\<rparr>)
        (\<lambda>(content, n). ExportMessage content ''text/csv; charset=utf-8'' ''audit-records.csv'' n) c
        (handle_export s c w) (grpc_export ts (hx_audits s) (Some pq) (qe_MaxRecords e) gc w)"
    using delivers_run [where call = "\<lambda>q c. on_audit (service_export (hx_audits s) (rc_principal c)
      (filter_of_request (qe_Query q)) (qe_MaxRecords q))" and c = c]
    by (simp add: handle_export_def grpc_export_def same_query_filter filter_from_proto_def)
qed


lemma transports_answer_alike_witness:
  "delivers (\<lambda>v. RecordBody (record_response v)) (\<lambda>v. RecordMessage (to_proto_audit ex_times v))
     (ex_request\<lparr>rc_principal := Some ex_user\<rparr>)
     (handle_get ex_http (ex_request\<lparr>rc_principal := Some ex_user\<rparr>) ex_state)
     (grpc_get ex_times ex_service ''i1'' ''t1'' (ex_call\<lparr>gc_principal := Some ex_user\<rparr>) ex_state)"
proof -
  have "bind_json (de_get (hx_decoders ex_http)) (ex_request\<lparr>rc_principal := Some ex_user\<rparr>) = Inr \<lparr>qg_ID = ''i1'', qg_TenantID = ''t1''\<rparr>"
    "hx_audits ex_http = ex_service"
    by (simp_all add: ex_http_def bind_json_def read_body_def ex_request_def)
  then show ?thesis
    using transports_answer_alike [where gc = "ex_call\<lparr>gc_principal := Some ex_user\<rparr>" and c = "ex_request\<lparr>rc_principal := Some ex_user\<rparr>"
        and s = ex_http and ts = ex_times and w = ex_state and g = "\<lparr>qg_ID = ''i1'', qg_TenantID = ''t1''\<rparr>"] by auto
qed

section \<open>Calls and the policies\<close>

definition call_effect :: "'p api_world \<Rightarrow> 'a answered \<times> 'p api_world \<Rightarrow> bool" where
  "call_effect w run \<longleftrightarrow> (case fst run of Answered m \<Rightarrow> True | _ \<Rightarrow> False) \<or> aw_audit (snd run) \<noteq> aw_audit w \<or>
     pw_db (aw_policy (snd run)) \<noteq> pw_db (aw_policy w)"

definition call_decision :: "'p http_server \<Rightarrow> string \<Rightarrow> principal option \<Rightarrow> 'p policy_world \<Rightarrow> goerr option" where
  "call_decision s method caller w = fst (evaluate_route (hx_policies s) ''grpc'' ''call'' method
     (App_Name (Config_App (hx_cfg s))) (Some caller) (pw_manager w))"

lemma call_effect_recovery: "call_effect w (recovery_interceptor handler c w) \<longleftrightarrow> call_effect w (handler c w)"
proof -
  obtain r w1 where "handler c w = (r, w1)" by fastforce
  then show ?thesis by (cases r) (simp_all add: recovery_interceptor_def call_effect_def)
qed

lemma grpc_authorization_run:
  "database_authorization_interceptor True (App_Name (Config_App (hx_cfg s))) (evaluate_grpc s) method handler c w =
     (let w1 = snd (evaluate_grpc s c ''grpc'' ''call'' method (App_Name (Config_App (hx_cfg s))) w) in
      case call_decision s method (gc_principal c) (aw_policy w) of
        None \<Rightarrow> handler c w1
      | Some err \<Rightarrow>
          (if errors_is err ErrPolicyDenied then (Status PermissionDenied ''permission denied'', w1)
           else (Status Unavailable ''authorization decision is unavailable'', w1)))"
  by (simp add: database_authorization_interceptor_def call_decision_def evaluate_grpc_def on_policy_def Let_def
      split: prod.splits option.splits)

lemma evaluate_grpc_aside:
  "aw_audit (snd (evaluate_grpc s c p m r n w)) = aw_audit w"
  "pw_db (aw_policy (snd (evaluate_grpc s c p m r n w))) = pw_db (aw_policy w)"
  by (simp_all add: evaluate_grpc_def on_policy_def Let_def split: prod.splits)

text \<open>The header a call presents.\<close>

definition call_header :: "call_context \<Rightarrow> string \<Rightarrow> string" where
  "call_header c k = (case gc_Metadata c ''authorization'' of [] \<Rightarrow> [] | v # _ \<Rightarrow> v)"

lemma authenticated_call:
  assumes "gc_principal c = None" "authenticate_grpc_optional verify cfg c = Inr c1"
  shows "presented_caller verify cfg (call_header c) = Inr (gc_principal c1) \<and> gc_Metadata c1 = gc_Metadata c \<and>
    gc_idempotency c1 = gc_idempotency c"
proof -
  have "trim_space [] = []" by code_simp
  with assms show ?thesis
    by (auto simp: authenticate_grpc_optional_def presented_caller_def call_header_def check_credential_def psk_principal_def Let_def
        split: list.splits if_splits prod.splits sum.splits)
qed

text \<open>What is behind the authorization.\<close>

definition inner_call :: "('p, 'ts) grpc_server \<Rightarrow> 'ts grpc_request \<Rightarrow> ('p api_world, 'ts grpc_message) call" where
  "inner_call s request = audit_access_interceptor (hx_recorder (gs_http s)) (method_of request)
     (gs_idempotent s (Idempotency_GRPCMethods (Config_Idempotency (hx_cfg (gs_http s)))) (method_of request) request
     (metrics_interceptor (gs_observe s) (method_of request) (grpc_handler s request)))"

text \<open>The chain up to the recovery only adds to the context: of the keys of the metadata, the first.\<close>

definition call_key :: "call_context \<Rightarrow> string option" where
  "call_key c = (case gc_Metadata c ''idempotency-key'' of [] \<Rightarrow> gc_idempotency c | v # _ \<Rightarrow> Some v)"

lemma serve_grpc_run:
  assumes "gc_principal c = None"
  obtains (refused) code message where "serve_grpc s generated request c w = (Status code message, w)"
  | (passed) c1 handler where "gc_principal c1 = None" "gc_Metadata c1 = gc_Metadata c"
      "serve_grpc s generated request c w = recovery_interceptor (optional_auth_interceptor (hx_verify (gs_http s)) (hx_cfg (gs_http s))
        (database_authorization_interceptor (Authorization_Enabled (Config_Authorization (hx_cfg (gs_http s))))
          (App_Name (Config_App (hx_cfg (gs_http s)))) (evaluate_grpc (gs_http s)) (method_of request) handler)) c1 w"
      "handler = inner_call s request" "gc_idempotency c1 = call_key c"
proof -
  let ?s = "gs_http s" and ?cfg = "hx_cfg (gs_http s)"
  let ?handler = "inner_call s request"
  let ?ident = "incoming_request_id generated (c\<lparr>gc_environment := Some (Runtime_ActiveProfile (Config_Runtime ?cfg))\<rparr>)"
  let ?c = "c\<lparr>gc_environment := Some (Runtime_ActiveProfile (Config_Runtime ?cfg)), gc_header := gc_header c @ [(''x-request-id'', ?ident)],
      gc_request_id := ?ident\<rparr>"
  let ?rest = "recovery_interceptor (optional_auth_interceptor (hx_verify ?s) ?cfg
        (database_authorization_interceptor (Authorization_Enabled (Config_Authorization ?cfg))
          (App_Name (Config_App ?cfg)) (evaluate_grpc ?s) (method_of request) ?handler))"
  have run: "serve_grpc s generated request c w = idempotency_interceptor (hx_valid_key ?s) ?rest ?c w"
    by (simp add: serve_grpc_def inner_call_def Let_def environment_interceptor_def request_id_interceptor_def)
  show ?thesis
  proof (cases "gc_Metadata c ''idempotency-key''")
    case Nil
    then show ?thesis using assms run by (intro passed [of ?c ?handler]) (simp_all add: idempotency_interceptor_def call_key_def)
  next
    case (Cons v vs)
    show ?thesis
    proof (cases "hx_valid_key ?s v")
      case True
      with Cons assms run show ?thesis
        by (intro passed [of "?c\<lparr>gc_idempotency := Some v\<rparr>" ?handler]) (simp_all add: idempotency_interceptor_def call_key_def)
    next
      case False
      with Cons run show ?thesis by (intro refused) (simp add: idempotency_interceptor_def)
    qed
  qed
qed

text \<open>
  C26. With authorization on, no call of any method is answered or changes the tables that was not allowed:
  its caller presented no credential or one that proves it, and the policies loaded at its arrival allow
  exactly that caller that method.
\<close>

lemma calls_are_authorized:
  assumes "Authorization_Enabled (Config_Authorization (hx_cfg (gs_http s)))" "gc_principal c = None"
    and "call_effect w (serve_grpc s generated request c w)"
  shows "\<exists>caller. presented_caller (hx_verify (gs_http s)) (hx_cfg (gs_http s)) (call_header c) = Inr caller \<and>
    call_decision (gs_http s) (method_of request) caller (aw_policy w) = None"
proof (cases rule: serve_grpc_run [OF assms(2), of s generated request w, case_names refused passed])
  case (refused code message)
  with assms(3) show ?thesis by (simp add: call_effect_def)
next
  case (passed c1 handler)
  note e = assms(3) [unfolded passed(3) call_effect_recovery assms(1) [THEN eqTrueI]]
  have header: "call_header c1 = call_header c" using passed(2) by (simp add: call_header_def [abs_def])
  show ?thesis
  proof (cases "authenticate_grpc_optional (hx_verify (gs_http s)) (hx_cfg (gs_http s)) c1")
    case (Inl x)
    with e show ?thesis by (cases x) (simp add: optional_auth_interceptor_def call_effect_def)
  next
    case (Inr c2)
    have "call_decision (gs_http s) (method_of request) (gc_principal c2) (aw_policy w) = None"
    proof (rule ccontr)
      assume "call_decision (gs_http s) (method_of request) (gc_principal c2) (aw_policy w) \<noteq> None"
      with e Inr show False
        by (auto simp: optional_auth_interceptor_def grpc_authorization_run call_effect_def evaluate_grpc_aside Let_def split: if_splits)
    qed
    with authenticated_call [OF passed(1) Inr] header show ?thesis by auto
  qed
qed

lemma calls_are_authorized_witness:
  "call_decision ex_http get_method (Some ex_user) ((aw_policy ex_state)\<lparr>pw_manager :=
     \<lparr>mg_snapshot = [''grpc call /platform.audit.v1.AuditService/Get''], mg_revision = 0, mg_routeIDs = Map.empty\<rparr>\<rparr>) = None"
proof -
  let ?w = "ex_state\<lparr>aw_policy := (aw_policy ex_state)\<lparr>pw_manager :=
     \<lparr>mg_snapshot = [''grpc call /platform.audit.v1.AuditService/Get''], mg_revision = 0, mg_routeIDs = Map.empty\<rparr>\<rparr>\<rparr>"
  have on: "Authorization_Enabled (Config_Authorization (hx_cfg (gs_http ex_grpc)))" by code_simp
  have c: "gc_principal ex_call = None" by (simp add: ex_call_def)
  have "case fst (serve_grpc ex_grpc ''g'' (GetRequest ''i1'' ''t1'') ex_call ?w) of Answered m \<Rightarrow> True | _ \<Rightarrow> False" by code_simp
  then have e: "call_effect ?w (serve_grpc ex_grpc ''g'' (GetRequest ''i1'' ''t1'') ex_call ?w)" by (simp add: call_effect_def)
  have "presented_caller (hx_verify (gs_http ex_grpc)) (hx_cfg (gs_http ex_grpc)) (call_header ex_call) = Inr (Some ex_user)" by code_simp
  with calls_are_authorized [OF on c e] show ?thesis by (simp add: ex_grpc_def)
qed

section \<open>The health check\<close>

lemma last_slash_unique:
  assumes "s @ CHR ''/'' # m = s' @ CHR ''/'' # m'" "CHR ''/'' \<notin> set m" "CHR ''/'' \<notin> set m'"
  shows "s = s' \<and> m = m'"
proof -
  have tail: "takeWhile (\<lambda>c. c \<noteq> CHR ''/'') (rev (s @ CHR ''/'' # m)) = rev m" if "CHR ''/'' \<notin> set m" for s m
  proof -
    have "\<forall>c \<in> set (rev m). c \<noteq> CHR ''/''" using that by auto
    then have "takeWhile (\<lambda>c. c \<noteq> CHR ''/'') (rev m @ CHR ''/'' # rev s) = rev m @ takeWhile (\<lambda>c. c \<noteq> CHR ''/'') (CHR ''/'' # rev s)"
      by (intro takeWhile_append2) blast
    then show ?thesis by simp
  qed
  have "rev m = rev m'" using tail [OF assms(2), of s] tail [OF assms(3), of s'] assms(1) by simp
  then show ?thesis using assms(1) by simp
qed

lemma described_operations:
  "describe_methods new_route service methods = Inr routes \<Longrightarrow> v \<in> set routes \<Longrightarrow>
     \<exists>m \<in> set methods. ro_Operation v = ''/'' @ service @ ''/'' @ m"
  by (induction methods arbitrary: routes) (auto simp: Let_def split: sum.splits)

lemma discovered_operations:
  "discovered_grpc_routes new_route services = Inr routes \<Longrightarrow> v \<in> set routes \<Longrightarrow>
     \<exists>(service, methods) \<in> set services. service \<noteq> ''grpc.health.v1.Health'' \<and>
       (\<exists>m \<in> set methods. ro_Operation v = ''/'' @ service @ ''/'' @ m)"
  by (induction services arbitrary: routes) (fastforce split: sum.splits if_splits dest: described_operations)+

text \<open>
  The health check is not open to everybody when authorization is on: without a policy for its method,
  the check is answered as unavailable however healthy the service is, and the discovery of routes never
  stores a route for it to which a policy could be attached.
\<close>

lemma health_check_needs_a_policy:
  assumes "Authorization_Enabled (Config_Authorization (hx_cfg (gs_http s)))"
    and "gc_Metadata c ''authorization'' = []" "gc_Metadata c ''idempotency-key'' = []"
    and "call_decision (gs_http s) ''/grpc.health.v1.Health/Check'' (gc_principal c) (aw_policy w) = Some err"
    and "\<not> errors_is err ErrPolicyDenied"
    and "discovered_grpc_routes new_route services = Inr routes" "\<And>service methods m. (service, methods) \<in> set services \<Longrightarrow> m \<in> set methods \<Longrightarrow> CHR ''/'' \<notin> set m"
  shows "fst (serve_grpc s generated HealthCheckRequest c w) = Status Unavailable ''authorization decision is unavailable'' \<and>
    (\<forall>v \<in> set routes. ro_Operation v \<noteq> ''/grpc.health.v1.Health/Check'')"
proof (intro conjI ballI notI)
  show "fst (serve_grpc s generated HealthCheckRequest c w) = Status Unavailable ''authorization decision is unavailable''"
    using assms(1-5)
    by (simp add: serve_grpc_def Let_def environment_interceptor_def request_id_interceptor_def idempotency_interceptor_def
        recovery_interceptor_def optional_auth_interceptor_def authenticate_grpc_optional_def grpc_authorization_run)
next
  fix v
  assume v: "v \<in> set routes" and op: "ro_Operation v = ''/grpc.health.v1.Health/Check''"
  obtain service methods m where o: "(service, methods) \<in> set services" "service \<noteq> ''grpc.health.v1.Health''" "m \<in> set methods"
    "ro_Operation v = ''/'' @ service @ ''/'' @ m"
    using discovered_operations [OF assms(6) v] by fastforce
  from o(4) op have "service @ CHR ''/'' # m = ''grpc.health.v1.Health'' @ CHR ''/'' # ''Check''" by simp
  from last_slash_unique [OF this assms(7) [OF o(1,3)]] o(2) show False by simp
qed

lemma health_check_needs_a_policy_witness:
  "fst (serve_grpc ex_grpc ''g'' HealthCheckRequest (ex_call\<lparr>gc_Metadata := (\<lambda>k. [])\<rparr>) ex_state) =
     Status Unavailable ''authorization decision is unavailable''"
proof -
  let ?c = "ex_call\<lparr>gc_Metadata := (\<lambda>k. [])\<rparr>"
  have on: "Authorization_Enabled (Config_Authorization (hx_cfg (gs_http ex_grpc)))" by code_simp
  have d: "call_decision (gs_http ex_grpc) ''/grpc.health.v1.Health/Check'' (gc_principal ?c) (aw_policy ex_state) = Some ErrPolicyMissing"
    by code_simp
  have "\<not> errors_is ErrPolicyMissing ErrPolicyDenied" by code_simp
  moreover have "discovered_grpc_routes (\<lambda>m p. Inr ex_route) [(''grpc.health.v1.Health'', [''Check''])] = Inr []" by code_simp
  ultimately show ?thesis
    using health_check_needs_a_policy [OF on _ _ d, of "\<lambda>m p. Inr ex_route" "[(''grpc.health.v1.Health'', [''Check''])]" "[]" "''g''"]
    by simp
qed

end
