(* ===== verification/Outbound_Base.thy ===== *)
theory Outbound_Base
  imports Config
begin

text \<open>
  What the outbound HTTP and gRPC clients share: the world a client works in, the breaker it may sit
  behind, the TLS files it is made from, and the contract of a retry loop.

  The world holds what belongs to the network and the libraries (\<open>ob_net\<close>, of any type), and a record
  of what the client did: the requests it sent, the times it waited and the metrics it counted.
\<close>

section \<open>The world of a client\<close>

record ('w, 'e) outbound =
  ob_net :: 'w
  ob_sent :: "'e list"
  ob_waits :: "duration list"
  ob_counted :: "(string \<times> string \<times> string) list"

text \<open>
  A timer against the context: \<open>None\<close> when the timer fires first, otherwise the error of the context.
\<close>

definition timer_wait :: "(duration \<Rightarrow> 'w \<Rightarrow> goerr option \<times> 'w) \<Rightarrow> duration \<Rightarrow> ('w, 'e) outbound
    \<Rightarrow> goerr option \<times> ('w, 'e) outbound" where
  "timer_wait wait d w = (case wait d (ob_net w) of
      (err, n) \<Rightarrow> (err, w\<lparr>ob_net := n, ob_waits := ob_waits w @ [d]\<rparr>))"

text \<open>The counter and the histogram of outbound calls, when there are metrics and they are enabled.\<close>

definition count_outbound :: "bool option \<Rightarrow> string \<Rightarrow> string \<Rightarrow> string \<Rightarrow> ('w, 'e) outbound \<Rightarrow> ('w, 'e) outbound" where
  "count_outbound metrics protocol client status w =
     (if metrics = Some True then w\<lparr>ob_counted := ob_counted w @ [(protocol, client, status)]\<rparr> else w)"

lemma count_outbound_simps [simp]:
  "ob_sent (count_outbound m p c s w) = ob_sent w" "ob_waits (count_outbound m p c s w) = ob_waits w"
  "ob_net (count_outbound m p c s w) = ob_net w"
  by (simp_all add: count_outbound_def)

text \<open>
  What the clients read of a context: its deadline, the request id, the idempotency key and the
  metadata that goes out with a call.  That it ends is an answer of the network and of the timer.
\<close>

record client_context =
  cx_Deadline :: "time option"
  cx_request_id :: string
  cx_idempotency :: "string option"
  cx_outgoing :: "(string \<times> string) list"

section \<open>The breaker\<close>

text \<open>
  The settings given to \<open>gobreaker\<close>: when it trips, after how many consecutive failures, and which
  errors (\<open>None\<close> is a nil error) do not count.
\<close>

record 'x breaker_settings =
  bs_Name :: string
  bs_Timeout :: duration
  bs_ReadyToTrip :: "int \<Rightarrow> bool"
  bs_IsExcluded :: "'x option \<Rightarrow> bool"

type_synonym ('x, 'a, 's) execute = "'x breaker_settings \<Rightarrow> ('s \<Rightarrow> ('x + 'a) \<times> 's) \<Rightarrow> 's \<Rightarrow> ('x + 'a) \<times> 's"

text \<open>
  What \<open>CircuitBreaker.Execute\<close> documents: it refuses with one of its own errors and does not run the
  request, or runs it once and returns what it returned.  Its state is the library's.
\<close>

definition breaker_law :: "'x set \<Rightarrow> ('x, 'a, ('w, 'e) outbound) execute \<Rightarrow> bool" where
  "breaker_law refusals exec \<longleftrightarrow> (\<forall>s f w.
     (\<exists>e \<in> refusals. \<exists>n. exec s f w = (Inl e, w\<lparr>ob_net := n\<rparr>)) \<or>
     (\<exists>n n'. exec s f w = (fst (f (w\<lparr>ob_net := n\<rparr>)), (snd (f (w\<lparr>ob_net := n\<rparr>)))\<lparr>ob_net := n'\<rparr>)))"

lemma breaker_law_cases:
  assumes "breaker_law refusals exec" "exec s f w = (r, w1)"
  obtains (refused) e n where "e \<in> refusals" "r = Inl e" "w1 = w\<lparr>ob_net := n\<rparr>"
  | (ran) n n' w2 where "f (w\<lparr>ob_net := n\<rparr>) = (r, w2)" "w1 = w2\<lparr>ob_net := n'\<rparr>"
proof -
  have "(\<exists>e \<in> refusals. \<exists>n. exec s f w = (Inl e, w\<lparr>ob_net := n\<rparr>)) \<or>
     (\<exists>n n'. exec s f w = (fst (f (w\<lparr>ob_net := n\<rparr>)), (snd (f (w\<lparr>ob_net := n\<rparr>)))\<lparr>ob_net := n'\<rparr>))"
    using assms(1) unfolding breaker_law_def by blast
  then show thesis
  proof
    assume "\<exists>e \<in> refusals. \<exists>n. exec s f w = (Inl e, w\<lparr>ob_net := n\<rparr>)"
    then show thesis using refused assms(2) by auto
  next
    assume "\<exists>n n'. exec s f w = (fst (f (w\<lparr>ob_net := n\<rparr>)), (snd (f (w\<lparr>ob_net := n\<rparr>)))\<lparr>ob_net := n'\<rparr>)"
    then obtain n n' where "r = fst (f (w\<lparr>ob_net := n\<rparr>))" "w1 = (snd (f (w\<lparr>ob_net := n\<rparr>)))\<lparr>ob_net := n'\<rparr>"
      using assms(2) by auto
    then show thesis using ran [of n "snd (f (w\<lparr>ob_net := n\<rparr>))" n'] by simp
  qed
qed

section \<open>TLS\<close>

text \<open>
  The file system and the X.509 library: reading a file, whether a pool accepts the certificates of
  a file, and loading a certificate with its key.
\<close>

record tls_files =
  tf_ReadFile :: "string \<Rightarrow> goerr + string"
  tf_AppendCerts :: "string \<Rightarrow> bool"
  tf_LoadKeyPair :: "string \<Rightarrow> string \<Rightarrow> goerr + string"

text \<open>The client's \<open>tls.Config\<close>; the least version is TLS 1.2, in the code of the protocol.\<close>

record tls_config =
  tls_MinVersion :: nat
  tls_ServerName :: string
  tls_RootCAs :: "string option"
  tls_Certificates :: "string list"

definition VersionTLS12 :: nat where
  "VersionTLS12 = 0x0303"

section \<open>Retrying\<close>

text \<open>
  The contract of a retry loop.  One attempt, with its number, ends the loop with a result or asks for
  another; each sends the same requests, an attempt that asks for another has waited its delay, and the
  last one ends the loop.
\<close>

locale retry_loop =
  fixes attempts :: "int \<Rightarrow> ('w, 'e) outbound \<Rightarrow> 'r \<times> ('w, 'e) outbound"
    and attempt :: "int \<Rightarrow> ('w, 'e) outbound \<Rightarrow> 'r option \<times> ('w, 'e) outbound"
    and final :: int
    and sends :: "'e list"
    and delay :: "int \<Rightarrow> duration"
  assumes finish: "k \<le> final \<Longrightarrow> attempt k w = (Some r, w1) \<Longrightarrow> attempts k w = (r, w1)"
    and again: "k \<le> final \<Longrightarrow> attempt k w = (None, w1) \<Longrightarrow> attempts k w = attempts (k + 1) w1"
    and ends: "attempt final w = (oc, w1) \<Longrightarrow> oc \<noteq> None"
    and sent: "attempt k w = (oc, w1) \<Longrightarrow> ob_sent w1 = ob_sent w @ sends"
    and waits_again: "k \<le> final \<Longrightarrow> attempt k w = (None, w1) \<Longrightarrow> ob_waits w1 = ob_waits w @ [delay k]"
    and waits_done: "k \<le> final \<Longrightarrow> attempt k w = (Some r, w1) \<Longrightarrow>
      ob_waits w1 = ob_waits w \<or> k < final \<and> ob_waits w1 = ob_waits w @ [delay k]"
begin

lemma attempts_from:
  assumes "k \<le> final" "attempts k w = (r, w1)"
  shows "\<exists>n \<ge> 1. \<exists>m. k + int n - 1 \<le> final \<and> k + int m - 1 < final \<and>
     ob_sent w1 = ob_sent w @ concat (replicate n sends) \<and>
     ob_waits w1 = ob_waits w @ map (\<lambda>i. delay (k + int i)) [0..<m] \<and>
     (\<exists>w0. attempt (k + int n - 1) w0 = (Some r, w1)) \<and> (m = n \<or> Suc m = n)"
  using assms
proof (induction "nat (final - k)" arbitrary: k w rule: less_induct)
  case less
  obtain oc w2 where a: "attempt k w = (oc, w2)" by (cases "attempt k w")
  show ?case
  proof (cases oc)
    case (Some s)
    with a finish less.prems have eq: "s = r" "w2 = w1" by auto
    from a Some eq have fin: "attempt k w = (Some r, w1)" by simp
    show ?thesis
    proof (cases "ob_waits w1 = ob_waits w")
      case True
      with sent [OF a] eq fin less.prems(1) show ?thesis
        by (intro exI [of _ 1] conjI exI [of _ 0]) auto
    next
      case False
      with waits_done [OF less.prems(1) fin] have "k < final" "ob_waits w1 = ob_waits w @ [delay k]" by auto
      with sent [OF a] eq fin less.prems(1) show ?thesis
        by (intro exI [of _ 1] conjI exI [of _ 1]) auto
    qed
  next
    case None
    with a ends have "k \<noteq> final" by blast
    with less.prems(1) have lt: "k < final" by simp
    from again [OF less.prems(1)] a None less.prems(2) have rest: "attempts (k + 1) w2 = (r, w1)" by simp
    have "nat (final - (k + 1)) < nat (final - k)" "k + 1 \<le> final" using lt by auto
    from less.hyps [OF this rest] obtain n m where h: "n \<ge> 1" "k + 1 + int n - 1 \<le> final" "k + 1 + int m - 1 < final"
      "ob_sent w1 = ob_sent w2 @ concat (replicate n sends)"
      "ob_waits w1 = ob_waits w2 @ map (\<lambda>i. delay (k + 1 + int i)) [0..<m]"
      "\<exists>w0. attempt (k + 1 + int n - 1) w0 = (Some r, w1)" "m = n \<or> Suc m = n" by blast
    have up: "map (\<lambda>i. delay (k + int i)) [0..<Suc m] = delay k # map (\<lambda>i. delay (k + 1 + int i)) [0..<m]"
      by (simp add: upt_conv_Cons map_Suc_upt [symmetric] comp_def ac_simps del: upt_Suc)
    have "ob_waits w1 = ob_waits w @ map (\<lambda>i. delay (k + int i)) [0..<Suc m]"
      using h(5) waits_again [OF less.prems(1)] a None by (simp add: up del: upt_Suc)
    moreover have "ob_sent w1 = ob_sent w @ concat (replicate (Suc n) sends)" using h(4) sent [OF a] by simp
    moreover have "\<exists>w0. attempt (k + int (Suc n) - 1) w0 = (Some r, w1)" using h(6) by (simp add: ac_simps)
    ultimately show ?thesis using h(1-3,7)
      by (intro exI [of _ "Suc n"] conjI exI [of _ "Suc m"]) auto
  qed
qed

end

end
