(* ===== verification/Outbound_Grpc.thy ===== *)
theory Outbound_Grpc
  imports Outbound_Base Grpc_Status
begin

text \<open>
  \<open>internal/grpcclient/client.go\<close>: the connection to a gRPC service and the interceptors in front of
  it, in the order \<open>Dial\<close> chains them.  The library's connection, the network, the clock and the timer
  are the record \<open>grpc_net\<close>, the breaker is an argument.
\<close>

section \<open>Calls\<close>

text \<open>An error of a call: a status, or an error that carries none.\<close>

datatype call_error = StatusErr grpc_code string | OtherErr goerr

type_synonym ('w, 'q) grpc_world = "('w, client_context \<times> string \<times> 'q) outbound"

text \<open>The reply is \<open>None\<close> when there is no error and nothing was written into it.\<close>

type_synonym ('w, 'q, 'r) invoker = "client_context \<Rightarrow> string \<Rightarrow> 'q \<Rightarrow> ('w, 'q) grpc_world
    \<Rightarrow> (call_error + 'r option) \<times> ('w, 'q) grpc_world"

definition call_code :: "call_error + 'a \<Rightarrow> grpc_code" where
  "call_code r = (case r of Inr _ \<Rightarrow> OK | Inl (StatusErr c _) \<Rightarrow> c | Inl (OtherErr _) \<Rightarrow> Unknown)"

record ('w, 'q, 'r) grpc_net =
  gn_NewClient :: "string \<Rightarrow> goerr option"
  gn_Invoke :: "client_context \<Rightarrow> string \<Rightarrow> 'q \<Rightarrow> 'w \<Rightarrow> (call_error + 'r) \<times> 'w"
  gn_now :: "'w \<Rightarrow> time"
  gn_wait :: "duration \<Rightarrow> 'w \<Rightarrow> goerr option \<times> 'w"

definition grpc_invoke :: "('w, 'q, 'r) grpc_net \<Rightarrow> ('w, 'q, 'r) invoker" where
  "grpc_invoke net ctx method req w = (case gn_Invoke net ctx method req (ob_net w) of
      (r, n) \<Rightarrow> (map_sum id Some r, w\<lparr>ob_net := n, ob_sent := ob_sent w @ [(ctx, method, req)]\<rparr>))"

section \<open>Configuration\<close>

record grpc_tls =
  gt_Enabled :: bool
  gt_ServerName :: string
  gt_CAFile :: string
  gt_CertFile :: string
  gt_KeyFile :: string
  gt_AllowInsecureToken :: bool

record grpc_client_config =
  gk_Target :: string
  gk_Timeout :: duration
  gk_Token :: string
  gk_PSK :: string
  gk_TLS :: grpc_tls
  gk_Name :: string
  gk_Retry :: cRetry
  gk_Breaker :: cBreaker
  gk_Metrics :: "bool option"

datatype transport_security = Insecure | Secure tls_config

definition transport_credentials :: "tls_files \<Rightarrow> grpc_tls \<Rightarrow> goerr + transport_security" where
  "transport_credentials fs cfg =
     (if \<not> gt_Enabled cfg then Inr Insecure
      else let tc = \<lparr>tls_MinVersion = VersionTLS12, tls_ServerName = gt_ServerName cfg, tls_RootCAs = None,
          tls_Certificates = []\<rparr> in
       case (if gt_CAFile cfg = [] then Inr tc
             else (case tf_ReadFile fs (gt_CAFile cfg) of
                 Inl err \<Rightarrow> Inl (ErrWrap ''read grpc CA'' err)
               | Inr pem \<Rightarrow> if \<not> tf_AppendCerts fs pem then Inl (ErrText ''parse grpc CA'')
                   else Inr (tc\<lparr>tls_RootCAs := Some pem\<rparr>))) of
         Inl err \<Rightarrow> Inl err
       | Inr tc \<Rightarrow>
           if gt_CertFile cfg = [] \<and> gt_KeyFile cfg = [] then Inr (Secure tc)
           else if gt_CertFile cfg = [] \<or> gt_KeyFile cfg = []
           then Inl (ErrText ''grpc client certificate and key must be configured together'')
           else (case tf_LoadKeyPair fs (gt_CertFile cfg) (gt_KeyFile cfg) of
               Inl err \<Rightarrow> Inl (ErrWrap ''load grpc client certificate'' err)
             | Inr cert \<Rightarrow> Inr (Secure (tc\<lparr>tls_Certificates := [cert]\<rparr>))))"

section \<open>Interceptors\<close>

definition timeout_interceptor :: "('w, 'q, 'r) grpc_net \<Rightarrow> duration \<Rightarrow> ('w, 'q, 'r) invoker \<Rightarrow> ('w, 'q, 'r) invoker" where
  "timeout_interceptor net timeout invoker ctx method req w =
     (if cx_Deadline ctx \<noteq> None then invoker ctx method req w
      else invoker (ctx\<lparr>cx_Deadline := Some (gn_now net (ob_net w) + timeout)\<rparr>) method req w)"

definition metadata_pairs :: "string \<Rightarrow> string \<Rightarrow> client_context \<Rightarrow> (string \<times> string) list" where
  "metadata_pairs token psk ctx =
     (if token \<noteq> [] then [(''authorization'', ''Bearer '' @ token)]
      else if psk \<noteq> [] then [(''authorization'', ''PSK '' @ psk)] else [])
     @ (if cx_request_id ctx \<noteq> [] then [(''x-request-id'', cx_request_id ctx)] else [])
     @ (case cx_idempotency ctx of Some key \<Rightarrow> [(''idempotency-key'', key)] | None \<Rightarrow> [])"

definition metadata_interceptor :: "string \<Rightarrow> string \<Rightarrow> ('w, 'q, 'r) invoker \<Rightarrow> ('w, 'q, 'r) invoker" where
  "metadata_interceptor token psk invoker ctx method req w =
     (let pairs = metadata_pairs token psk ctx in
      if pairs \<noteq> [] then invoker (ctx\<lparr>cx_outgoing := cx_outgoing ctx @ pairs\<rparr>) method req w
      else invoker ctx method req w)"

definition client_metrics_interceptor :: "string \<Rightarrow> bool \<Rightarrow> ('w, 'q, 'r) invoker \<Rightarrow> ('w, 'q, 'r) invoker" where
  "client_metrics_interceptor name enabled invoker ctx method req w = (case invoker ctx method req w of
      (r, w1) \<Rightarrow> (r, count_outbound (Some enabled) ''grpc'' name (code_name (call_code r)) w1))"

text \<open>
  What does not count for the breaker is every error but the three codes, and a nil error, whose code
  is \<open>OK\<close>.
\<close>

definition grpc_excluded :: "call_error option \<Rightarrow> bool" where
  "grpc_excluded err = (let code = call_code (case err of Some e \<Rightarrow> Inl e | None \<Rightarrow> Inr ()) in
     code \<noteq> Unavailable \<and> code \<noteq> ResourceExhausted \<and> code \<noteq> DeadlineExceeded)"

definition grpc_breaker :: "string \<Rightarrow> cBreaker \<Rightarrow> call_error breaker_settings" where
  "grpc_breaker name cfg = \<lparr>bs_Name = name, bs_Timeout = Breaker_OpenTimeout cfg,
     bs_ReadyToTrip = (\<lambda>failures. failures \<ge> Breaker_FailureThreshold cfg), bs_IsExcluded = grpc_excluded\<rparr>"

type_synonym ('w, 'q, 'r) grpc_execute = "(call_error, 'r option, ('w, 'q) grpc_world) execute"

definition breaker_interceptor :: "('w, 'q, 'r) grpc_execute \<Rightarrow> string \<Rightarrow> cBreaker
    \<Rightarrow> ('w, 'q, 'r) invoker \<Rightarrow> ('w, 'q, 'r) invoker" where
  "breaker_interceptor exec name cfg invoker ctx method req w =
     exec (grpc_breaker name cfg) (\<lambda>w. invoker ctx method req w) w"

definition retry_grpc_method :: "client_context \<Rightarrow> string \<Rightarrow> string list \<Rightarrow> bool" where
  "retry_grpc_method ctx method patterns \<longleftrightarrow>
     (if cx_idempotency ctx \<noteq> None then True
      else list_ex (\<lambda>pattern. path_match pattern method = Some True) patterns)"

text \<open>The shift wraps at 64 bits.\<close>

definition grpc_delay :: "cRetry \<Rightarrow> int \<Rightarrow> duration" where
  "grpc_delay cfg attempt = (let delay = wrap64 (Retry_InitialBackoff cfg * 2 ^ nat (attempt - 1)) in
     if delay > Retry_MaxBackoff cfg then Retry_MaxBackoff cfg else delay)"

definition wait_retry :: "('w, 'q, 'r) grpc_net \<Rightarrow> cRetry \<Rightarrow> int \<Rightarrow> ('w, 'q) grpc_world \<Rightarrow> goerr option \<times> ('w, 'q) grpc_world" where
  "wait_retry net cfg attempt w = timer_wait (gn_wait net) (grpc_delay cfg attempt) w"

definition retryable_code :: "grpc_code \<Rightarrow> bool" where
  "retryable_code code \<longleftrightarrow> code = Unavailable \<or> code = ResourceExhausted"

text \<open>The loop; \<open>r\<close> is the error of the attempt before, nil at first.\<close>

function grpc_attempts :: "('w, 'q, 'r) grpc_net \<Rightarrow> cRetry \<Rightarrow> (('w, 'q) grpc_world \<Rightarrow> (call_error + 'r option) \<times> ('w, 'q) grpc_world)
    \<Rightarrow> (call_error + 'r option) \<Rightarrow> int \<Rightarrow> ('w, 'q) grpc_world \<Rightarrow> (call_error + 'r option) \<times> ('w, 'q) grpc_world" where
  "grpc_attempts net cfg invoke r attempt w =
     (if attempt \<le> Retry_MaxAttempts cfg then
        (case invoke w of (r1, w1) \<Rightarrow>
           if \<not> retryable_code (call_code r1) then (r1, w1)
           else if attempt < Retry_MaxAttempts cfg then
             (case wait_retry net cfg attempt w1 of
                (Some stop, w2) \<Rightarrow> (Inl (OtherErr stop), w2)
              | (None, w2) \<Rightarrow> grpc_attempts net cfg invoke r1 (attempt + 1) w2)
           else grpc_attempts net cfg invoke r1 (attempt + 1) w1)
      else (r, w))"
  by pat_completeness auto
termination
  by (relation "measure (\<lambda>(net, cfg, invoke, r, attempt, w). nat (Retry_MaxAttempts cfg - attempt + 1))") auto

declare grpc_attempts.simps [simp del]

definition retry_interceptor :: "('w, 'q, 'r) grpc_net \<Rightarrow> cRetry \<Rightarrow> ('w, 'q, 'r) invoker \<Rightarrow> ('w, 'q, 'r) invoker" where
  "retry_interceptor net cfg invoker ctx method req w =
     (if \<not> retry_grpc_method ctx method (Retry_Methods cfg) then invoker ctx method req w
      else grpc_attempts net cfg (\<lambda>w. invoker ctx method req w) (Inr None) 1 w)"

section \<open>Dial\<close>

record grpc_connection =
  gx_target :: string
  gx_security :: transport_security
  gx_config :: grpc_client_config

definition dial_grpc :: "('w, 'q, 'r) grpc_net \<Rightarrow> tls_files \<Rightarrow> grpc_client_config \<Rightarrow> goerr + grpc_connection" where
  "dial_grpc net fs cfg =
     (if gk_Target cfg = [] then Inl (ErrText ''grpc client target is required'')
      else if gk_Timeout cfg \<le> 0 then Inl (ErrText ''grpc client timeout must be positive'')
      else (case transport_credentials fs (gk_TLS cfg) of
          Inl err \<Rightarrow> Inl err
        | Inr security \<Rightarrow>
            if gk_Token cfg \<noteq> [] \<and> \<not> gt_Enabled (gk_TLS cfg) \<and> \<not> gt_AllowInsecureToken (gk_TLS cfg)
            then Inl (ErrText ''refusing to send grpc bearer token without TLS'')
            else if gk_PSK cfg \<noteq> [] \<and> gk_Token cfg \<noteq> []
            then Inl (ErrText ''grpc client bearer token and PSK are mutually exclusive'')
            else if gk_PSK cfg \<noteq> [] \<and> \<not> gt_Enabled (gk_TLS cfg) \<and> \<not> gt_AllowInsecureToken (gk_TLS cfg)
            then Inl (ErrText ''refusing to send grpc PSK without TLS'')
            else (case gn_NewClient net (gk_Target cfg) of
                Some err \<Rightarrow> Inl err
              | None \<Rightarrow> Inr \<lparr>gx_target = gk_Target cfg, gx_security = security, gx_config = cfg\<rparr>)))"

text \<open>The interceptors of a connection, the first outermost.\<close>

definition grpc_interceptors :: "('w, 'q, 'r) grpc_execute \<Rightarrow> ('w, 'q, 'r) grpc_net \<Rightarrow> grpc_client_config
    \<Rightarrow> (('w, 'q, 'r) invoker \<Rightarrow> ('w, 'q, 'r) invoker) list" where
  "grpc_interceptors exec net cfg =
     [timeout_interceptor net (gk_Timeout cfg), metadata_interceptor (gk_Token cfg) (gk_PSK cfg)]
     @ (case gk_Metrics cfg of Some enabled \<Rightarrow> [client_metrics_interceptor (gk_Name cfg) enabled] | None \<Rightarrow> [])
     @ (if Breaker_Enabled (gk_Breaker cfg) then [breaker_interceptor exec (gk_Name cfg) (gk_Breaker cfg)] else [])
     @ (if Retry_MaxAttempts (gk_Retry cfg) > 1 then [retry_interceptor net (gk_Retry cfg)] else [])"

definition grpc_call :: "('w, 'q, 'r) grpc_execute \<Rightarrow> ('w, 'q, 'r) grpc_net \<Rightarrow> grpc_connection \<Rightarrow> ('w, 'q, 'r) invoker" where
  "grpc_call exec net conn = foldr (\<lambda>i inner. i inner) (grpc_interceptors exec net (gx_config conn)) (grpc_invoke net)"

end
