(* ===== verification/Outbound_Http.thy ===== *)
theory Outbound_Http
  imports Outbound_Base "HOL-Library.AList"
begin

text \<open>
  \<open>internal/outbound/http.go\<close>: the client for an HTTP service, with its credentials, retries, delays
  and breaker.  Parsing and resolving URLs, what \<open>net/http\<close> refuses to make a request of, the network
  and the timer are the record \<open>http_net\<close>; the breaker is an argument.
\<close>

section \<open>Requests and answers\<close>

record url =
  u_Scheme :: string
  u_Host :: string
  u_rest :: string

type_synonym http_header = "(string \<times> string list) list"

record out_request =
  or_Method :: string
  or_URL :: string
  or_Header :: http_header
  or_Body :: string

record out_response =
  os_StatusCode :: int
  os_Body :: string

definition header_get :: "http_header \<Rightarrow> string \<Rightarrow> string" where
  "header_get h k = (case map_of h k of Some (v # _) \<Rightarrow> v | _ \<Rightarrow> [])"

definition header_set :: "string \<Rightarrow> string \<Rightarrow> http_header \<Rightarrow> http_header" where
  "header_set k v h = AList.update k [v] h"

record 'w http_net =
  hn_Parse :: "string \<Rightarrow> goerr + url"
  hn_Resolve :: "url \<Rightarrow> url \<Rightarrow> string"
  hn_NewRequest :: "string \<Rightarrow> string \<Rightarrow> goerr option"
  hn_Do :: "out_request \<Rightarrow> 'w \<Rightarrow> (out_response option \<times> goerr option) \<times> 'w"
  hn_discard :: "out_response \<Rightarrow> 'w \<Rightarrow> 'w"
  hn_wait :: "duration \<Rightarrow> 'w \<Rightarrow> goerr option \<times> 'w"
  hn_overflow :: "int \<Rightarrow> duration"

section \<open>The client\<close>

text \<open>An error of a call: \<open>statusError\<close>, which carries the answer through the breaker, or another.\<close>

datatype http_failure = StatusError out_response | Failed goerr

type_synonym 'w http_world = "('w, out_request) outbound"
type_synonym http_result = "http_failure + out_response option"

record http_client =
  hc_name :: string
  hc_base :: url
  hc_tls :: tls_config
  hc_cfg :: cHTTPUpstream
  hc_breaker :: "http_failure breaker_settings option"
  hc_metrics :: "bool option"

definition http_transport :: "tls_files \<Rightarrow> cClientTLS \<Rightarrow> goerr + tls_config" where
  "http_transport fs cfg =
     (let tc = \<lparr>tls_MinVersion = VersionTLS12, tls_ServerName = ClientTLS_ServerName cfg, tls_RootCAs = None,
         tls_Certificates = []\<rparr> in
      case (if ClientTLS_CAFile cfg = [] then Inr tc
            else (case tf_ReadFile fs (ClientTLS_CAFile cfg) of
                Inl err \<Rightarrow> Inl (ErrWrap ''read outbound HTTP CA'' err)
              | Inr pem \<Rightarrow> if \<not> tf_AppendCerts fs pem then Inl (ErrText ''parse outbound HTTP CA'')
                  else Inr (tc\<lparr>tls_RootCAs := Some pem\<rparr>))) of
        Inl err \<Rightarrow> Inl err
      | Inr tc \<Rightarrow>
          if ClientTLS_CertFile cfg = [] then Inr tc
          else (case tf_LoadKeyPair fs (ClientTLS_CertFile cfg) (ClientTLS_KeyFile cfg) of
              Inl err \<Rightarrow> Inl (ErrWrap ''load outbound HTTP client certificate'' err)
            | Inr cert \<Rightarrow> Inr (tc\<lparr>tls_Certificates := [cert]\<rparr>)))"

definition context_canceled :: goerr where
  "context_canceled = ErrVar ''context canceled''"

definition http_excluded :: "http_failure option \<Rightarrow> bool" where
  "http_excluded err = (case err of Some (Failed e) \<Rightarrow> errors_is e context_canceled | _ \<Rightarrow> False)"

definition http_breaker :: "string \<Rightarrow> cBreaker \<Rightarrow> http_failure breaker_settings option" where
  "http_breaker name cfg = (if Breaker_Enabled cfg then
       Some \<lparr>bs_Name = name, bs_Timeout = Breaker_OpenTimeout cfg,
         bs_ReadyToTrip = (\<lambda>failures. failures \<ge> Breaker_FailureThreshold cfg), bs_IsExcluded = http_excluded\<rparr>
     else None)"

definition new_http_client :: "'w http_net \<Rightarrow> tls_files \<Rightarrow> string \<Rightarrow> cHTTPUpstream \<Rightarrow> bool option
    \<Rightarrow> goerr + http_client" where
  "new_http_client net fs name cfg metrics =
     (if ClientAuth_Type (HTTPUpstream_Auth cfg) \<noteq> [] \<and> \<not> ClientTLS_Enabled (HTTPUpstream_TLS cfg)
      then Inl (ErrText ''refusing to send outbound HTTP credentials without TLS'')
      else (case hn_Parse net (HTTPUpstream_BaseURL cfg) of
          Inl _ \<Rightarrow> Inl (ErrText ''parse outbound HTTP base URL'')
        | Inr base \<Rightarrow>
            if u_Scheme base = [] \<or> u_Host base = [] then Inl (ErrText ''parse outbound HTTP base URL'')
            else (case http_transport fs (HTTPUpstream_TLS cfg) of
                Inl err \<Rightarrow> Inl err
              | Inr tls \<Rightarrow> Inr \<lparr>hc_name = name, hc_base = base, hc_tls = tls, hc_cfg = cfg,
                  hc_breaker = http_breaker name (HTTPUpstream_Breaker cfg), hc_metrics = metrics\<rparr>)))"

section \<open>Retries\<close>

definition retryable_method :: "client_context \<Rightarrow> string \<Rightarrow> bool" where
  "retryable_method ctx method =
     (if method = ''GET'' \<or> method = ''HEAD'' \<or> method = ''OPTIONS'' \<or> method = ''PUT'' \<or> method = ''DELETE''
      then True else cx_idempotency ctx \<noteq> None)"

definition retryable_http_status :: "int \<Rightarrow> bool" where
  "retryable_http_status status \<longleftrightarrow> status = 429 \<or> status = 502 \<or> status = 503 \<or> status = 504"

definition apply_http_auth :: "cClientAuth \<Rightarrow> http_header \<Rightarrow> http_header" where
  "apply_http_auth auth h =
     (if ClientAuth_Type auth = ''bearer'' then header_set ''Authorization'' (''Bearer '' @ ClientAuth_Token auth) h
      else if ClientAuth_Type auth = ''psk'' then header_set ''Authorization'' (''PSK '' @ ClientAuth_Token auth) h
      else h)"

text \<open>
  \<open>float64\<close> of an integer: the nearest multiple of the power of two that leaves 53 bits, to the even
  one of two.  A product with a power of two is exact.
\<close>

fun bit_size :: "nat \<Rightarrow> nat" where
  "bit_size n = (if n = 0 then 0 else Suc (bit_size (n div 2)))"

declare bit_size.simps [simp del]

definition round_even :: "nat \<Rightarrow> nat \<Rightarrow> nat" where
  "round_even n k = (let q = n div 2 ^ k; r = n mod 2 ^ k in
     (if 2 * r > 2 ^ k \<or> 2 * r = 2 ^ k \<and> odd q then q + 1 else q) * 2 ^ k)"

definition float_of :: "int \<Rightarrow> int" where
  "float_of x = (if \<bar>x\<bar> \<le> 2 ^ 53 then x
     else sgn x * (let n = nat \<bar>x\<bar> in int (round_even n (bit_size n - 53))))"

text \<open>
  The conversion back to 64 bits; what it gives for a value out of range depends on the machine.
\<close>

definition http_delay :: "(int \<Rightarrow> duration) \<Rightarrow> cRetry \<Rightarrow> int \<Rightarrow> duration" where
  "http_delay overflow retry attempt =
     (let x = float_of (Retry_InitialBackoff retry) * 2 ^ nat (attempt - 1);
        delay = (if - (2 ^ 63) \<le> x \<and> x < 2 ^ 63 then x else overflow x) in
      if delay > Retry_MaxBackoff retry then Retry_MaxBackoff retry else delay)"

definition wait_backoff :: "'w http_net \<Rightarrow> cRetry \<Rightarrow> int \<Rightarrow> 'w http_world \<Rightarrow> goerr option \<times> 'w http_world" where
  "wait_backoff net retry attempt w = timer_wait (hn_wait net) (http_delay (hn_overflow net) retry attempt) w"

definition build_request :: "'w http_net \<Rightarrow> http_client \<Rightarrow> string \<Rightarrow> string \<Rightarrow> string \<Rightarrow> http_header option
    \<Rightarrow> goerr + out_request" where
  "build_request net c method target body headers = (case hn_NewRequest net method target of
      Some err \<Rightarrow> Inl (ErrWrap ''create outbound HTTP request'' err)
    | None \<Rightarrow>
        (let h = (case headers of Some h \<Rightarrow> h | None \<Rightarrow> []);
           h = (if body \<noteq> [] \<and> header_get h ''Content-Type'' = [] then header_set ''Content-Type'' ''application/json'' h else h)
         in Inr \<lparr>or_Method = method, or_URL = target,
              or_Header = apply_http_auth (HTTPUpstream_Auth (hc_cfg c)) h, or_Body = body\<rparr>))"

definition client_send :: "'w http_net \<Rightarrow> out_request \<Rightarrow> 'w http_world
    \<Rightarrow> (out_response option \<times> goerr option) \<times> 'w http_world" where
  "client_send net req w = (case hn_Do net req (ob_net w) of
      (answer, n) \<Rightarrow> (answer, w\<lparr>ob_net := n, ob_sent := ob_sent w @ [req]\<rparr>))"

definition discard_answer :: "'w http_net \<Rightarrow> out_response option \<Rightarrow> 'w http_world \<Rightarrow> 'w http_world" where
  "discard_answer net resp w = (case resp of
      Some a \<Rightarrow> w\<lparr>ob_net := hn_discard net a (ob_net w)\<rparr>
    | None \<Rightarrow> w)"

text \<open>The body of the loop: a result, or \<open>None\<close> to go on.\<close>

definition http_attempt :: "'w http_net \<Rightarrow> http_client \<Rightarrow> string \<Rightarrow> string \<Rightarrow> string \<Rightarrow> http_header option
    \<Rightarrow> int \<Rightarrow> int \<Rightarrow> 'w http_world \<Rightarrow> http_result option \<times> 'w http_world" where
  "http_attempt net c method target body headers max_attempts attempt w =
     (case build_request net c method target body headers of
        Inl err \<Rightarrow> (Some (Inl (Failed err)), w)
      | Inr req \<Rightarrow> (case client_send net req w of ((resp, err), w1) \<Rightarrow>
          if err = None \<and> (case resp of None \<Rightarrow> True
               | Some a \<Rightarrow> \<not> retryable_http_status (os_StatusCode a) \<or> attempt = max_attempts)
          then (Some (Inr resp), w1)
          else if err \<noteq> None \<and> attempt = max_attempts
          then (Some (Inl (Failed (ErrWrap ''call outbound HTTP service'' (the err)))), w1)
          else (let w2 = discard_answer net resp w1 in
            if attempt < max_attempts then
              (case wait_backoff net (HTTPUpstream_Retry (hc_cfg c)) attempt w2 of
                 (Some stop, w3) \<Rightarrow> (Some (Inl (Failed stop)), w3)
               | (None, w3) \<Rightarrow> (None, w3))
            else (None, w2))))"

function http_attempts :: "'w http_net \<Rightarrow> http_client \<Rightarrow> string \<Rightarrow> string \<Rightarrow> string \<Rightarrow> http_header option
    \<Rightarrow> int \<Rightarrow> int \<Rightarrow> 'w http_world \<Rightarrow> http_result \<times> 'w http_world" where
  "http_attempts net c method target body headers max_attempts attempt w =
     (if attempt \<le> max_attempts then
        (case http_attempt net c method target body headers max_attempts attempt w of
           (Some r, w1) \<Rightarrow> (r, w1)
         | (None, w1) \<Rightarrow> http_attempts net c method target body headers max_attempts (attempt + 1) w1)
      else (Inl (Failed (ErrText ''outbound HTTP attempts exhausted'')), w))"
  by pat_completeness auto
termination
  by (relation "measure (\<lambda>(net, c, method, target, body, headers, max_attempts, attempt, w). nat (max_attempts - attempt + 1))")
    auto

declare http_attempts.simps [simp del]

definition http_max_attempts :: "http_client \<Rightarrow> client_context \<Rightarrow> string \<Rightarrow> int" where
  "http_max_attempts c ctx method =
     (if retryable_method ctx method then Retry_MaxAttempts (HTTPUpstream_Retry (hc_cfg c)) else 1)"

definition http_target :: "'w http_net \<Rightarrow> http_client \<Rightarrow> string \<Rightarrow> goerr + string" where
  "http_target net c request_path = (case hn_Parse net request_path of
      Inl _ \<Rightarrow> Inl (ErrText ''outbound HTTP path must be relative'')
    | Inr reference \<Rightarrow>
        if u_Scheme reference \<noteq> [] \<or> u_Host reference \<noteq> [] then Inl (ErrText ''outbound HTTP path must be relative'')
        else Inr (hn_Resolve net (hc_base c) reference))"

definition do_with_retry :: "'w http_net \<Rightarrow> http_client \<Rightarrow> client_context \<Rightarrow> string \<Rightarrow> string \<Rightarrow> string
    \<Rightarrow> http_header option \<Rightarrow> 'w http_world \<Rightarrow> http_result \<times> 'w http_world" where
  "do_with_retry net c ctx method request_path body headers w = (case http_target net c request_path of
      Inl err \<Rightarrow> (Inl (Failed err), w)
    | Inr target \<Rightarrow> http_attempts net c method target body headers (http_max_attempts c ctx method) 1 w)"

section \<open>Do\<close>

definition fail_retryable :: "http_result \<Rightarrow> http_result" where
  "fail_retryable r = (case r of
      Inr (Some a) \<Rightarrow> if retryable_http_status (os_StatusCode a) then Inl (StatusError a) else r
    | _ \<Rightarrow> r)"

definition unwrap_status :: "http_result \<Rightarrow> http_result" where
  "unwrap_status r = (case r of Inl (StatusError a) \<Rightarrow> Inr (Some a) | _ \<Rightarrow> r)"

definition http_execute :: "(http_failure, out_response option, 'w http_world) execute \<Rightarrow> 'w http_net \<Rightarrow> http_client
    \<Rightarrow> client_context \<Rightarrow> string \<Rightarrow> string \<Rightarrow> string \<Rightarrow> http_header option \<Rightarrow> 'w http_world
    \<Rightarrow> http_result \<times> 'w http_world" where
  "http_execute exec net c ctx method request_path body headers w = (case hc_breaker c of
      None \<Rightarrow> do_with_retry net c ctx method request_path body headers w
    | Some settings \<Rightarrow>
        (case exec settings (\<lambda>w. case do_with_retry net c ctx method request_path body headers w of
             (r, w1) \<Rightarrow> (fail_retryable r, w1)) w of (r, w1) \<Rightarrow> (unwrap_status r, w1)))"

definition http_do :: "(http_failure, out_response option, 'w http_world) execute \<Rightarrow> 'w http_net \<Rightarrow> http_client
    \<Rightarrow> client_context \<Rightarrow> string \<Rightarrow> string \<Rightarrow> string \<Rightarrow> http_header option \<Rightarrow> 'w http_world
    \<Rightarrow> http_result \<times> 'w http_world" where
  "http_do exec net c ctx method request_path body headers w =
     (case http_execute exec net c ctx method request_path body headers w of (r, w1) \<Rightarrow>
        (r, count_outbound (hc_metrics c) ''http'' (hc_name c)
              (case r of Inr (Some a) \<Rightarrow> show_int (os_StatusCode a) | _ \<Rightarrow> ''error'') w1))"

end
