(* ===== verification/Outbound_Http_Facts.thy ===== *)
theory Outbound_Http_Facts
  imports Outbound_Http
begin

text \<open>
  The retry loop of the HTTP client as an instance of the contract of \<open>Outbound_Base\<close>, the delays, and
  the property that a call ends within its retry policy.
\<close>

section \<open>One attempt\<close>

text \<open>The requests one attempt sends.\<close>

definition attempt_sends :: "'w http_net \<Rightarrow> http_client \<Rightarrow> string \<Rightarrow> string \<Rightarrow> string \<Rightarrow> http_header option \<Rightarrow> out_request list" where
  "attempt_sends net c method target body headers = (case build_request net c method target body headers of
      Inl _ \<Rightarrow> [] | Inr req \<Rightarrow> [req])"

lemma client_send_simps [simp]:
  "ob_sent (snd (client_send net req w)) = ob_sent w @ [req]" "ob_waits (snd (client_send net req w)) = ob_waits w"
  by (simp_all add: client_send_def split: prod.splits)

lemma discard_answer_simps [simp]:
  "ob_sent (discard_answer net resp w) = ob_sent w" "ob_waits (discard_answer net resp w) = ob_waits w"
  by (simp_all add: discard_answer_def split: option.splits)

lemma http_attempt_cases:
  assumes "http_attempt net c method target body headers m k w = (oc, w1)"
  obtains (unbuilt) err where "build_request net c method target body headers = Inl err" "oc = Some (Inl (Failed err))" "w1 = w"
  | (answered) req resp n where "build_request net c method target body headers = Inr req"
      "fst (hn_Do net req (ob_net w)) = (resp, None)" "oc = Some (Inr resp)"
      "k \<noteq> m \<longrightarrow> (case resp of None \<Rightarrow> True | Some a \<Rightarrow> \<not> retryable_http_status (os_StatusCode a))"
      "w1 = w\<lparr>ob_net := n, ob_sent := ob_sent w @ [req]\<rparr>"
  | (failed) req resp err n where "build_request net c method target body headers = Inr req"
      "fst (hn_Do net req (ob_net w)) = (resp, Some err)" "k = m"
      "oc = Some (Inl (Failed (ErrWrap ''call outbound HTTP service'' err)))"
      "w1 = w\<lparr>ob_net := n, ob_sent := ob_sent w @ [req]\<rparr>"
  | (stopped) req n0 stop n where "build_request net c method target body headers = Inr req" "k < m"
      "fst (hn_wait net (http_delay (hn_overflow net) (HTTPUpstream_Retry (hc_cfg c)) k) n0) = Some stop"
      "oc = Some (Inl (Failed stop))"
      "w1 = w\<lparr>ob_net := n, ob_sent := ob_sent w @ [req],
         ob_waits := ob_waits w @ [http_delay (hn_overflow net) (HTTPUpstream_Retry (hc_cfg c)) k]\<rparr>"
  | (again) req n where "build_request net c method target body headers = Inr req" "k < m" "oc = None"
      "w1 = w\<lparr>ob_net := n, ob_sent := ob_sent w @ [req],
         ob_waits := ob_waits w @ [http_delay (hn_overflow net) (HTTPUpstream_Retry (hc_cfg c)) k]\<rparr>"
  | (beyond) req n where "build_request net c method target body headers = Inr req" "m < k" "oc = None"
      "w1 = w\<lparr>ob_net := n, ob_sent := ob_sent w @ [req]\<rparr>"
proof (cases "build_request net c method target body headers")
  case (Inl err)
  with assms show thesis by (intro unbuilt) (auto simp: http_attempt_def)
next
  case (Inr req)
  obtain resp err n where d: "hn_Do net req (ob_net w) = ((resp, err), n)" by (metis surj_pair)
  then have s: "client_send net req w = ((resp, err), w\<lparr>ob_net := n, ob_sent := ob_sent w @ [req]\<rparr>)"
    by (simp add: client_send_def)
  define w2 where "w2 = discard_answer net resp (w\<lparr>ob_net := n, ob_sent := ob_sent w @ [req]\<rparr>)"
  have w2: "w2 = w\<lparr>ob_net := ob_net w2, ob_sent := ob_sent w @ [req]\<rparr>"
    by (auto simp: w2_def discard_answer_def split: option.splits)
  define good where "good \<longleftrightarrow> (case resp of None \<Rightarrow> True
     | Some a \<Rightarrow> \<not> retryable_http_status (os_StatusCode a) \<or> k = m)"
  obtain b n3 where b: "hn_wait net (http_delay (hn_overflow net) (HTTPUpstream_Retry (hc_cfg c)) k) (ob_net w2) = (b, n3)"
    by (metis surj_pair)
  define w3 where "w3 = w\<lparr>ob_net := n3, ob_sent := ob_sent w @ [req],
      ob_waits := ob_waits w @ [http_delay (hn_overflow net) (HTTPUpstream_Retry (hc_cfg c)) k]\<rparr>"
  have wait: "wait_backoff net (HTTPUpstream_Retry (hc_cfg c)) k w2 = (b, w3)"
  proof -
    have "w2\<lparr>ob_net := n3, ob_waits := ob_waits w2 @ [http_delay (hn_overflow net) (HTTPUpstream_Retry (hc_cfg c)) k]\<rparr> = w3"
      by (simp add: w3_def w2_def discard_answer_def split: option.splits)
    then show ?thesis unfolding wait_backoff_def timer_wait_def b prod.case by simp
  qed
  have eq: "http_attempt net c method target body headers m k w =
     (if err = None \<and> good then (Some (Inr resp), w\<lparr>ob_net := n, ob_sent := ob_sent w @ [req]\<rparr>)
      else if err \<noteq> None \<and> k = m
      then (Some (Inl (Failed (ErrWrap ''call outbound HTTP service'' (the err)))), w\<lparr>ob_net := n, ob_sent := ob_sent w @ [req]\<rparr>)
      else if k < m then (case b of Some stop \<Rightarrow> (Some (Inl (Failed stop)), w3) | None \<Rightarrow> (None, w3))
      else (None, w2))"
    by (simp add: http_attempt_def Inr s good_def w2_def [symmetric] Let_def wait split: option.splits)
  consider "err = None \<and> good" | "err \<noteq> None \<and> k = m" | "\<not> (err = None \<and> good)" "k < m" | "\<not> (err = None \<and> good)" "m < k"
    | "err = None" "\<not> good" "k = m" by fastforce
  then show thesis
  proof cases
    case 1
    with eq assms d Inr show thesis by (intro answered [of req resp n]) (auto simp: good_def split: option.splits)
  next
    case 2
    with eq assms d Inr show thesis by (intro failed [of req resp "the err" n]) auto
  next
    case 3
    show thesis
    proof (cases b)
      case None
      with 3 eq assms Inr show thesis by (intro again [of req n3]) (auto simp: w3_def)
    next
      case (Some stop)
      with 3 eq assms Inr b show thesis by (intro stopped [of req "ob_net w2" stop n3]) (auto simp: w3_def)
    qed
  next
    case 4
    with eq assms Inr w2 show thesis by (intro beyond [of req "ob_net w2"]) auto
  next
    case 5
    then show thesis by (simp add: good_def split: option.splits)
  qed
qed

lemma concat_replicate_single: "concat (replicate n [x]) = replicate n x"
  by (induction n) auto

interpretation http: retry_loop "http_attempts net c verb target body headers m"
    "http_attempt net c verb target body headers m" m "attempt_sends net c verb target body headers"
    "http_delay (hn_overflow net) (HTTPUpstream_Retry (hc_cfg c))"
  for net :: "'w http_net" and c verb target body headers m
proof
  fix k w oc w1 r
  show "k \<le> m \<Longrightarrow> http_attempt net c verb target body headers m k w = (Some r, w1) \<Longrightarrow>
      http_attempts net c verb target body headers m k w = (r, w1)"
    by (subst http_attempts.simps) simp
  show "k \<le> m \<Longrightarrow> http_attempt net c verb target body headers m k w = (None, w1) \<Longrightarrow>
      http_attempts net c verb target body headers m k w = http_attempts net c verb target body headers m (k + 1) w1"
    by (subst http_attempts.simps) simp
  show "http_attempt net c verb target body headers m m w = (oc, w1) \<Longrightarrow> oc \<noteq> None"
    by (erule http_attempt_cases) auto
  show "http_attempt net c verb target body headers m k w = (oc, w1) \<Longrightarrow>
      ob_sent w1 = ob_sent w @ attempt_sends net c verb target body headers"
    by (erule http_attempt_cases) (auto simp: attempt_sends_def)
  show "k \<le> m \<Longrightarrow> http_attempt net c verb target body headers m k w = (None, w1) \<Longrightarrow>
      ob_waits w1 = ob_waits w @ [http_delay (hn_overflow net) (HTTPUpstream_Retry (hc_cfg c)) k]"
    by (erule http_attempt_cases) auto
  show "k \<le> m \<Longrightarrow> http_attempt net c verb target body headers m k w = (Some r, w1) \<Longrightarrow>
      ob_waits w1 = ob_waits w \<or> k < m \<and>
      ob_waits w1 = ob_waits w @ [http_delay (hn_overflow net) (HTTPUpstream_Retry (hc_cfg c)) k]"
    by (erule http_attempt_cases) auto
qed

section \<open>Delays\<close>

lemma http_delay_le: "http_delay overflow retry k \<le> Retry_MaxBackoff retry"
  by (simp add: http_delay_def Let_def)

lemma float_of_exact: "\<bar>x\<bar> \<le> 2 ^ 53 \<Longrightarrow> float_of x = x"
  by (simp add: float_of_def)

text \<open>Up to 104 days the delays double exactly and end at the longest one.\<close>

lemma http_delay_exact:
  assumes "0 < Retry_InitialBackoff retry" "Retry_InitialBackoff retry \<le> 2 ^ 53" "1 \<le> k" "k \<le> 5"
  shows "http_delay overflow retry k = min (Retry_InitialBackoff retry * 2 ^ nat (k - 1)) (Retry_MaxBackoff retry)"
proof -
  have f: "float_of (Retry_InitialBackoff retry) = Retry_InitialBackoff retry" using assms by (simp add: float_of_exact)
  have "(2::int) ^ nat (k - 1) \<le> 2 ^ 4" using assms by (intro power_increasing) auto
  then have "Retry_InitialBackoff retry * 2 ^ nat (k - 1) \<le> 2 ^ 53 * 2 ^ 4"
    using assms by (intro mult_mono) auto
  moreover have "0 \<le> Retry_InitialBackoff retry * 2 ^ nat (k - 1)" using assms by simp
  ultimately show ?thesis by (simp add: http_delay_def Let_def f min_def)
qed

section \<open>A call\<close>

text \<open>What a call came to, over the requests it sent and what the network answered.\<close>

definition gobreaker_errors :: "http_failure set" where
  "gobreaker_errors = {Failed (ErrVar ''circuit breaker is open''), Failed (ErrVar ''too many requests'')}"

definition explained :: "'w http_net \<Rightarrow> out_request \<Rightarrow> nat \<Rightarrow> int \<Rightarrow> http_result \<Rightarrow> bool" where
  "explained net req n m r = (case r of
      Inr resp \<Rightarrow> n \<ge> 1 \<and> (\<exists>s. fst (hn_Do net req s) = (resp, None)) \<and>
        (int n < m \<longrightarrow> (case resp of None \<Rightarrow> True | Some a \<Rightarrow> \<not> retryable_http_status (os_StatusCode a)))
    | Inl (StatusError a) \<Rightarrow> False
    | Inl (Failed e) \<Rightarrow> n = 0
        \<or> int n = m \<and> (\<exists>s resp err. fst (hn_Do net req s) = (resp, Some err) \<and> e = ErrWrap ''call outbound HTTP service'' err)
        \<or> int n < m \<and> (\<exists>s d. fst (hn_wait net d s) = Some e))"

lemma http_attempts_explained:
  assumes "1 \<le> m" "http_attempts net c method target body headers m 1 w = (r, w1)"
  shows "\<exists>n j req. int n \<le> m \<and> int j < m \<and> (j = n \<or> Suc j = n \<or> n = 0) \<and>
     ob_sent w1 = ob_sent w @ replicate n req \<and>
     ob_waits w1 = ob_waits w @ map (\<lambda>i. http_delay (hn_overflow net) (HTTPUpstream_Retry (hc_cfg c)) (1 + int i)) [0..<j] \<and>
     explained net req n m r \<and> (n > 0 \<longrightarrow> build_request net c method target body headers = Inr req)"
proof -
  from http.attempts_from [OF assms] obtain n j w0 where h: "n \<ge> 1" "1 + int n - 1 \<le> m" "1 + int j - 1 < m"
    "ob_sent w1 = ob_sent w @ concat (replicate n (attempt_sends net c method target body headers))"
    "ob_waits w1 = ob_waits w @ map (\<lambda>i. http_delay (hn_overflow net) (HTTPUpstream_Retry (hc_cfg c)) (1 + int i)) [0..<j]"
    "http_attempt net c method target body headers m (1 + int n - 1) w0 = (Some r, w1)" "j = n \<or> Suc j = n"
    by blast
  from h(6) show ?thesis
  proof (cases rule: http_attempt_cases)
    case (unbuilt err)
    then have "ob_sent w1 = ob_sent w @ replicate 0 undefined" "explained net undefined 0 m r"
      using h(4) by (simp_all add: attempt_sends_def explained_def)
    then show ?thesis using h assms(1) by (intro exI [of _ 0] exI [of _ j] exI [of _ undefined]) auto
  next
    case (answered req resp n')
    then have "ob_sent w1 = ob_sent w @ replicate n req" using h(4)
      by (simp add: attempt_sends_def concat_replicate_single)
    moreover have "explained net req n m r" using answered h by (auto simp: explained_def)
    ultimately show ?thesis using h answered by (intro exI [of _ n] exI [of _ j] exI [of _ req]) auto
  next
    case (failed req resp err n')
    then have "ob_sent w1 = ob_sent w @ replicate n req" using h(4)
      by (simp add: attempt_sends_def concat_replicate_single)
    moreover have "explained net req n m r" using failed h by (auto simp: explained_def)
    ultimately show ?thesis using h failed by (intro exI [of _ n] exI [of _ j] exI [of _ req]) auto
  next
    case (stopped req n0 stop n')
    then have "ob_sent w1 = ob_sent w @ replicate n req" using h(4)
      by (simp add: attempt_sends_def concat_replicate_single)
    moreover have "explained net req n m r" using stopped h by (auto simp: explained_def)
    ultimately show ?thesis using h stopped by (intro exI [of _ n] exI [of _ j] exI [of _ req]) auto
  qed auto
qed

lemma do_with_retry_explained:
  assumes "1 \<le> http_max_attempts c ctx method" "do_with_retry net c ctx method path body headers w = (r, w1)"
  shows "\<exists>n j req. int n \<le> http_max_attempts c ctx method \<and> int j < http_max_attempts c ctx method \<and>
     ob_sent w1 = ob_sent w @ replicate n req \<and>
     ob_waits w1 = ob_waits w @ map (\<lambda>i. http_delay (hn_overflow net) (HTTPUpstream_Retry (hc_cfg c)) (1 + int i)) [0..<j] \<and>
     explained net req n (http_max_attempts c ctx method) r"
proof (cases "http_target net c path")
  case (Inl err)
  with assms show ?thesis
    by (intro exI [of _ 0] exI [of _ undefined]) (auto simp: do_with_retry_def explained_def)
next
  case (Inr target)
  with assms(2) have "http_attempts net c method target body headers (http_max_attempts c ctx method) 1 w = (r, w1)"
    by (simp add: do_with_retry_def)
  from http_attempts_explained [OF assms(1) this] show ?thesis by blast
qed

lemma unwrap_fail: "(\<And>a. r \<noteq> Inl (StatusError a)) \<Longrightarrow> unwrap_status (fail_retryable r) = r"
  by (auto simp: unwrap_status_def fail_retryable_def split: sum.splits option.splits http_failure.splits)

lemma validated_attempts:
  assumes "validate_client_policy name auth retry breaker tls production = None"
  shows "1 \<le> Retry_MaxAttempts retry" "Retry_MaxAttempts retry \<le> 5" "0 < Retry_InitialBackoff retry"
    "Retry_InitialBackoff retry \<le> Retry_MaxBackoff retry"
  using assms by (auto simp: validate_client_policy_def client_policy_checks_def split: if_splits)

lemma new_http_client_Inr:
  assumes "new_http_client net fs name u metrics = Inr c"
  shows "hc_cfg c = u" "hc_name c = name" "hc_metrics c = metrics"
    "ClientAuth_Type (HTTPUpstream_Auth u) \<noteq> [] \<Longrightarrow> ClientTLS_Enabled (HTTPUpstream_TLS u)"
  using assms by (auto simp: new_http_client_def split: if_splits sum.splits)

text \<open>Behind a breaker or not, an execution sends and waits as its attempts do.\<close>

lemma http_execute_explained:
  assumes "1 \<le> http_max_attempts c ctx method" "breaker_law gobreaker_errors exec"
    and "http_execute exec net c ctx method path body headers w = (r, w1)"
  shows "\<exists>n j req. int n \<le> http_max_attempts c ctx method \<and> int j < http_max_attempts c ctx method \<and>
     ob_sent w1 = ob_sent w @ replicate n req \<and>
     ob_waits w1 = ob_waits w @ map (\<lambda>i. http_delay (hn_overflow net) (HTTPUpstream_Retry (hc_cfg c)) (1 + int i)) [0..<j] \<and>
     explained net req n (http_max_attempts c ctx method) r"
proof (cases "hc_breaker c")
  case None
  with assms(3) do_with_retry_explained [OF assms(1)] show ?thesis by (simp add: http_execute_def)
next
  case (Some settings)
  with assms(3) obtain r0 where e: "exec settings (\<lambda>w. case do_with_retry net c ctx method path body headers w of
       (r, w1) \<Rightarrow> (fail_retryable r, w1)) w = (r0, w1)" and r: "r = unwrap_status r0"
    by (auto simp: http_execute_def split: prod.splits)
  from assms(2) e show ?thesis
  proof (cases rule: breaker_law_cases)
    case (refused x s)
    then show ?thesis using assms(1) r
      by (intro exI [of _ 0] exI [of _ undefined]) (auto simp: explained_def gobreaker_errors_def unwrap_status_def)
  next
    case (ran s s' w3)
    then obtain r1 where d: "do_with_retry net c ctx method path body headers (w\<lparr>ob_net := s\<rparr>) = (r1, w3)"
      and r0: "r0 = fail_retryable r1" by (auto split: prod.splits)
    from do_with_retry_explained [OF assms(1) d] obtain n j req where h: "int n \<le> http_max_attempts c ctx method"
      "int j < http_max_attempts c ctx method" "ob_sent w3 = ob_sent w @ replicate n req"
      "ob_waits w3 = ob_waits w @ map (\<lambda>i. http_delay (hn_overflow net) (HTTPUpstream_Retry (hc_cfg c)) (1 + int i)) [0..<j]"
      "explained net req n (http_max_attempts c ctx method) r1" by auto
    from h(5) have eq: "r = r1" unfolding r r0 by (intro unwrap_fail) (auto simp: explained_def)
    show ?thesis by (intro exI [of _ n] exI [of _ j] exI [of _ req]) (simp add: h eq ran(2))
  qed
qed

text \<open>
  C36. A call to an HTTP service ends, whatever the service, the network and the breaker do: it sends one
  and the same request at most as often as the retry policy allows, at most five times and only once for
  a method that is not idempotent when the call carries no key, waits the doubling delays in between,
  and comes to the last answer it got, which is worth no further attempt or was the last one allowed, or
  to the failure of the last attempt or of the context.
\<close>

theorem http_calls_end:
  assumes "validate_client_policy name (HTTPUpstream_Auth u) (HTTPUpstream_Retry u) (HTTPUpstream_Breaker u)
      (HTTPUpstream_TLS u) production = None"
    and "new_http_client net fs name u metrics = Inr c" and "breaker_law gobreaker_errors exec"
    and "http_do exec net c ctx method path body headers w = (r, w1)"
  shows "\<exists>m n j req. m = (if retryable_method ctx method then Retry_MaxAttempts (HTTPUpstream_Retry u) else 1) \<and>
     m \<le> 5 \<and> int n \<le> m \<and> int j < m \<and> ob_sent w1 = ob_sent w @ replicate n req \<and>
     ob_waits w1 = ob_waits w @ map (\<lambda>i. http_delay (hn_overflow net) (HTTPUpstream_Retry u) (1 + int i)) [0..<j] \<and>
     explained net req n m r"
proof -
  note valid = validated_attempts [OF assms(1)] and cfg = new_http_client_Inr [OF assms(2)]
  define m where "m = (if retryable_method ctx method then Retry_MaxAttempts (HTTPUpstream_Retry u) else 1)"
  have m: "http_max_attempts c ctx method = m" "1 \<le> m" "m \<le> 5" using valid by (auto simp: m_def http_max_attempts_def cfg)
  obtain w2 where ex: "http_execute exec net c ctx method path body headers w = (r, w2)"
    and w1: "ob_sent w1 = ob_sent w2" "ob_waits w1 = ob_waits w2"
    using assms(4) by (auto simp: http_do_def split: prod.splits)
  from http_execute_explained [OF _ assms(3) ex, unfolded m(1) cfg, OF m(2)]
  obtain n j req where "int n \<le> m" "int j < m" "ob_sent w2 = ob_sent w @ replicate n req"
     "ob_waits w2 = ob_waits w @ map (\<lambda>i. http_delay (hn_overflow net) (HTTPUpstream_Retry u) (1 + int i)) [0..<j]"
     "explained net req n m r" by blast
  with m_def m(3) w1 show ?thesis
    by (intro exI [of _ m] exI [of _ n] exI [of _ j] exI [of _ req] conjI) (simp_all only:)
qed

text \<open>A service that is unavailable twice, then answers.\<close>

definition ex_net :: "int list http_net" where
  "ex_net = \<lparr>hn_Parse = (\<lambda>s. if has_prefix s ''/'' then Inr \<lparr>u_Scheme = [], u_Host = [], u_rest = s\<rparr>
        else Inr \<lparr>u_Scheme = ''https'', u_Host = s, u_rest = []\<rparr>),
     hn_Resolve = (\<lambda>b r. u_Host b @ u_rest r), hn_NewRequest = (\<lambda>m t. None),
     hn_Do = (\<lambda>r s. case s of [] \<Rightarrow> ((None, Some (ErrText ''eof'')), []) | x # xs \<Rightarrow> ((Some \<lparr>os_StatusCode = x, os_Body = []\<rparr>, None), xs)),
     hn_discard = (\<lambda>a s. s), hn_wait = (\<lambda>d s. (None, s)), hn_overflow = (\<lambda>x. - (2 ^ 63))\<rparr>"

definition ex_upstream :: cHTTPUpstream where
  "ex_upstream = \<lparr>HTTPUpstream_BaseURL = ''svc'', HTTPUpstream_Timeout = second,
     HTTPUpstream_Auth = \<lparr>ClientAuth_Type = ''psk'', ClientAuth_Token = ''k''\<rparr>,
     HTTPUpstream_Retry = \<lparr>Retry_MaxAttempts = 3, Retry_InitialBackoff = 10, Retry_MaxBackoff = 15, Retry_Methods = []\<rparr>,
     HTTPUpstream_Breaker = \<lparr>Breaker_Enabled = True, Breaker_FailureThreshold = 5, Breaker_OpenTimeout = second\<rparr>,
     HTTPUpstream_TLS = \<lparr>ClientTLS_Enabled = True, ClientTLS_AllowInsecure = False, ClientTLS_ServerName = [],
       ClientTLS_CAFile = [], ClientTLS_CertFile = [], ClientTLS_KeyFile = []\<rparr>\<rparr>"

definition ex_files :: tls_files where
  "ex_files = \<lparr>tf_ReadFile = (\<lambda>f. Inl ErrNotExist), tf_AppendCerts = (\<lambda>p. True), tf_LoadKeyPair = (\<lambda>c k. Inl ErrNotExist)\<rparr>"

definition closed_breaker :: "('x, 'a, 's) execute" where
  "closed_breaker settings f w = f w"

lemma closed_breaker_law: "breaker_law refusals closed_breaker"
proof -
  have "closed_breaker s f w = (fst (f (w\<lparr>ob_net := ob_net w\<rparr>)),
      (snd (f (w\<lparr>ob_net := ob_net w\<rparr>)))\<lparr>ob_net := ob_net (snd (f w))\<rparr>)" for s f and w :: "('w, 'e) outbound"
    by (simp add: closed_breaker_def)
  then show ?thesis unfolding breaker_law_def by blast
qed

definition ex_http_client :: http_client where
  "ex_http_client = (case new_http_client ex_net ex_files ''svc'' ex_upstream (Some True) of Inr c \<Rightarrow> c)"

definition ex_outbound :: "int list http_world" where
  "ex_outbound = \<lparr>ob_net = [503, 429, 200], ob_sent = [], ob_waits = [], ob_counted = []\<rparr>"

definition ex_context :: client_context where
  "ex_context = \<lparr>cx_Deadline = None, cx_request_id = [], cx_idempotency = None, cx_outgoing = []\<rparr>"

definition ex_get :: "http_result \<times> int list http_world" where
  "ex_get = http_do closed_breaker ex_net ex_http_client ex_context ''GET'' ''/x'' [] None ex_outbound"

lemma ex_get_eq:
  "fst ex_get = Inr (Some \<lparr>os_StatusCode = 200, os_Body = []\<rparr>)" "length (ob_sent (snd ex_get)) = 3"
  "ob_waits (snd ex_get) = [10, 15]" "ob_counted (snd ex_get) = [(''http'', ''svc'', ''200'')]"
  by code_simp+

lemma http_calls_end_witness:
  "\<exists>n req. ob_sent (snd ex_get) = replicate n req \<and> n = 3 \<and> explained ex_net req n 3 (fst ex_get)"
proof -
  have v: "validate_client_policy ''svc'' (HTTPUpstream_Auth ex_upstream) (HTTPUpstream_Retry ex_upstream)
      (HTTPUpstream_Breaker ex_upstream) (HTTPUpstream_TLS ex_upstream) True = None" by code_simp
  have c: "new_http_client ex_net ex_files ''svc'' ex_upstream (Some True) = Inr ex_http_client"
    by (simp add: ex_http_client_def new_http_client_def ex_net_def ex_upstream_def http_transport_def has_prefix_def)
  have run: "http_do closed_breaker ex_net ex_http_client ex_context ''GET'' ''/x'' [] None ex_outbound = (fst ex_get, snd ex_get)"
    by (simp add: ex_get_def)
  have m: "(if retryable_method ex_context ''GET'' then Retry_MaxAttempts (HTTPUpstream_Retry ex_upstream) else 1) = 3"
    by (simp add: retryable_method_def ex_upstream_def)
  from http_calls_end [OF v c closed_breaker_law run, unfolded m] obtain n req where
    h: "ob_sent (snd ex_get) = replicate n req" "explained ex_net req n 3 (fst ex_get)"
    by (auto simp: ex_outbound_def)
  from h(1) have "n = 3" using ex_get_eq(2) by simp
  with h show ?thesis by blast
qed

end
