(* ===== verification/Outbound_Grpc_Facts.thy ===== *)
theory Outbound_Grpc_Facts
  imports Outbound_Grpc Outbound_Http_Facts
begin

text \<open>
  The retry loop of the gRPC client as an instance of the contract of \<open>Outbound_Base\<close>, what goes out
  with a call, and the property that a call ends within its retry policy.
\<close>

section \<open>One attempt\<close>

text \<open>The body of the loop: a result, or \<open>None\<close> to go on.\<close>

definition grpc_attempt :: "('w, 'q, 'r) grpc_net \<Rightarrow> cRetry \<Rightarrow> client_context \<Rightarrow> string \<Rightarrow> 'q \<Rightarrow> int
    \<Rightarrow> ('w, 'q) grpc_world \<Rightarrow> (call_error + 'r option) option \<times> ('w, 'q) grpc_world" where
  "grpc_attempt net cfg ctx method req attempt w = (case grpc_invoke net ctx method req w of (r, w1) \<Rightarrow>
     if \<not> retryable_code (call_code r) \<or> attempt \<ge> Retry_MaxAttempts cfg then (Some r, w1)
     else (case wait_retry net cfg attempt w1 of
         (Some stop, w2) \<Rightarrow> (Some (Inl (OtherErr stop)), w2)
       | (None, w2) \<Rightarrow> (None, w2)))"

lemma grpc_attempts_beyond: "Retry_MaxAttempts cfg < k \<Longrightarrow> grpc_attempts net cfg f r k w = (r, w)"
  by (subst grpc_attempts.simps) simp

lemma grpc_attempts_step:
  assumes "k \<le> Retry_MaxAttempts cfg"
  shows "grpc_attempts net cfg (grpc_invoke net ctx method req) r k w =
    (case grpc_attempt net cfg ctx method req k w of
       (Some r1, w1) \<Rightarrow> (r1, w1)
     | (None, w1) \<Rightarrow> grpc_attempts net cfg (grpc_invoke net ctx method req) (Inr None) (k + 1) w1)"
proof -
  have any: "k + 1 \<le> Retry_MaxAttempts cfg \<Longrightarrow> grpc_attempts net cfg f r (k + 1) w =
      grpc_attempts net cfg f r' (k + 1) w" for f r r' w
    by (subst (1 2) grpc_attempts.simps) simp
  show ?thesis
  proof (cases "k = Retry_MaxAttempts cfg")
    case True
    then show ?thesis
      by (subst grpc_attempts.simps) (auto simp: grpc_attempt_def grpc_attempts_beyond split: prod.splits)
  next
    case False
    with assms have k: "k < Retry_MaxAttempts cfg" "k + 1 \<le> Retry_MaxAttempts cfg" by auto
    obtain r1 w1 where i: "grpc_invoke net ctx method req w = (r1, w1)" by (cases "grpc_invoke net ctx method req w")
    obtain b w2 where b: "wait_retry net cfg k w1 = (b, w2)" by (cases "wait_retry net cfg k w1")
    show ?thesis using k any [OF k(2), of _ r1 _ "Inr None"]
      by (subst grpc_attempts.simps) (auto simp: grpc_attempt_def i b split: option.splits)
  qed
qed

lemma grpc_attempt_cases:
  assumes "grpc_attempt net cfg ctx method req k w = (oc, w1)"
  obtains (finished) r n where "gn_Invoke net ctx method req (ob_net w) = (r, n)" "oc = Some (map_sum id Some r)"
      "\<not> retryable_code (call_code (map_sum id Some r)) \<or> k \<ge> Retry_MaxAttempts cfg"
      "w1 = w\<lparr>ob_net := n, ob_sent := ob_sent w @ [(ctx, method, req)]\<rparr>"
  | (stopped) n0 stop n where "k < Retry_MaxAttempts cfg" "fst (gn_wait net (grpc_delay cfg k) n0) = Some stop"
      "oc = Some (Inl (OtherErr stop))"
      "w1 = w\<lparr>ob_net := n, ob_sent := ob_sent w @ [(ctx, method, req)], ob_waits := ob_waits w @ [grpc_delay cfg k]\<rparr>"
  | (again) n where "k < Retry_MaxAttempts cfg" "oc = None"
      "w1 = w\<lparr>ob_net := n, ob_sent := ob_sent w @ [(ctx, method, req)], ob_waits := ob_waits w @ [grpc_delay cfg k]\<rparr>"
proof -
  obtain r n where i: "gn_Invoke net ctx method req (ob_net w) = (r, n)" by (cases "gn_Invoke net ctx method req (ob_net w)")
  obtain b n2 where b: "gn_wait net (grpc_delay cfg k) n = (b, n2)" by (cases "gn_wait net (grpc_delay cfg k) n")
  show thesis
  proof (cases "\<not> retryable_code (call_code (map_sum id Some r)) \<or> k \<ge> Retry_MaxAttempts cfg")
    case True
    with assms i show thesis by (intro finished [of r n]) (auto simp: grpc_attempt_def grpc_invoke_def)
  next
    case False
    show thesis
    proof (cases b)
      case None
      with False assms i b show thesis
        by (intro again [of n2]) (auto simp: grpc_attempt_def grpc_invoke_def wait_retry_def timer_wait_def)
    next
      case (Some stop)
      with False assms i b show thesis
        by (intro stopped [of n stop n2]) (auto simp: grpc_attempt_def grpc_invoke_def wait_retry_def timer_wait_def)
    qed
  qed
qed

interpretation grpc: retry_loop "grpc_attempts net cfg (grpc_invoke net ctx verb req) (Inr None)"
    "grpc_attempt net cfg ctx verb req" "Retry_MaxAttempts cfg" "[(ctx, verb, req)]" "grpc_delay cfg"
  for net :: "('w, 'q, 'r) grpc_net" and cfg ctx verb req
proof
  fix k w oc w1 r
  show "k \<le> Retry_MaxAttempts cfg \<Longrightarrow> grpc_attempt net cfg ctx verb req k w = (Some r, w1) \<Longrightarrow>
      grpc_attempts net cfg (grpc_invoke net ctx verb req) (Inr None) k w = (r, w1)"
    by (simp add: grpc_attempts_step)
  show "k \<le> Retry_MaxAttempts cfg \<Longrightarrow> grpc_attempt net cfg ctx verb req k w = (None, w1) \<Longrightarrow>
      grpc_attempts net cfg (grpc_invoke net ctx verb req) (Inr None) k w =
      grpc_attempts net cfg (grpc_invoke net ctx verb req) (Inr None) (k + 1) w1"
    by (simp add: grpc_attempts_step)
  show "grpc_attempt net cfg ctx verb req (Retry_MaxAttempts cfg) w = (oc, w1) \<Longrightarrow> oc \<noteq> None"
    by (erule grpc_attempt_cases) auto
  show "grpc_attempt net cfg ctx verb req k w = (oc, w1) \<Longrightarrow> ob_sent w1 = ob_sent w @ [(ctx, verb, req)]"
    by (erule grpc_attempt_cases) auto
  show "k \<le> Retry_MaxAttempts cfg \<Longrightarrow> grpc_attempt net cfg ctx verb req k w = (None, w1) \<Longrightarrow>
      ob_waits w1 = ob_waits w @ [grpc_delay cfg k]"
    by (erule grpc_attempt_cases) auto
  show "k \<le> Retry_MaxAttempts cfg \<Longrightarrow> grpc_attempt net cfg ctx verb req k w = (Some r, w1) \<Longrightarrow>
      ob_waits w1 = ob_waits w \<or> k < Retry_MaxAttempts cfg \<and> ob_waits w1 = ob_waits w @ [grpc_delay cfg k]"
    by (erule grpc_attempt_cases) auto
qed

section \<open>A call\<close>

text \<open>What a call came to, over the number of its requests.\<close>

definition grpc_explained :: "('w, 'q, 'r) grpc_net \<Rightarrow> client_context \<Rightarrow> string \<Rightarrow> 'q \<Rightarrow> nat \<Rightarrow> int \<Rightarrow> call_error set
    \<Rightarrow> call_error + 'r option \<Rightarrow> bool" where
  "grpc_explained net ctx method req n m refusals r \<longleftrightarrow>
     n = 0 \<and> (\<exists>e \<in> refusals. r = Inl e)
     \<or> n \<ge> 1 \<and> (\<exists>s. r = map_sum id Some (fst (gn_Invoke net ctx method req s))) \<and>
         (int n < m \<longrightarrow> \<not> retryable_code (call_code r))
     \<or> n \<ge> 1 \<and> int n < m \<and> (\<exists>s d e. fst (gn_wait net d s) = Some e \<and> r = Inl (OtherErr e))"

lemma grpc_attempts_explained:
  assumes "1 \<le> Retry_MaxAttempts cfg"
    and "grpc_attempts net cfg (grpc_invoke net ctx method req) (Inr None) 1 w = (r, w1)"
  shows "\<exists>n j. int n \<le> Retry_MaxAttempts cfg \<and> int j < Retry_MaxAttempts cfg \<and>
     ob_sent w1 = ob_sent w @ replicate n (ctx, method, req) \<and>
     ob_waits w1 = ob_waits w @ map (\<lambda>i. grpc_delay cfg (1 + int i)) [0..<j] \<and>
     grpc_explained net ctx method req n (Retry_MaxAttempts cfg) refusals r"
proof -
  from grpc.attempts_from [OF assms] obtain n j w0 where h: "n \<ge> 1" "1 + int n - 1 \<le> Retry_MaxAttempts cfg"
    "1 + int j - 1 < Retry_MaxAttempts cfg"
    "ob_sent w1 = ob_sent w @ concat (replicate n [(ctx, method, req)])"
    "ob_waits w1 = ob_waits w @ map (\<lambda>i. grpc_delay cfg (1 + int i)) [0..<j]"
    "grpc_attempt net cfg ctx method req (1 + int n - 1) w0 = (Some r, w1)" by blast
  from h(6) have "grpc_explained net ctx method req n (Retry_MaxAttempts cfg) refusals r"
  proof (cases rule: grpc_attempt_cases)
    case (finished a s)
    then have "r = map_sum id Some (fst (gn_Invoke net ctx method req (ob_net w0)))" by simp
    moreover have "int n < Retry_MaxAttempts cfg \<longrightarrow> \<not> retryable_code (call_code r)" using finished by auto
    ultimately show ?thesis using h(1) unfolding grpc_explained_def by blast
  next
    case (stopped n0 stop s)
    with h(1) show ?thesis by (auto simp: grpc_explained_def)
  qed auto
  with h show ?thesis
    by (intro exI [of _ n] exI [of _ j]) (auto simp: concat_replicate_single)
qed

text \<open>The context a call reaches the network with.\<close>

definition outgoing_context :: "('w, 'q, 'r) grpc_net \<Rightarrow> grpc_client_config \<Rightarrow> client_context \<Rightarrow> 'w \<Rightarrow> client_context" where
  "outgoing_context net cfg ctx s = ctx\<lparr>
     cx_Deadline := (case cx_Deadline ctx of Some d \<Rightarrow> Some d | None \<Rightarrow> Some (gn_now net s + gk_Timeout cfg)),
     cx_outgoing := cx_outgoing ctx @ metadata_pairs (gk_Token cfg) (gk_PSK cfg) ctx\<rparr>"

definition grpc_max_attempts :: "grpc_client_config \<Rightarrow> client_context \<Rightarrow> string \<Rightarrow> int" where
  "grpc_max_attempts cfg ctx method =
     (if Retry_MaxAttempts (gk_Retry cfg) > 1 \<and> retry_grpc_method ctx method (Retry_Methods (gk_Retry cfg))
      then Retry_MaxAttempts (gk_Retry cfg) else 1)"

text \<open>The innermost interceptor, and the breaker around it.\<close>

definition grpc_inner :: "('w, 'q, 'r) grpc_net \<Rightarrow> grpc_client_config \<Rightarrow> ('w, 'q, 'r) invoker" where
  "grpc_inner net cfg = (if Retry_MaxAttempts (gk_Retry cfg) > 1 then retry_interceptor net (gk_Retry cfg) (grpc_invoke net)
     else grpc_invoke net)"

definition grpc_guarded :: "('w, 'q, 'r) grpc_execute \<Rightarrow> ('w, 'q, 'r) grpc_net \<Rightarrow> grpc_client_config \<Rightarrow> ('w, 'q, 'r) invoker" where
  "grpc_guarded exec net cfg = (if Breaker_Enabled (gk_Breaker cfg)
     then breaker_interceptor exec (gk_Name cfg) (gk_Breaker cfg) (grpc_inner net cfg) else grpc_inner net cfg)"

lemma metadata_interceptor_eq:
  "metadata_interceptor token psk f ctx method req w =
     f (ctx\<lparr>cx_outgoing := cx_outgoing ctx @ metadata_pairs token psk ctx\<rparr>) method req w"
  by (simp add: metadata_interceptor_def Let_def)

lemma timeout_interceptor_eq:
  "timeout_interceptor net t f ctx method req w =
     f (ctx\<lparr>cx_Deadline := (case cx_Deadline ctx of Some d \<Rightarrow> Some d | None \<Rightarrow> Some (gn_now net (ob_net w) + t))\<rparr>) method req w"
proof (cases "cx_Deadline ctx")
  case (Some d)
  then have eq: "ctx\<lparr>cx_Deadline := Some d\<rparr> = ctx" by (cases ctx) simp
  show ?thesis unfolding Some option.case eq by (simp add: timeout_interceptor_def Some)
qed (simp add: timeout_interceptor_def)

lemma metadata_pairs_deadline [simp]: "metadata_pairs token psk (ctx\<lparr>cx_Deadline := d\<rparr>) = metadata_pairs token psk ctx"
  by (simp add: metadata_pairs_def)

lemma retry_grpc_method_outgoing [simp]:
  "retry_grpc_method (outgoing_context net cfg ctx s) method patterns = retry_grpc_method ctx method patterns"
  by (simp add: retry_grpc_method_def outgoing_context_def)

lemma grpc_call_eq:
  "grpc_call exec net conn ctx method req w = (let cfg = gx_config conn in
     (case gk_Metrics cfg of Some enabled \<Rightarrow> client_metrics_interceptor (gk_Name cfg) enabled (grpc_guarded exec net cfg)
      | None \<Rightarrow> grpc_guarded exec net cfg) (outgoing_context net cfg ctx (ob_net w)) method req w)"
  by (auto simp: grpc_call_def grpc_interceptors_def timeout_interceptor_eq metadata_interceptor_eq outgoing_context_def
      Let_def grpc_guarded_def grpc_inner_def split: option.splits)

lemma grpc_inner_explained:
  assumes "ctx' = outgoing_context net cfg ctx s" "grpc_inner net cfg ctx' method req w = (r, w1)"
  shows "\<exists>n j. int n \<le> grpc_max_attempts cfg ctx method \<and> int j < grpc_max_attempts cfg ctx method \<and>
     ob_sent w1 = ob_sent w @ replicate n (ctx', method, req) \<and>
     ob_waits w1 = ob_waits w @ map (\<lambda>i. grpc_delay (gk_Retry cfg) (1 + int i)) [0..<j] \<and>
     grpc_explained net ctx' method req n (grpc_max_attempts cfg ctx method) refusals r"
proof (cases "Retry_MaxAttempts (gk_Retry cfg) > 1 \<and> retry_grpc_method ctx method (Retry_Methods (gk_Retry cfg))")
  case True
  then have m: "grpc_max_attempts cfg ctx method = Retry_MaxAttempts (gk_Retry cfg)" "1 \<le> Retry_MaxAttempts (gk_Retry cfg)"
    by (auto simp: grpc_max_attempts_def)
  from True assms have "grpc_attempts net (gk_Retry cfg) (grpc_invoke net ctx' method req) (Inr None) 1 w = (r, w1)"
    by (simp add: grpc_inner_def retry_interceptor_def)
  from grpc_attempts_explained [OF m(2) this] show ?thesis unfolding m(1) .
next
  case False
  then have m: "grpc_max_attempts cfg ctx method = 1" by (auto simp: grpc_max_attempts_def)
  have i: "grpc_invoke net ctx' method req w = (r, w1)" using False assms
    by (auto simp: grpc_inner_def retry_interceptor_def split: if_splits)
  have "r = map_sum id Some (fst (gn_Invoke net ctx' method req (ob_net w)))" using i
    by (auto simp: grpc_invoke_def split: prod.splits)
  then have "grpc_explained net ctx' method req 1 1 refusals r" by (auto simp: grpc_explained_def)
  moreover have "ob_sent w1 = ob_sent w @ [(ctx', method, req)]" "ob_waits w1 = ob_waits w" using i
    by (auto simp: grpc_invoke_def split: prod.splits)
  ultimately show ?thesis unfolding m by (intro exI [of _ 1] exI [of _ 0]) simp
qed

definition grpc_refusals :: "call_error set" where
  "grpc_refusals = {OtherErr (ErrVar ''circuit breaker is open''), OtherErr (ErrVar ''too many requests'')}"

lemma grpc_guarded_explained:
  assumes "breaker_law grpc_refusals exec" "ctx' = outgoing_context net cfg ctx s"
    "grpc_guarded exec net cfg ctx' method req w = (r, w1)"
  shows "\<exists>n j. int n \<le> grpc_max_attempts cfg ctx method \<and> int j < grpc_max_attempts cfg ctx method \<and>
     ob_sent w1 = ob_sent w @ replicate n (ctx', method, req) \<and>
     ob_waits w1 = ob_waits w @ map (\<lambda>i. grpc_delay (gk_Retry cfg) (1 + int i)) [0..<j] \<and>
     grpc_explained net ctx' method req n (grpc_max_attempts cfg ctx method) grpc_refusals r"
proof (cases "Breaker_Enabled (gk_Breaker cfg)")
  case False
  with assms(3) have "grpc_inner net cfg ctx' method req w = (r, w1)" by (simp add: grpc_guarded_def)
  from grpc_inner_explained [OF assms(2) this] show ?thesis .
next
  case True
  with assms(3) have e: "exec (grpc_breaker (gk_Name cfg) (gk_Breaker cfg))
      (\<lambda>w. grpc_inner net cfg ctx' method req w) w = (r, w1)"
    by (simp add: grpc_guarded_def breaker_interceptor_def)
  from assms(1) e show ?thesis
  proof (cases rule: breaker_law_cases)
    case (refused x q)
    then show ?thesis
      by (intro exI [of _ 0] exI [of _ 0]) (auto simp: grpc_explained_def grpc_max_attempts_def)
  next
    case (ran q q' w2)
    from grpc_inner_explained [OF assms(2) ran(1), of grpc_refusals] ran(2) show ?thesis by auto
  qed
qed

text \<open>
  C37. A call to a gRPC service ends, whatever the service, the network and the breaker do: it sends one
  and the same request, with a deadline, the credential, the request id and the idempotency key, at most
  as often as the retry policy allows, at most five times, and only once for a method that is not
  configured as safe when the call carries no key; it comes to the last status it got, which is worth no
  further attempt or was the last one allowed, or to the error of the context or of the breaker.
\<close>

theorem grpc_calls_end:
  assumes "validate_client_policy name auth (gk_Retry cfg) (gk_Breaker cfg) tls production = None"
    and "dial_grpc net fs cfg = Inr conn" and "breaker_law grpc_refusals exec"
    and "grpc_call exec net conn ctx method req w = (r, w1)"
  shows "\<exists>n j. int n \<le> grpc_max_attempts cfg ctx method \<and> int j < grpc_max_attempts cfg ctx method \<and>
     grpc_max_attempts cfg ctx method \<le> 5 \<and>
     ob_sent w1 = ob_sent w @ replicate n (outgoing_context net cfg ctx (ob_net w), method, req) \<and>
     ob_waits w1 = ob_waits w @ map (\<lambda>i. grpc_delay (gk_Retry cfg) (1 + int i)) [0..<j] \<and>
     grpc_explained net (outgoing_context net cfg ctx (ob_net w)) method req n (grpc_max_attempts cfg ctx method) grpc_refusals r"
proof -
  from assms(2) have cfg: "gx_config conn = cfg" by (auto simp: dial_grpc_def split: if_splits sum.splits option.splits)
  from validated_attempts [OF assms(1)] have m: "grpc_max_attempts cfg ctx method \<le> 5"
    by (auto simp: grpc_max_attempts_def)
  obtain w2 where "grpc_guarded exec net cfg (outgoing_context net cfg ctx (ob_net w)) method req w = (r, w2)"
    and w1: "ob_sent w1 = ob_sent w2" "ob_waits w1 = ob_waits w2"
    using assms(4) by (auto simp: grpc_call_eq cfg Let_def client_metrics_interceptor_def split: option.splits prod.splits)
  from grpc_guarded_explained [OF assms(3) refl this(1)] w1 m show ?thesis by auto
qed

text \<open>A service that is unavailable twice, then answers a call of a safe method.\<close>

definition ex_grpc_net :: "(grpc_code list, unit, string) grpc_net" where
  "ex_grpc_net = \<lparr>gn_NewClient = (\<lambda>t. None),
     gn_Invoke = (\<lambda>c m q s. case s of [] \<Rightarrow> (Inr ''pong'', []) | x # xs \<Rightarrow> (Inl (StatusErr x ''down''), xs)),
     gn_now = (\<lambda>s. 100), gn_wait = (\<lambda>d s. (None, s))\<rparr>"

definition ex_grpc_config :: grpc_client_config where
  "ex_grpc_config = \<lparr>gk_Target = ''svc'', gk_Timeout = 7, gk_Token = [], gk_PSK = ''k'',
     gk_TLS = \<lparr>gt_Enabled = True, gt_ServerName = [], gt_CAFile = [], gt_CertFile = [], gt_KeyFile = [],
       gt_AllowInsecureToken = False\<rparr>, gk_Name = ''svc'',
     gk_Retry = \<lparr>Retry_MaxAttempts = 3, Retry_InitialBackoff = 10, Retry_MaxBackoff = 15, Retry_Methods = [''/s.S/*'']\<rparr>,
     gk_Breaker = \<lparr>Breaker_Enabled = True, Breaker_FailureThreshold = 5, Breaker_OpenTimeout = second\<rparr>,
     gk_Metrics = Some True\<rparr>"

definition ex_connection :: grpc_connection where
  "ex_connection = (case dial_grpc ex_grpc_net ex_files ex_grpc_config of Inr c \<Rightarrow> c)"

definition ex_grpc_world :: "(grpc_code list, unit) grpc_world" where
  "ex_grpc_world = \<lparr>ob_net = [Unavailable, ResourceExhausted], ob_sent = [], ob_waits = [], ob_counted = []\<rparr>"

definition ex_ping :: "(call_error + string option) \<times> (grpc_code list, unit) grpc_world" where
  "ex_ping = grpc_call closed_breaker ex_grpc_net ex_connection ex_context ''/s.S/Ping'' () ex_grpc_world"

lemma ex_ping_eq:
  "fst ex_ping = Inr (Some ''pong'')" "length (ob_sent (snd ex_ping)) = 3" "ob_waits (snd ex_ping) = [10, 15]"
  "ob_counted (snd ex_ping) = [(''grpc'', ''svc'', ''OK'')]"
  by code_simp+

lemma grpc_calls_end_witness:
  "\<exists>n. n = 3 \<and> ob_sent (snd ex_ping) =
     replicate n (outgoing_context ex_grpc_net ex_grpc_config ex_context (ob_net ex_grpc_world), ''/s.S/Ping'', ())"
proof -
  have v: "validate_client_policy ''svc'' \<lparr>ClientAuth_Type = ''psk'', ClientAuth_Token = ''k''\<rparr> (gk_Retry ex_grpc_config)
      (gk_Breaker ex_grpc_config) (HTTPUpstream_TLS ex_upstream) True = None" by code_simp
  have c: "dial_grpc ex_grpc_net ex_files ex_grpc_config = Inr ex_connection"
    by (simp add: ex_connection_def dial_grpc_def ex_grpc_net_def ex_grpc_config_def transport_credentials_def)
  have run: "grpc_call closed_breaker ex_grpc_net ex_connection ex_context ''/s.S/Ping'' () ex_grpc_world = (fst ex_ping, snd ex_ping)"
    by (simp add: ex_ping_def)
  from grpc_calls_end [OF v c closed_breaker_law run] obtain n where h: "ob_sent (snd ex_ping) =
      replicate n (outgoing_context ex_grpc_net ex_grpc_config ex_context (ob_net ex_grpc_world), ''/s.S/Ping'', ())"
    by (auto simp: ex_grpc_world_def)
  then have "n = 3" using ex_ping_eq(2) by simp
  with h show ?thesis by blast
qed

end
