(* ===== verification/Audit_Progress.thy ===== *)
theory Audit_Progress
  imports Audit_Record_Facts
begin

text \<open>
  Time passes for a caller who tries again: every statement uses up a step of the script of disturbances,
  so repeated attempts reach a quiet database, and what others do meanwhile keeps what has to stay.
\<close>

section \<open>The script of disturbances gets shorter\<close>

abbreviation todo :: "'t db \<Rightarrow> nat" where
  "todo s \<equiv> length (db_script s)"

lemma next_step_todo: "next_step s = (x, s1) \<Longrightarrow> todo s1 = todo s - 1"
  by (auto simp: next_step_def split: list.splits)

lemma exec_db_todo: "exec_db stmt s = (r, s1) \<Longrightarrow> todo s1 = todo s - 1"
  by (auto simp: exec_db_def Let_def split: prod.splits dest!: next_step_todo run_stmt_script)

lemma exec_tx_todo: "exec_tx stmt s = (r, s1) \<Longrightarrow> todo s1 = todo s - 1"
  by (auto simp: exec_tx_def Let_def split: prod.splits dest!: next_step_todo run_stmt_script)

lemma begin_tx_todo: "begin_tx s = (r, s1) \<Longrightarrow> todo s1 = todo s - 1"
  by (auto simp: begin_tx_def Let_def split: prod.splits outcome.splits dest!: next_step_todo)

lemma rollback_tx_todo: "rollback_tx saved s = (r, s1) \<Longrightarrow> todo s1 = todo s - 1"
  by (auto simp: rollback_tx_def end_session_def Let_def split: prod.splits outcome.splits dest!: next_step_todo)

lemma commit_tx_todo: "commit_tx saved s = (r, s1) \<Longrightarrow> todo s1 = todo s - 1"
  by (auto simp: commit_tx_def end_session_def Let_def split: prod.splits outcome.splits dest!: next_step_todo)

lemma set_audit_actor_todo: "set_audit_actor ctx d s = (r, s1) \<Longrightarrow> todo s1 \<le> todo s"
  by (auto simp: set_audit_actor_def set_actor_stmt_def Let_def
      split: option.splits if_splits prod.splits sum.splits outcome.splits dest!: next_step_todo)

lemma repo_create_todo: "repo_create env v s = (r, s1) \<Longrightarrow> todo s1 \<le> todo s"
  by (auto simp: repo_create_def split: prod.splits sum.splits if_splits dest!: exec_tx_todo)

lemma within_todo:
  assumes fn: "\<And>s e s'. fn s = (e, s') \<Longrightarrow> todo s' \<le> todo s" and w: "within tdb ctx fn s = (r, s')"
  shows "todo s' \<le> todo s"
proof (cases tdb)
  case None
  with w show ?thesis by (simp add: within_def)
next
  case (Some driver)
  obtain b s1 where b: "begin_tx s = (b, s1)" by fastforce
  obtain a s2 where a: "set_audit_actor ctx driver s1 = (a, s2)" by fastforce
  obtain f s3 where f: "fn s2 = (f, s3)" by fastforce
  have le: "todo s1 \<le> todo s" "todo s2 \<le> todo s1" "todo s3 \<le> todo s2"
    using begin_tx_todo [OF b] set_audit_actor_todo [OF a] fn [OF f] by auto
  have rb: "todo (snd (rollback_tx saved q)) \<le> todo q" for saved and q :: "'a db"
    using rollback_tx_todo [of saved q, OF prod.collapse [symmetric]] by simp
  have cm: "todo (snd (commit_tx saved q)) \<le> todo q" for saved and q :: "'a db"
    using commit_tx_todo [of saved q, OF prod.collapse [symmetric]] by simp
  show ?thesis
  proof (cases b)
    case (Inl e)
    with w Some b le show ?thesis by (simp add: within_def)
  next
    case (Inr saved)
    with w Some a f b have "s' = snd (rollback_tx saved s2) \<or> s' = snd (rollback_tx saved s3) \<or> s' = snd (commit_tx saved s3)"
      by (auto simp: within_def prod_eq_iff split: option.splits prod.splits)
    with le rb [of saved s2] rb [of saved s3] cm [of saved s3] show ?thesis by auto
  qed
qed

text \<open>Of a world: the lookup takes a step, the write takes none back.\<close>

lemma sql_get_todo:
  "sv_get (new_runtime_service x) i tn w = (r, w1) \<Longrightarrow> todo (w_db w1) = todo (w_db w) - 1"
  by (auto simp: on_db_eq repo_get_def split: prod.splits sum.splits if_splits dest!: exec_db_todo)

lemma sql_create_todo:
  "sv_within (new_runtime_service x) ctx (sv_create (new_runtime_service x) v) w = (r, w1) \<Longrightarrow> todo (w_db w1) \<le> todo (w_db w)"
  unfolding sql_within_create by (auto simp: on_db_eq intro: within_todo [OF repo_create_todo])

lemma record_store_todo:
  assumes "record_store (new_runtime_service x) a v w = (r, w1)"
  shows "todo (w_db w1) \<le> todo (w_db w)"
proof -
  obtain e w2 where c: "sv_within (new_runtime_service x) (Some a) (sv_create (new_runtime_service x) v) w = (e, w2)" by fastforce
  have "w1 = w2 \<or> (\<exists>g. sv_get (new_runtime_service x) (r_ID v) (r_TenantID v) w2 = (g, w1))"
    using assms c unfolding record_store_def
    by (auto simp del: sql_service_simps split: option.splits if_splits prod.splits sum.splits)
  then show ?thesis
  proof
    assume "\<exists>g. sv_get (new_runtime_service x) (r_ID v) (r_TenantID v) w2 = (g, w1)"
    then obtain g where "sv_get (new_runtime_service x) (r_ID v) (r_TenantID v) w2 = (g, w1)" ..
    from sql_get_todo [OF this] sql_create_todo [OF c] show ?thesis by linarith
  qed (use sql_create_todo [OF c] in simp)
qed

section \<open>What may be stored under one identifier\<close>

text \<open>
  The order of writers that store nothing under the identifier \<open>i\<close> but records with \<open>P\<close>.
\<close>

definition keeps_at :: "string \<Rightarrow> (audit_record \<Rightarrow> bool) \<Rightarrow> audit_tables \<Rightarrow> audit_tables \<Rightarrow> bool" where
  "keeps_at i P t t' \<longleftrightarrow> audit_order t t' \<and>
     (audit_inv t \<longrightarrow> (\<forall>r. store_of t i = Some r \<longrightarrow> P r) \<longrightarrow> (\<forall>r. store_of t' i = Some r \<longrightarrow> P r))"

interpretation at: audit_table_order "keeps_at i P" for i P
proof
  fix t u v :: audit_tables
  show "keeps_at i P t t" by (simp add: keeps_at_def audit.order_refl)
  assume tu: "keeps_at i P t u" and uv: "keeps_at i P u v"
  then have "audit_order t v" using audit.order_trans unfolding keeps_at_def by blast
  moreover have "audit_inv t \<longrightarrow> audit_inv u" using tu by (simp add: keeps_at_def audit_order_def)
  ultimately show "keeps_at i P t v" using tu uv unfolding keeps_at_def by blast
qed

lemma keeps_at_ok: "world_ok (keeps_at i P) w \<Longrightarrow> world_ok audit_order w"
  by (auto simp: world_ok_def obeys_def keeps_at_def)

lemma create_keeps_at:
  assumes "world_ok (keeps_at i P) w"
    and kept: "\<And>kept ss actor. stored_as (x_sql x) v = Inr kept \<Longrightarrow> r_ID kept = i \<and> P (stamped ss actor kept)"
    and "sv_within (new_runtime_service x) ctx (sv_create (new_runtime_service x) v) w = (e, w1)"
  shows "world_le (keeps_at i P) w w1"
proof -
  have body: "keeps_at i P (db_tables s) (db_tables s')" if c: "repo_create (x_sql x) v s = (None, s')" for s s'
    unfolding keeps_at_def
  proof (intro conjI impI allI)
    show "audit_order (db_tables s) (db_tables s')" by (rule repo_create_order [OF c])
    fix r assume inv: "audit_inv (db_tables s)" and r: "store_of (db_tables s') i = Some r"
    from repo_create_store [OF inv c] obtain ss actor v1 where v1: "stored_as (x_sql x) v = Inr v1"
      "store_of (db_tables s') = (store_of (db_tables s))(r_ID v1 \<mapsto> stamped ss actor v1)" by blast
    with r kept [OF v1(1), of ss actor] show "P r" by simp
  qed
  show ?thesis using assms(1,3) unfolding sql_within_create
    by (auto simp: on_db_eq world_ok_def world_le_def intro: at.within_keeps [OF body repo_create_script])
qed

lemma record_store_keeps_at:
  assumes "world_ok (keeps_at i P) w"
    and "\<And>kept ss actor. stored_as (x_sql x) v = Inr kept \<Longrightarrow> r_ID kept = i \<and> P (stamped ss actor kept)"
    and "record_store (new_runtime_service x) a v w = (r, w1)"
  shows "world_le (keeps_at i P) w w1"
proof -
  obtain e w2 where c: "sv_within (new_runtime_service x) (Some a) (sv_create (new_runtime_service x) v) w = (e, w2)" by fastforce
  note le = create_keeps_at [OF assms(1,2) c]
  have "w1 = w2 \<or> (\<exists>g. sv_get (new_runtime_service x) (r_ID v) (r_TenantID v) w2 = (g, w1))"
    using assms(3) c unfolding record_store_def
    by (auto simp del: sql_service_simps split: option.splits if_splits prod.splits sum.splits)
  then show ?thesis
    using le at.reader.le_trans [OF le at.reader.get_le [OF at.reader.ok_le [OF assms(1) le]]] by blast
qed

section \<open>A record of a background actor, tried again\<close>

text \<open>The request as the service completes it, at any time.\<close>

definition completed :: "externals \<Rightarrow> principal \<Rightarrow> time \<Rightarrow> audit_record \<Rightarrow> audit_record" where
  "completed x a now v = complete_record (new_runtime_service x) a now
     (projr (x_redact x (r_BeforeSummary v))) (projr (x_redact x (r_AfterSummary v))) (trim_record v)"

text \<open>
  What is asked of such a record for the service to get as far as the database, and for the columns
  to take it.
\<close>

definition acceptable :: "externals \<Rightarrow> principal \<Rightarrow> audit_record \<Rightarrow> bool" where
  "acceptable x a v \<longleftrightarrow> p_Type a \<noteq> TypeUser \<and> trim_space (p_ID a) \<noteq> [] \<and>
     (\<exists>d \<in> {''mysql'', ''pgx'', ''postgres'', ''kingbase''}. x_driver x = Some d) \<and>
     trim_space (r_Action v) \<noteq> [] \<and> trim_space (r_ResourceType v) \<noteq> [] \<and> trim_space (r_ResourceID v) \<noteq> [] \<and>
     trim_space (r_SourceService v) \<noteq> [] \<and> (\<exists>old. x_redact x (r_BeforeSummary v) = Inr old) \<and>
     (\<exists>new. x_redact x (r_AfterSummary v) = Inr new) \<and> r_ID v \<noteq> [] \<and> x_uuid_parse x (r_ID v) = None \<and>
     (\<forall>now. \<exists>kept. stored_as (x_sql x) (completed x a now v) = Inr kept)"

lemma completed_fields [simp]:
  "r_ID (completed x a now v) = r_ID v" "r_TenantID (completed x a now v) = trim_space (r_TenantID v)"
  by (simp_all add: completed_def)

lemma background_record:
  assumes "acceptable x a v"
  shows "service_record (new_runtime_service x) (Some a) v w =
    (case sv_get (new_runtime_service x) (r_ID v) (trim_space (r_TenantID v)) (w\<lparr>w_calls := Suc (w_calls w)\<rparr>) of
       (Inr existing, w1) \<Rightarrow> (Inr existing, w1)
     | (Inl err, w1) \<Rightarrow> if errors_is err ErrNotFound
         then record_store (new_runtime_service x) a (completed x a (x_now x (w_calls w)) v) w1
         else (Inl (app_internal (Some err)), w1))"
proof -
  from assms have t: "p_Type a \<noteq> TypeUser" by (simp add: acceptable_def)
  then have "enforce_tenant a tn = None" for tn by (simp add: enforce_tenant_None)
  moreover from assms obtain old new where "x_redact x (r_BeforeSummary v) = Inr old" "x_redact x (r_AfterSummary v) = Inr new"
    by (auto simp: acceptable_def)
  ultimately show ?thesis using assms t
    by (simp add: service_record_def acceptable_def Let_def ask_def record_identity_def completed_def
        del: sql_service_simps(1) split: prod.split sum.split)
qed

text \<open>The world such a record works on, and what one try makes of it.\<close>

definition ready :: "string \<Rightarrow> (audit_record \<Rightarrow> bool) \<Rightarrow> world \<Rightarrow> bool" where
  "ready i P w \<longleftrightarrow> world_ok (keeps_at i P) w \<and> audit_inv (world_tables w) \<and>
     (\<forall>r. store_of (world_tables w) i = Some r \<longrightarrow> P r)"

lemma ready_le:
  assumes "ready i P w" "world_le (keeps_at i P) w w1"
  shows "ready i P w1" "audit_order (world_tables w) (world_tables w1)"
  using assms at.reader.ok_le world_le_tables [OF assms(2)] by (auto simp: ready_def keeps_at_def audit_order_def)

lemma background_step:
  assumes "acceptable x a v" "ready i P w" "\<And>r. P r \<Longrightarrow> r_TenantID r = trim_space (r_TenantID v)"
    and P: "\<And>now ss actor kept. stored_as (x_sql x) (completed x a now v) = Inr kept \<Longrightarrow> P (stamped ss actor kept)"
    and ident: "se_uuid (x_sql x) (r_ID v) = Some i"
    and run: "service_record (new_runtime_service x) (Some a) v w = (res, w1)"
  shows "ready i P w1 \<and> audit_order (world_tables w) (world_tables w1) \<and>
    (\<forall>r. res = Inr r \<longrightarrow> (\<exists>r. store_of (world_tables w1) i = Some r \<and> P r)) \<and>
    (if todo (w_db w) = 0 then \<exists>r. res = Inr r else todo (w_db w1) < todo (w_db w))"
proof -
  let ?sv = "new_runtime_service x" and ?w = "w\<lparr>w_calls := Suc (w_calls w)\<rparr>" and ?T = "trim_space (r_TenantID v)"
  define full where "full = completed x a (x_now x (w_calls w)) v"
  have kept_id: "r_ID kept = i" if "stored_as (x_sql x) full = Inr kept" for kept
    using stored_as_fields(1) [OF that] ident by (simp add: full_def)
  have w: "ready i P ?w" "world_tables ?w = world_tables w" using assms(2)
    by (simp_all add: ready_def world_ok_def world_tables_def)
  obtain g w2 where g: "sv_get ?sv (r_ID v) ?T ?w = (g, w2)" by fastforce
  have l2: "world_le (keeps_at i P) ?w w2" using w(1) g at.reader.get_le unfolding ready_def by blast
  note r2 = ready_le [OF w(1) l2, unfolded w(2)]
  have t2: "todo (w_db w2) = todo (w_db w) - 1" using sql_get_todo [OF g] by simp
  from background_record [OF assms(1), of w] run g have cases:
    "(res = g \<and> w1 = w2 \<and> (\<exists>r. g = Inr r)) \<or> (\<exists>err. g = Inl err \<and> \<not> errors_is err ErrNotFound \<and> w1 = w2 \<and> res = Inl (app_internal (Some err)))
     \<or> (\<exists>err. g = Inl err \<and> errors_is err ErrNotFound \<and> record_store ?sv a full w2 = (res, w1))"
    by (auto simp: full_def simp del: sql_service_simps split: sum.splits if_splits)
  have le: "world_le (keeps_at i P) w2 w1 \<and> todo (w_db w1) \<le> todo (w_db w2)"
    using cases record_store_keeps_at [of i P w2 x full a res w1] record_store_todo [of x a full w2 res w1] r2(1) P kept_id at.reader.le_refl
    by (auto simp: ready_def full_def)
  note r1 = ready_le [OF r2(1) conjunct1 [OF le]]
  have ord: "audit_order (world_tables w) (world_tables w1)" using r1(2) r2(2) audit.order_trans by blast
  have stored: "\<exists>r. store_of (world_tables w1) i = Some r \<and> P r" if "res = Inr r" for r
  proof -
    from assms(2) have "world_ok audit_order w" "audit_inv (world_tables w)" by (auto simp: ready_def keeps_at_ok)
    from record_stored [OF this run [unfolded that]] assms(1) ident have "store_of (world_tables w1) i \<noteq> None"
      by (auto simp: acceptable_def)
    with r1(1) show ?thesis by (auto simp: ready_def)
  qed
  have quiet: "\<exists>r. res = Inr r" if z: "todo (w_db w) = 0"
  proof -
    from assms(1) obtain d where d: "x_driver x = Some d" "d \<in> {''mysql'', ''pgx'', ''postgres'', ''kingbase''}"
      "trim_space (p_ID a) \<noteq> []" by (auto simp: acceptable_def)
    from z have q: "db_script (w_db ?w) = []" by simp
    from w(1) have inv: "audit_inv (world_tables ?w)" by (simp add: ready_def)
    from assms(1) obtain kept where k: "stored_as (x_sql x) full = Inr kept"
      unfolding acceptable_def full_def by blast
    have "se_text (x_sql x) ?T" using stored_tenant [OF k] by (simp add: full_def)
    from sql_get_quiet [OF q inv ident this] g have
      "g = (case store_of (world_tables w) i of Some r \<Rightarrow> (if r_TenantID r = ?T then Inr r else Inl ErrNotFound)
        | None \<Rightarrow> Inl ErrNotFound)" "w2 = ?w" by (simp_all add: w(2) del: sql_service_simps)
    moreover have "r_TenantID r = ?T" if "store_of (world_tables w) i = Some r" for r
      using that assms(2,3) by (auto simp: ready_def)
    ultimately have "(\<exists>r. g = Inr r) \<or> store_of (world_tables w) i = None \<and> g = Inl ErrNotFound \<and> w2 = ?w"
      by (auto split: option.splits)
    then show ?thesis
    proof
      assume n: "store_of (world_tables w) i = None \<and> g = Inl ErrNotFound \<and> w2 = ?w"
      with cases have st: "record_store ?sv a full ?w = (res, w1)" by (auto simp: ErrNotFound_def)
      from record_store_quiet [OF q d inv k] st n kept_id [OF k] show ?thesis
        by (auto simp: record_spec_def w(2))
    qed (use cases in auto)
  qed
  have less: "todo (w_db w1) < todo (w_db w)" if "todo (w_db w) \<noteq> 0"
    using that t2 conjunct2 [OF le] by linarith
  show ?thesis using r1(1) ord stored quiet less by (cases "todo (w_db w) = 0") simp_all
qed

text \<open>A step tried again until it succeeds, at most \<open>n\<close> times.\<close>

fun until_done :: "nat \<Rightarrow> ('s \<Rightarrow> goerr option \<times> 's) \<Rightarrow> 's \<Rightarrow> bool \<times> 's" where
  "until_done 0 f w = (False, w)"
| "until_done (Suc n) f w = (case f w of (None, w1) \<Rightarrow> (True, w1) | (Some _, w1) \<Rightarrow> until_done n f w1)"

text \<open>
  A step that keeps an invariant and takes from a measure when it fails, and that does not fail at zero,
  is done by then.
\<close>

lemma until_done_progress:
  assumes step: "\<And>w r w1. I w \<Longrightarrow> f w = (r, w1) \<Longrightarrow> I w1 \<and> R w w1 \<and> (r = None \<longrightarrow> G w1) \<and> (if \<mu> w = 0 then r = None else \<mu> w1 < (\<mu> w :: nat))"
    and trans: "\<And>u v w. R u v \<Longrightarrow> R v w \<Longrightarrow> R u w"
    and "I w" "\<mu> w < n"
  shows "\<exists>w1. until_done n f w = (True, w1) \<and> I w1 \<and> R w w1 \<and> G w1"
  using assms(3,4)
proof (induction n arbitrary: w)
  case (Suc n)
  obtain r w2 where f: "f w = (r, w2)" by fastforce
  note s = step [OF Suc.prems(1) f]
  show ?case
  proof (cases r)
    case None
    with s f show ?thesis by auto
  next
    case (Some e)
    with s Suc.prems(2) have "\<mu> w2 < n" by (auto split: if_splits)
    with Suc.IH s obtain w1 where "until_done n f w2 = (True, w1)" "I w1" "R w2 w1" "G w1" by blast
    with f Some s trans show ?thesis by auto
  qed
qed simp

end
