(* ===== verification/Event_Consumer.thy ===== *)
theory Event_Consumer
  imports Audit_Service Config
begin

text \<open>
  \<open>internal/app/audit_eventbus.go\<close>: every event of the platform becomes an audit record.  The bus, which
  delivers an event again until the handler accepts it, the generated messages and the JSON libraries are
  the platform's: an envelope is the fields the code reads, the functions of the libraries are the records
  \<open>event_json\<close> and \<open>event_bus\<close>.
\<close>

section \<open>Events\<close>

record event_request =
  eq_ActorId :: string
  eq_ActorType :: string
  eq_RequestId :: string
  eq_TraceId :: string

record 'ts event_envelope =
  en_EventId :: string
  en_TenantId :: string
  en_ApplicationId :: string
  en_EventType :: string
  en_AggregateType :: string
  en_AggregateId :: string
  en_SchemaVersion :: int
  en_Payload :: string
  en_OccurredAt :: "'ts option"
  en_Context :: "event_request option"

text \<open>The values the summary is made of; a raw one is taken as it is.\<close>

datatype json_value = JsonString string | JsonNumber int | JsonRaw string

record 'ts event_json =
  ej_Valid :: "string \<Rightarrow> bool"
  ej_redact :: "string \<Rightarrow> goerr + string"
  ej_Marshal :: "(string \<times> json_value) list \<Rightarrow> goerr + string"
  ej_source :: "string \<Rightarrow> string option"
  ej_as_time :: "'ts \<Rightarrow> time"

text \<open>The summary; a map is written in the order of its keys.\<close>

definition summary_from_envelope :: "'ts event_json \<Rightarrow> 'ts event_envelope option \<Rightarrow> goerr + string" where
  "summary_from_envelope js envelope = (case envelope of
      None \<Rightarrow> Inl (ErrText ''event envelope is required'')
    | Some e \<Rightarrow>
        (let kind = (''event_type'', JsonString (en_EventType e)); version = (''schema_version'', JsonNumber (en_SchemaVersion e)) in
         if en_Payload e \<noteq> [] \<and> ej_Valid js (en_Payload e) then
           (case ej_redact js (en_Payload e) of
              Inl err \<Rightarrow> Inl (ErrWrap ''redact event payload'' err)
            | Inr redacted \<Rightarrow> ej_Marshal js [kind, (''payload'', JsonRaw redacted), version])
         else ej_Marshal js [kind, version]))"

definition source_service :: "'ts event_json \<Rightarrow> 'ts event_envelope \<Rightarrow> string" where
  "source_service js e =
     (let named = (if ej_Valid js (en_Payload e) then
            (case ej_source js (en_Payload e) of Some s \<Rightarrow> trim_space s | None \<Rightarrow> []) else [])
      in if named \<noteq> [] then named
         else (case split_on (CHR ''.'') (en_EventType e) of
             part0 # part1 # _ \<Rightarrow> if part0 = ''platform'' then part1 @ ''-service'' else ''unknown''
           | _ \<Rightarrow> ''unknown''))"

definition event_record :: "'ts event_json \<Rightarrow> 'ts event_envelope \<Rightarrow> string \<Rightarrow> audit_record" where
  "event_record js e summary =
     (let base = zero_record\<lparr>r_ID := en_EventId e, r_TenantID := en_TenantId e, r_ApplicationID := en_ApplicationId e,
            r_Action := en_EventType e, r_ResourceType := en_AggregateType e, r_ResourceID := en_AggregateId e,
            r_SourceService := source_service js e, r_AfterSummary := summary\<rparr>;
          timed = (case en_OccurredAt e of Some t \<Rightarrow> base\<lparr>r_OccurredAt := ej_as_time js t\<rparr> | None \<Rightarrow> base)
      in case en_Context e of
           Some q \<Rightarrow> timed\<lparr>r_ActorID := eq_ActorId q, r_ActorType := eq_ActorType q, r_RequestID := eq_RequestId q,
             r_TraceID := eq_TraceId q\<rparr>
         | None \<Rightarrow> timed)"

definition event_consumer :: principal where
  "event_consumer = system_principal ''audit-event-consumer''"

definition consume :: "'ts event_json \<Rightarrow> 's service \<Rightarrow> 'ts event_envelope option \<Rightarrow> 's \<Rightarrow> goerr option \<times> 's" where
  "consume js sv envelope w = (case envelope of
      None \<Rightarrow> (Some (ErrText ''event envelope is required''), w)
    | Some e \<Rightarrow>
        (case summary_from_envelope js (Some e) of
           Inl err \<Rightarrow> (Some err, w)
         | Inr summary \<Rightarrow>
             (case service_record sv (Some event_consumer) (event_record js e summary) w of
                (Inl err, w1) \<Rightarrow> (Some err, w1)
              | (Inr _, w1) \<Rightarrow> (None, w1))))"

section \<open>The runtime\<close>

record bus_settings =
  bu_URLs :: "string list"
  bu_ClientName :: string
  bu_StreamName :: string
  bu_Subjects :: "string list"
  bu_Storage :: string
  bu_MaxAge :: duration
  bu_DuplicateWindow :: duration
  bu_ConnectTimeout :: duration
  bu_PublishTimeout :: duration
  bu_ConsumerAckWait :: duration
  bu_ConsumerMaxDeliver :: int

record ('b, 'ts) event_bus =
  eb_New :: "bus_settings \<Rightarrow> goerr + 'b"
  eb_Publish :: "'b \<Rightarrow> string \<Rightarrow> 'ts event_envelope \<Rightarrow> goerr option"
  eb_Close :: "'b \<Rightarrow> goerr option"

text \<open>
  The runtime: its configuration, the bus it is connected to, and the durable consumer that runs, by its
  name and filter.  Between \<open>start\<close> and \<open>stop\<close> it is a goroutine that hands deliveries to \<open>consume\<close>.
\<close>

record 'b event_runtime =
  ert_config :: cConfig
  ert_bus :: "'b option"
  ert_consumer :: "(string \<times> string) option"

definition bus_settings_of :: "cConfig \<Rightarrow> bus_settings" where
  "bus_settings_of cfg = (let eb = Config_EventBus cfg in
     \<lparr>bu_URLs = EventBus_URLs eb, bu_ClientName = App_Name (Config_App cfg), bu_StreamName = EventBus_StreamName eb,
      bu_Subjects = [''platform.>''], bu_Storage = EventBus_Storage eb, bu_MaxAge = EventBus_MaxAge eb,
      bu_DuplicateWindow = EventBus_DuplicateWindow eb, bu_ConnectTimeout = EventBus_ConnectTimeout eb,
      bu_PublishTimeout = EventBus_PublishTimeout eb, bu_ConsumerAckWait = EventBus_ConsumerAckWait eb,
      bu_ConsumerMaxDeliver = EventBus_ConsumerMaxDeliver eb\<rparr>)"

definition new_event_runtime :: "cConfig \<Rightarrow> 'b event_runtime" where
  "new_event_runtime cfg = \<lparr>ert_config = cfg, ert_bus = None, ert_consumer = None\<rparr>"

definition start_runtime :: "('b, 'ts) event_bus \<Rightarrow> 'b event_runtime \<Rightarrow> goerr option \<times> 'b event_runtime" where
  "start_runtime lib r =
     (if \<not> EventBus_Enabled (Config_EventBus (ert_config r)) then (None, r)
      else (case eb_New lib (bus_settings_of (ert_config r)) of
          Inl err \<Rightarrow> (Some err, r)
        | Inr bus \<Rightarrow> (None, r\<lparr>ert_bus := Some bus, ert_consumer := Some (''audit-service-all-events'', ''platform.>'')\<rparr>)))"

definition stop_runtime :: "('b, 'ts) event_bus \<Rightarrow> 'b event_runtime \<Rightarrow> goerr option \<times> 'b event_runtime" where
  "stop_runtime lib r =
     (let stopped = r\<lparr>ert_consumer := None\<rparr> in
      case ert_bus r of Some bus \<Rightarrow> (eb_Close lib bus, stopped) | None \<Rightarrow> (None, stopped))"

text \<open>\<open>None\<close> is a nil runtime.\<close>

definition publish_event :: "('b, 'ts) event_bus \<Rightarrow> 'b event_runtime option \<Rightarrow> string \<Rightarrow> 'ts event_envelope \<Rightarrow> goerr option" where
  "publish_event lib runtime subject envelope = (case runtime of
      None \<Rightarrow> Some (ErrText ''audit event bus is unavailable'')
    | Some r \<Rightarrow> (case ert_bus r of
          None \<Rightarrow> Some (ErrText ''audit event bus is unavailable'')
        | Some bus \<Rightarrow> eb_Publish lib bus subject envelope))"

end
