(* ===== verification/Event_Facts.thy ===== *)
theory Event_Facts
  imports Audit_Progress Event_Consumer
begin

text \<open>
  Events end up in the audit log: the bus delivers an event again until the handler accepts it, and
  under that regime every event the service can store is stored, once, with its content.
\<close>

section \<open>What an event becomes\<close>

text \<open>
  The stored record of an event, whatever the time of the delivery that stored it, as its columns
  keep the content: the canonical identifier, the redacted summary as \<open>JSONB\<close> gives it back, and
  the time of the event to the microsecond.
\<close>

definition records_event :: "externals \<Rightarrow> 'ts event_json \<Rightarrow> 'ts event_envelope \<Rightarrow> string \<Rightarrow> audit_record \<Rightarrow> bool" where
  "records_event x js e summary r \<longleftrightarrow>
     se_uuid (x_sql x) (en_EventId e) = Some (r_ID r) \<and> r_TenantID r = trim_space (en_TenantId e) \<and>
     r_ApplicationID r = trim_space (en_ApplicationId e) \<and> r_Action r = trim_space (en_EventType e) \<and>
     r_ResourceType r = trim_space (en_AggregateType e) \<and> r_ResourceID r = trim_space (en_AggregateId e) \<and>
     r_SourceService r = trim_space (source_service js e) \<and> (\<exists>new. x_redact x summary = Inr new \<and> se_json (x_sql x) new = Some (r_AfterSummary r)) \<and>
     (\<forall>t. en_OccurredAt e = Some t \<longrightarrow> ej_as_time js t \<noteq> 0 \<longrightarrow> r_OccurredAt r = column_time (ej_as_time js t)) \<and>
     (\<forall>q. en_Context e = Some q \<longrightarrow> r_RequestID r = eq_RequestId q \<and> r_TraceID r = eq_TraceId q \<and>
        r_ActorID r = (if eq_ActorId q = [] then p_ID event_consumer else eq_ActorId q)) \<and>
     (en_Context e = None \<longrightarrow> r_ActorID r = p_ID event_consumer)"

lemma event_record_fields [simp]:
  "r_ID (event_record js e s) = en_EventId e" "r_TenantID (event_record js e s) = en_TenantId e"
  "r_ApplicationID (event_record js e s) = en_ApplicationId e" "r_Action (event_record js e s) = en_EventType e"
  "r_ResourceType (event_record js e s) = en_AggregateType e" "r_ResourceID (event_record js e s) = en_AggregateId e"
  "r_SourceService (event_record js e s) = source_service js e" "r_AfterSummary (event_record js e s) = s"
  "r_BeforeSummary (event_record js e s) = []"
  "r_ActorID (event_record js e s) = (case en_Context e of Some q \<Rightarrow> eq_ActorId q | None \<Rightarrow> [])"
  "r_RequestID (event_record js e s) = (case en_Context e of Some q \<Rightarrow> eq_RequestId q | None \<Rightarrow> [])"
  "r_TraceID (event_record js e s) = (case en_Context e of Some q \<Rightarrow> eq_TraceId q | None \<Rightarrow> [])"
  "r_OccurredAt (event_record js e s) = (case en_OccurredAt e of Some t \<Rightarrow> ej_as_time js t | None \<Rightarrow> 0)"
  by (simp_all add: event_record_def zero_record_def Let_def split: option.split)

lemma completed_more [simp]:
  "r_ApplicationID (completed x a now v) = trim_space (r_ApplicationID v)"
  "r_Action (completed x a now v) = trim_space (r_Action v)"
  "r_ResourceType (completed x a now v) = trim_space (r_ResourceType v)"
  "r_ResourceID (completed x a now v) = trim_space (r_ResourceID v)"
  "r_SourceService (completed x a now v) = trim_space (r_SourceService v)"
  "r_RequestID (completed x a now v) = r_RequestID v"
  "r_TraceID (completed x a now v) = r_TraceID v"
  "r_AfterSummary (completed x a now v) = projr (x_redact x (r_AfterSummary v))"
  "r_ActorID (completed x a now v) = (if r_ActorID v = [] then p_ID a else r_ActorID v)"
  "r_OccurredAt (completed x a now v) = (if r_OccurredAt v = 0 then now else r_OccurredAt v)"
  by (simp_all add: completed_def complete_record_def trim_record_def Let_def is_zero_def)

lemma stamped_more [simp]:
  "r_Action (stamped ss actor v) = r_Action v" "r_ResourceType (stamped ss actor v) = r_ResourceType v"
  "r_ResourceID (stamped ss actor v) = r_ResourceID v" "r_SourceService (stamped ss actor v) = r_SourceService v"
  "r_RequestID (stamped ss actor v) = r_RequestID v" "r_TraceID (stamped ss actor v) = r_TraceID v"
  "r_AfterSummary (stamped ss actor v) = r_AfterSummary v" "r_ActorID (stamped ss actor v) = r_ActorID v"
  by (simp_all add: stamped_def)

lemma completed_event:
  assumes "acceptable x event_consumer (event_record js e s)"
    and "stored_as (x_sql x) (completed x event_consumer now (event_record js e s)) = Inr kept"
  shows "records_event x js e s (stamped ss actor kept)"
proof -
  from assms(1) obtain new where "x_redact x s = Inr new" by (auto simp: acceptable_def)
  with assms(2) show ?thesis by (auto simp: records_event_def stored_as_iff split: option.split)
qed

lemma stored_once:
  assumes "audit_inv t" "store_of t i = Some r"
  shows "\<exists>row. filter (\<lambda>q. r_ID q = i) (t_records t) = [row] \<and> record_of row = r"
proof -
  from store_of_Some [OF assms(2)] obtain row where row: "row \<in> set (t_records t)" "record_of row = r" "r_ID row = i"
    by (metis imageE record_of_fields(1))
  have "distinct (map r_ID (t_records t))" using assms(1) by (simp add: audit_inv_def)
  from distinct_map_filter_single [OF this row(1)] row show ?thesis by simp
qed

section \<open>Deliveries\<close>

lemma consume_step:
  assumes "summary_from_envelope js (Some e) = Inr s" "acceptable x event_consumer (event_record js e s)"
    and "se_uuid (x_sql x) (en_EventId e) = Some ident" "ready ident (records_event x js e s) w"
    and "consume js (new_runtime_service x) (Some e) w = (r, w1)"
  shows "ready ident (records_event x js e s) w1 \<and> audit_order (world_tables w) (world_tables w1) \<and>
    (r = None \<longrightarrow> (\<exists>q. store_of (world_tables w1) ident = Some q \<and> records_event x js e s q)) \<and>
    (if todo (w_db w) = 0 then r = None else todo (w_db w1) < todo (w_db w))"
proof -
  obtain res w2 where run: "service_record (new_runtime_service x) (Some event_consumer) (event_record js e s) w = (res, w2)"
    by fastforce
  then have eq: "w1 = w2" "r = None \<longleftrightarrow> (\<exists>q. res = Inr q)" using assms(5)
    by (auto simp: consume_def assms(1) split: sum.splits)
  have "records_event x js e s q \<Longrightarrow> r_TenantID q = trim_space (r_TenantID (event_record js e s))" for q
    by (simp add: records_event_def)
  then have st: "ready ident (records_event x js e s) w2 \<and> audit_order (world_tables w) (world_tables w2) \<and>
    (\<forall>r. res = Inr r \<longrightarrow> (\<exists>q. store_of (world_tables w2) ident = Some q \<and> records_event x js e s q)) \<and>
    (if todo (w_db w) = 0 then \<exists>r. res = Inr r else todo (w_db w2) < todo (w_db w))"
    using background_step [where P = "records_event x js e s", OF assms(2,4) _ completed_event [OF assms(2)] _ run]
      assms(3) by simp
  show ?thesis using st eq by simp
qed

text \<open>
  C33. An event the service can store is stored: if the bus delivers it again as often as the database
  may still fail and once more, the handler accepts it in the end, exactly one row has its identifier,
  with the content of the event as the columns keep it (identifier in canonical form, summary as
  \<open>JSONB\<close>, time to the microsecond), and every record that was there before is unchanged; wherever the
  failures and lost replies fall and whatever other consumers append, if under this identifier they
  append only this event.
\<close>

theorem event_recorded_once:
  assumes "summary_from_envelope js (Some e) = Inr summary"
    and "acceptable x event_consumer (event_record js e summary)"
    and "se_uuid (x_sql x) (en_EventId e) = Some ident"
    and "ready ident (records_event x js e summary) w" and "length (db_script (w_db w)) < n"
  shows "\<exists>w1. until_done n (consume js (new_runtime_service x) (Some e)) w = (True, w1) \<and>
     store_of (world_tables w) \<subseteq>\<^sub>m store_of (world_tables w1) \<and>
     (\<exists>row. filter (\<lambda>q. r_ID q = ident) (t_records (world_tables w1)) = [row] \<and>
        records_event x js e summary (record_of row))"
proof -
  let ?I = "ready ident (records_event x js e summary)"
  let ?G = "\<lambda>w. \<exists>q. store_of (world_tables w) ident = Some q \<and> records_event x js e summary q"
  have "\<exists>w1. until_done n (consume js (new_runtime_service x) (Some e)) w = (True, w1) \<and> ?I w1 \<and>
      audit_order (world_tables w) (world_tables w1) \<and> ?G w1"
    by (rule until_done_progress [where \<mu> = "\<lambda>w. todo (w_db w)" and R = "\<lambda>u v. audit_order (world_tables u) (world_tables v)"])
      (use consume_step [OF assms(1-3)] assms(4,5) audit.order_trans in auto)
  then obtain w1 q where w1: "until_done n (consume js (new_runtime_service x) (Some e)) w = (True, w1)" "?I w1"
    "audit_order (world_tables w) (world_tables w1)" "store_of (world_tables w1) ident = Some q"
    "records_event x js e summary q" by blast
  have "audit_inv (world_tables w1)" using w1(2) by (simp add: ready_def)
  from stored_once [OF this w1(4)] w1(5) have "\<exists>row. filter (\<lambda>q. r_ID q = ident) (t_records (world_tables w1)) = [row] \<and>
        records_event x js e summary (record_of row)" by auto
  moreover have "store_of (world_tables w) \<subseteq>\<^sub>m store_of (world_tables w1)"
    using w1(3) store_of_extends by (auto simp: audit_order_def map_le_def domIff)
  ultimately show ?thesis using w1(1) by blast
qed

text \<open>
  A database that loses the reply of the first delivery's commit and fails the lookup of the second:
  the third one finds the record.
\<close>

definition ex_json :: "time event_json" where
  "ex_json = \<lparr>ej_Valid = (\<lambda>p. p \<noteq> []), ej_redact = Inr, ej_Marshal = (\<lambda>m. Inr ''{}''), ej_source = (\<lambda>p. None),
     ej_as_time = (\<lambda>t. t)\<rparr>"

definition ex_event :: "time event_envelope" where
  "ex_event = \<lparr>en_EventId = ''e1'', en_TenantId = ''t1'', en_ApplicationId = [], en_EventType = ''platform.tenant.changed.v1'',
     en_AggregateType = ''tenant'', en_AggregateId = ''7'', en_SchemaVersion = 1, en_Payload = ''{}'', en_OccurredAt = Some 5123,
     en_Context = None\<rparr>"

definition ex_disturbed :: world where
  "ex_disturbed = ex_empty\<lparr>w_db := (w_db ex_empty)\<lparr>db_script := replicate 5 quiet
     @ [quiet\<lparr>st_outcome := Lost (ErrText ''bad connection'')\<rparr>, quiet\<lparr>st_outcome := Fails (ErrText ''timeout'')\<rparr>]\<rparr>\<rparr>"

lemma ex_deliveries:
  "fst (consume ex_json ex_service (Some ex_event) ex_disturbed) \<noteq> None"
  "fst (until_done 2 (consume ex_json ex_service (Some ex_event)) ex_disturbed) = False"
  "map r_SourceService (t_records (world_tables (snd (until_done 3 (consume ex_json ex_service (Some ex_event)) ex_disturbed)))) =
     [''tenant-service'']"
  by code_simp+

lemma event_recorded_once_witness:
  "\<exists>w1 row. until_done 8 (consume ex_json (new_runtime_service ex_externals) (Some ex_event)) ex_disturbed = (True, w1) \<and>
     filter (\<lambda>q. r_ID q = ''e1'') (t_records (world_tables w1)) = [row] \<and> r_SourceService (record_of row) = ''tenant-service'' \<and> r_OccurredAt row = 5000"
proof -
  have s: "summary_from_envelope ex_json (Some ex_event) = Inr ''{}''" by code_simp
  have a: "acceptable ex_externals event_consumer (event_record ex_json ex_event ''{}'')"
  proof -
    have "p_Type event_consumer \<noteq> TypeUser" "trim_space (p_ID event_consumer) \<noteq> []"
      "trim_space (en_EventType ex_event) \<noteq> []" "trim_space (en_AggregateType ex_event) \<noteq> []"
      "trim_space (en_AggregateId ex_event) \<noteq> []" "trim_space (source_service ex_json ex_event) \<noteq> []"
      "x_uuid_parse ex_externals (en_EventId ex_event) = None" "en_EventId ex_event \<noteq> []"
      "x_driver ex_externals = Some ''pgx''" by code_simp+
    moreover have "\<exists>kept. stored_as (x_sql ex_externals)
        (completed ex_externals event_consumer now (event_record ex_json ex_event ''{}'')) = Inr kept" for now
    proof -
      have "se_uuid (x_sql ex_externals) (en_EventId ex_event) = Some ''e1''"
        "list_all (se_text (x_sql ex_externals)) (text_fields (completed ex_externals event_consumer 0
           (event_record ex_json ex_event ''{}'')))" by code_simp+
      moreover have "text_fields (completed ex_externals event_consumer now v) =
          text_fields (completed ex_externals event_consumer 0 v)" for v
        by (simp add: text_fields_def completed_def complete_record_def Let_def)
      moreover have "se_json (x_sql ex_externals) j = Some j" for j by (simp add: ex_externals_def ex_env_def)
      ultimately show ?thesis by (simp add: stored_as_iff)
    qed
    moreover have "x_redact ex_externals s = Inr s" for s by (simp add: ex_externals_def)
    ultimately show ?thesis by (auto simp: acceptable_def)
  qed
  have "st_others d t = t" if "d \<in> set (db_script (w_db ex_disturbed))" for d t
    using that by (auto simp: ex_disturbed_def)
  then have "world_ok (keeps_at i P) ex_disturbed" for i P
    by (simp add: world_ok_def obeys_def at.order_refl)
  moreover have "audit_inv (world_tables ex_disturbed)" "store_of (world_tables ex_disturbed) = Map.empty"
    by (simp_all add: ex_disturbed_def ex_empty_def world_tables_def audit_inv_def store_of_def)
  ultimately have r: "ready ''e1'' (records_event ex_externals ex_json ex_event ''{}'') ex_disturbed"
    by (simp add: ready_def)
  have l: "length (db_script (w_db ex_disturbed)) < 8" by (simp add: ex_disturbed_def)
  have "trim_space (source_service ex_json ex_event) = ''tenant-service''" "se_uuid (x_sql ex_externals) (en_EventId ex_event) = Some ''e1''"
    "en_OccurredAt ex_event = Some 5123" "ej_as_time ex_json 5123 \<noteq> 0" "column_time (ej_as_time ex_json 5123) = 5000" by code_simp+
  with event_recorded_once [OF s a _ r l] show ?thesis by (auto simp: records_event_def)
qed

end
