(* ===== verification/Database_Open.thy ===== *)
theory Database_Open
  imports Config "HOL-Library.AList"
begin

text \<open>
  \<open>internal/database/database.go\<close>: opening the database.  What the drivers read of a DSN and whether the
  server answers are the record \<open>db_library\<close>; the rest of a parsed DSN is carried along unread.
\<close>

record pg_config =
  pg_Database :: string
  pg_RuntimeParams :: "(string \<times> string) list"
  pg_rest :: string

record my_config =
  my_DBName :: string
  my_ParseTime :: bool
  my_Loc :: string
  my_Params :: "(string \<times> string) list option"
  my_rest :: string

text \<open>What a handle connects with.\<close>

datatype db_connection = PgConnection pg_config | MyConnection my_config | DsnConnection string

record db_handle =
  dh_driver :: string
  dh_connection :: db_connection
  dh_MaxOpenConns :: int
  dh_MaxIdleConns :: int
  dh_ConnMaxLifetime :: duration
  dh_ConnMaxIdleTime :: duration

record 'w db_library =
  dl_pgParse :: "string \<Rightarrow> goerr + pg_config"
  dl_myParse :: "string \<Rightarrow> goerr + my_config"
  dl_LoadLocation :: "string \<Rightarrow> goerr option"
  dl_Open :: "string \<Rightarrow> db_connection \<Rightarrow> goerr option"
  dl_Ping :: "db_connection \<Rightarrow> duration \<Rightarrow> 'w \<Rightarrow> goerr option \<times> 'w"
  dl_Close :: "db_connection \<Rightarrow> 'w \<Rightarrow> 'w"

definition driver_name :: "string \<Rightarrow> goerr + string" where
  "driver_name db_type =
     (if db_type = ''mysql'' then Inr ''mysql''
      else if db_type = ''postgres'' \<or> db_type = ''kingbase'' then Inr ''pgx''
      else Inl (ErrText ''unsupported database type''))"

definition mysql_connection_config :: "'w db_library \<Rightarrow> string \<Rightarrow> string \<Rightarrow> goerr + my_config" where
  "mysql_connection_config lib dsn database_name = (case dl_myParse lib dsn of
      Inl err \<Rightarrow> Inl err
    | Inr c0 \<Rightarrow>
        (let c1 = (if database_name \<noteq> [] then c0\<lparr>my_DBName := database_name\<rparr> else c0) in
         case dl_LoadLocation lib ''Asia/Shanghai'' of
           Some err \<Rightarrow> Inl err
         | None \<Rightarrow> Inr (c1\<lparr>my_ParseTime := True, my_Loc := ''Asia/Shanghai'',
             my_Params := Some (AList.update ''time_zone'' (CHR 0x27 # ''+08:00'' @ [CHR 0x27])
               (case my_Params c1 of Some ps \<Rightarrow> ps | None \<Rightarrow> []))\<rparr>)))"

definition pg_connection_config :: "'w db_library \<Rightarrow> cDatabase \<Rightarrow> goerr + pg_config" where
  "pg_connection_config lib cfg = (case dl_pgParse lib (Database_DSN cfg) of
      Inl err \<Rightarrow> Inl err
    | Inr c0 \<Rightarrow>
        (let c1 = (if Database_Name cfg \<noteq> [] then c0\<lparr>pg_Database := Database_Name cfg\<rparr> else c0);
             c2 = (if Database_Schema cfg \<noteq> []
                   then c1\<lparr>pg_RuntimeParams := AList.update ''search_path'' (Database_Schema cfg) (pg_RuntimeParams c1)\<rparr> else c1)
         in Inr (c2\<lparr>pg_RuntimeParams := AList.update ''timezone'' ''Asia/Shanghai'' (pg_RuntimeParams c2)\<rparr>)))"

text \<open>The connection of each driver.  PostgreSQL is connected lazily, so only the ping can fail there.\<close>

definition db_connect :: "'w db_library \<Rightarrow> cDatabase \<Rightarrow> string \<Rightarrow> goerr + db_connection" where
  "db_connect lib cfg driver =
     (let checked = (\<lambda>c. case dl_Open lib driver c of Some err \<Rightarrow> Inl (ErrWrap ''open database'' err) | None \<Rightarrow> Inr c) in
      if driver = ''pgx'' then
        (case pg_connection_config lib cfg of Inl err \<Rightarrow> Inl (ErrWrap ''parse database dsn'' err) | Inr c \<Rightarrow> Inr (PgConnection c))
      else if driver = ''mysql'' then
        (case mysql_connection_config lib (Database_DSN cfg) (Database_Name cfg) of
           Inl err \<Rightarrow> Inl (ErrWrap ''parse database dsn'' err)
         | Inr c \<Rightarrow> checked (MyConnection c))
      else checked (DsnConnection (Database_DSN cfg)))"

definition open_database :: "'w db_library \<Rightarrow> cDatabase \<Rightarrow> 'w \<Rightarrow> (goerr + db_handle) \<times> 'w" where
  "open_database lib cfg w = (case driver_name (Database_Type cfg) of
      Inl err \<Rightarrow> (Inl err, w)
    | Inr driver \<Rightarrow>
        (case db_connect lib cfg driver of
           Inl err \<Rightarrow> (Inl err, w)
         | Inr c \<Rightarrow>
             (case dl_Ping lib c (Database_PingTimeout cfg) w of
                (Some err, w1) \<Rightarrow> (Inl (ErrWrap ''ping database'' err), dl_Close lib c w1)
              | (None, w1) \<Rightarrow> (Inr \<lparr>dh_driver = driver, dh_connection = c, dh_MaxOpenConns = Database_MaxOpenConns cfg,
                  dh_MaxIdleConns = Database_MaxIdleConns cfg, dh_ConnMaxLifetime = Database_ConnMaxLifetime cfg,
                  dh_ConnMaxIdleTime = Database_ConnMaxIdleTime cfg\<rparr>, w1))))"

section \<open>What an opened database is\<close>

lemma driver_name_known: "driver_name t = Inr d \<Longrightarrow> d \<in> {''mysql'', ''pgx''}"
  by (auto simp: driver_name_def split: if_splits)

lemma driver_name_valid: "is_db_type t \<longleftrightarrow> (\<exists>d. driver_name t = Inr d)"
  by (auto simp: driver_name_def is_db_type_def)

text \<open>Both drivers work in the time zone of Shanghai, in the configured database and schema.\<close>

fun connects_to :: "cDatabase \<Rightarrow> db_connection \<Rightarrow> bool" where
  "connects_to cfg (PgConnection c) \<longleftrightarrow> map_of (pg_RuntimeParams c) ''timezone'' = Some ''Asia/Shanghai'' \<and>
     (Database_Name cfg \<noteq> [] \<longrightarrow> pg_Database c = Database_Name cfg) \<and>
     (Database_Schema cfg \<noteq> [] \<longrightarrow> map_of (pg_RuntimeParams c) ''search_path'' = Some (Database_Schema cfg))"
| "connects_to cfg (MyConnection c) \<longleftrightarrow> my_ParseTime c \<and> my_Loc c = ''Asia/Shanghai'' \<and>
     (Database_Name cfg \<noteq> [] \<longrightarrow> my_DBName c = Database_Name cfg) \<and>
     (\<exists>ps. my_Params c = Some ps \<and> map_of ps ''time_zone'' = Some (CHR 0x27 # ''+08:00'' @ [CHR 0x27]))"
| "connects_to cfg (DsnConnection dsn) \<longleftrightarrow> False"

lemma pg_connection_config_Inr:
  "pg_connection_config lib cfg = Inr c \<Longrightarrow> connects_to cfg (PgConnection c)"
  by (auto simp: pg_connection_config_def Let_def update_conv' split: sum.splits)

lemma mysql_connection_config_Inr:
  "mysql_connection_config lib dsn (Database_Name cfg) = Inr c \<Longrightarrow> connects_to cfg (MyConnection c)"
  by (auto simp: mysql_connection_config_def Let_def update_conv' split: sum.splits option.splits)

lemma open_database_Inr:
  assumes "open_database lib cfg w = (Inr h, w1)"
  shows "dh_driver h \<in> {''mysql'', ''pgx''}" "connects_to cfg (dh_connection h)"
    "driver_name (Database_Type cfg) = Inr (dh_driver h)"
proof -
  obtain d c where d: "driver_name (Database_Type cfg) = Inr d" and c: "db_connect lib cfg d = Inr c"
    and h: "dh_driver h = d" "dh_connection h = c"
    using assms by (auto simp: open_database_def split: sum.splits prod.splits option.splits)
  from driver_name_known [OF d] h show "dh_driver h \<in> {''mysql'', ''pgx''}" by simp
  from d h show "driver_name (Database_Type cfg) = Inr (dh_driver h)" by simp
  from driver_name_known [OF d] consider "d = ''mysql''" | "d = ''pgx''" by blast
  then show "connects_to cfg (dh_connection h)"
  proof cases
    case 1
    with c show ?thesis unfolding h(2)
      by (auto simp: db_connect_def Let_def simp del: connects_to.simps split: sum.splits option.splits
          intro: mysql_connection_config_Inr)
  next
    case 2
    with c show ?thesis unfolding h(2)
      by (auto simp: db_connect_def simp del: connects_to.simps split: sum.splits intro: pg_connection_config_Inr)
  qed
qed

end
