(* ===== verification/Locks.thy ===== *)
theory Locks
  imports Config
begin

text \<open>
  \<open>internal/cache/redis.go\<close> and \<open>internal/scheduler/scheduler.go\<close>: the Redis client, the locks the
  service takes through \<open>redsync\<close>, and the scheduled job that runs under one.  The Redis client and
  \<open>redsync\<close> are the records \<open>redis_library\<close> and \<open>redsync\<close>; the world notes what is done with locks
  and what the job does.
\<close>

section \<open>Redis\<close>

record redis_options =
  ro_Addr :: string
  ro_Username :: string
  ro_Password :: string
  ro_DB :: int
  ro_DialTimeout :: duration
  ro_ReadTimeout :: duration
  ro_WriteTimeout :: duration

record 'w redis_library =
  rd_Ping :: "redis_options \<Rightarrow> 'w \<Rightarrow> goerr option \<times> 'w"
  rd_Close :: "redis_options \<Rightarrow> 'w \<Rightarrow> 'w"

definition open_redis :: "'w redis_library \<Rightarrow> cRedis \<Rightarrow> 'w \<Rightarrow> (goerr + redis_options) \<times> 'w" where
  "open_redis lib cfg w =
     (let client = \<lparr>ro_Addr = Redis_Address cfg, ro_Username = Redis_Username cfg, ro_Password = Redis_Password cfg,
        ro_DB = Redis_DB cfg, ro_DialTimeout = Redis_DialTimeout cfg, ro_ReadTimeout = Redis_ReadTimeout cfg,
        ro_WriteTimeout = Redis_WriteTimeout cfg\<rparr> in
      case rd_Ping lib client w of
        (Some err, w1) \<Rightarrow> (Inl (ErrWrap ''ping redis'' err), rd_Close lib client w1)
      | (None, w1) \<Rightarrow> (Inr client, w1))"

section \<open>Locks\<close>

text \<open>A mutex: its name and the options it is made with.\<close>

record lock_mutex =
  mx_Name :: string
  mx_expiry :: duration
  mx_tries :: "int option"
  mx_retry_delay :: "duration option"

record 'w redsync =
  rs_TryLock :: "lock_mutex \<Rightarrow> 'w \<Rightarrow> goerr option \<times> 'w"
  rs_Lock :: "lock_mutex \<Rightarrow> 'w \<Rightarrow> goerr option \<times> 'w"
  rs_Extend :: "lock_mutex \<Rightarrow> 'w \<Rightarrow> (bool \<times> goerr option) \<times> 'w"
  rs_Unlock :: "lock_mutex \<Rightarrow> 'w \<Rightarrow> (bool \<times> goerr option) \<times> 'w"
  rs_is_taken :: "goerr \<Rightarrow> bool"
  rs_ctx_err :: "'w \<Rightarrow> goerr option"

datatype lock_event =
    LockTaken string | LockRefused string | LockReleased string
  | JobExecuted | JobSkipped | JobFailed | UnlockFailed | CronObserved string string

record 'w lock_world =
  lw_redis :: 'w
  lw_events :: "lock_event list"

definition note_event :: "lock_event \<Rightarrow> 'w lock_world \<Rightarrow> 'w lock_world" where
  "note_event e w = w\<lparr>lw_events := lw_events w @ [e]\<rparr>"

definition on_redis :: "('w \<Rightarrow> 'a \<times> 'w) \<Rightarrow> 'w lock_world \<Rightarrow> 'a \<times> 'w lock_world" where
  "on_redis f w = (case f (lw_redis w) of (r, n) \<Rightarrow> (r, w\<lparr>lw_redis := n\<rparr>))"

definition ErrFailed :: goerr where
  "ErrFailed = ErrVar ''redsync: failed to acquire lock''"

definition is_contention :: "'w redsync \<Rightarrow> goerr \<Rightarrow> bool" where
  "is_contention rs err \<longleftrightarrow> (if errors_is err ErrFailed then True else list_ex (rs_is_taken rs) (err_chain err))"

definition new_mutex :: "string \<Rightarrow> duration \<Rightarrow> int option \<Rightarrow> duration option \<Rightarrow> goerr + lock_mutex" where
  "new_mutex key ttl tries retry_delay =
     (if key = [] then Inl (ErrText ''lock key must not be empty'')
      else if ttl \<le> 0 then Inl (ErrText ''lock ttl must be positive'')
      else Inr \<lparr>mx_Name = ''lock:'' @ key, mx_expiry = ttl, mx_tries = tries, mx_retry_delay = retry_delay\<rparr>)"

text \<open>\<open>TryLock\<close>: an error, or the lock if it was free.\<close>

definition try_lock :: "'w redsync \<Rightarrow> string \<Rightarrow> duration \<Rightarrow> 'w lock_world \<Rightarrow> (goerr + lock_mutex option) \<times> 'w lock_world" where
  "try_lock rs key ttl w = (case new_mutex key ttl (Some 1) None of
      Inl err \<Rightarrow> (Inl err, w)
    | Inr m \<Rightarrow>
        (case on_redis (rs_TryLock rs m) w of
           (Some err, w1) \<Rightarrow>
             (if is_contention rs err then Inr None else Inl (ErrWrap (''try redis lock '' @ key) err),
              note_event (LockRefused (mx_Name m)) w1)
         | (None, w1) \<Rightarrow> (Inr (Some m), note_event (LockTaken (mx_Name m)) w1)))"

definition take_lock :: "'w redsync \<Rightarrow> string \<Rightarrow> duration \<Rightarrow> duration \<Rightarrow> 'w lock_world \<Rightarrow> (goerr + lock_mutex) \<times> 'w lock_world" where
  "take_lock rs key ttl retry_delay w =
     (if retry_delay \<le> 0 then (Inl (ErrText ''lock retry delay must be positive''), w)
      else (case new_mutex key ttl None (Some retry_delay) of
          Inl err \<Rightarrow> (Inl err, w)
        | Inr m \<Rightarrow>
            (case on_redis (rs_Lock rs m) w of
               (Some err, w1) \<Rightarrow>
                 (case rs_ctx_err rs (lw_redis w1) of
                    Some ctx_err \<Rightarrow> Inl (ErrWrap (''wait for redis lock '' @ key) ctx_err)
                  | None \<Rightarrow> Inl (ErrWrap (''acquire redis lock '' @ key) err),
                  note_event (LockRefused (mx_Name m)) w1)
             | (None, w1) \<Rightarrow> (Inr m, note_event (LockTaken (mx_Name m)) w1))))"

text \<open>What \<open>Extend\<close> and \<open>Unlock\<close> make of the library's answer.\<close>

definition still_owned :: "string \<Rightarrow> lock_mutex \<Rightarrow> bool \<times> goerr option \<Rightarrow> goerr option" where
  "still_owned what m answer = (case answer of
      (_, Some err) \<Rightarrow> Some (ErrWrap (what @ '' redis lock '' @ mx_Name m) err)
    | (True, None) \<Rightarrow> None
    | (False, None) \<Rightarrow> Some (ErrText (what @ '' redis lock '' @ mx_Name m @ '': lock is no longer owned'')))"

definition extend_lock :: "'w redsync \<Rightarrow> lock_mutex \<Rightarrow> 'w lock_world \<Rightarrow> goerr option \<times> 'w lock_world" where
  "extend_lock rs m w = (case on_redis (rs_Extend rs m) w of (answer, w1) \<Rightarrow> (still_owned ''extend'' m answer, w1))"

definition unlock :: "'w redsync \<Rightarrow> lock_mutex \<Rightarrow> 'w lock_world \<Rightarrow> goerr option \<times> 'w lock_world" where
  "unlock rs m w = (case on_redis (rs_Unlock rs m) w of
      (answer, w1) \<Rightarrow> (still_owned ''release'' m answer, note_event (LockReleased (mx_Name m)) w1))"

section \<open>The scheduler\<close>

text \<open>The job; without Redis there is no locker.\<close>

definition run_sample :: "'w redsync option \<Rightarrow> 'w lock_world \<Rightarrow> goerr option \<times> 'w lock_world" where
  "run_sample locker w = (case locker of
      None \<Rightarrow> (None, note_event JobExecuted w)
    | Some rs \<Rightarrow>
        (case try_lock rs ''cron:sample'' (60 * second) w of
           (Inl err, w1) \<Rightarrow> (Some err, note_event JobFailed w1)
         | (Inr None, w1) \<Rightarrow> (None, note_event JobSkipped w1)
         | (Inr (Some m), w1) \<Rightarrow>
             (case unlock rs m (note_event JobExecuted w1) of
                (Some _, w2) \<Rightarrow> (None, note_event UnlockFailed w2)
              | (None, w2) \<Rightarrow> (None, w2))))"

definition observe_cron :: "bool \<Rightarrow> string \<Rightarrow> string \<Rightarrow> 'w lock_world \<Rightarrow> 'w lock_world" where
  "observe_cron enabled job status w = (if \<not> enabled then w else note_event (CronObserved job status) w)"

definition sample_job :: "bool \<Rightarrow> 'w redsync option \<Rightarrow> 'w lock_world \<Rightarrow> 'w lock_world" where
  "sample_job metrics locker w = (case run_sample locker w of
      (err, w1) \<Rightarrow> observe_cron metrics ''sample'' (if err = None then ''success'' else ''error'') w1)"

text \<open>
  The scheduler: its time zone, the specifications of its jobs and whether it runs.  The library parses
  a specification, calls the job when it is due, recovers its panics and skips a run while one is on.
\<close>

record scheduler =
  sc_location :: string
  sc_jobs :: "string list"
  sc_running :: bool

record cron_library =
  cl_LoadLocation :: "string \<Rightarrow> goerr option"
  cl_AddFunc :: "string \<Rightarrow> goerr option"

definition new_scheduler :: "cron_library \<Rightarrow> cCron \<Rightarrow> goerr + scheduler" where
  "new_scheduler lib cfg = (case cl_LoadLocation lib (Cron_Timezone cfg) of
      Some err \<Rightarrow> Inl err
    | None \<Rightarrow>
        (let runner = \<lparr>sc_location = Cron_Timezone cfg, sc_jobs = [], sc_running = False\<rparr> in
         if Cron_SampleSpec cfg \<noteq> [] then
           (case cl_AddFunc lib (Cron_SampleSpec cfg) of
              Some err \<Rightarrow> Inl err
            | None \<Rightarrow> Inr (runner\<lparr>sc_jobs := [Cron_SampleSpec cfg]\<rparr>))
         else Inr runner))"

definition start_scheduler :: "cCron \<Rightarrow> scheduler \<Rightarrow> scheduler" where
  "start_scheduler cfg runner = (if Cron_Enabled cfg then runner\<lparr>sc_running := True\<rparr> else runner)"

text \<open>\<open>OnStop\<close> waits for a running job or the end of its context, whichever is first.\<close>

definition stop_scheduler :: "goerr option \<Rightarrow> scheduler \<Rightarrow> goerr option \<times> scheduler" where
  "stop_scheduler waited runner = (waited, runner\<lparr>sc_running := False\<rparr>)"

section \<open>The job runs under the lock\<close>

lemma note_event_events [simp]: "lw_events (note_event e w) = lw_events w @ [e]"
  by (simp add: note_event_def)

lemma on_redis_events: "on_redis f w = (r, w1) \<Longrightarrow> lw_events w1 = lw_events w"
  by (auto simp: on_redis_def split: prod.splits)

lemma try_lock_cases:
  assumes "try_lock rs key ttl w = (r, w1)" "key \<noteq> []" "0 < ttl"
  obtains (taken) m where "r = Inr (Some m)" "mx_Name m = ''lock:'' @ key" "lw_events w1 = lw_events w @ [LockTaken (''lock:'' @ key)]"
  | (held) "r = Inr None" "lw_events w1 = lw_events w @ [LockRefused (''lock:'' @ key)]"
  | (failed) err where "r = Inl err" "lw_events w1 = lw_events w @ [LockRefused (''lock:'' @ key)]"
proof -
  define m where "m = \<lparr>mx_Name = ''lock:'' @ key, mx_expiry = ttl, mx_tries = Some 1, mx_retry_delay = None\<rparr>"
  have m: "new_mutex key ttl (Some 1) None = Inr m" "mx_Name m = ''lock:'' @ key"
    using assms(2,3) by (simp_all add: new_mutex_def m_def)
  obtain e w2 where e: "on_redis (rs_TryLock rs m) w = (e, w2)" by (cases "on_redis (rs_TryLock rs m) w")
  note ev = on_redis_events [OF e]
  show thesis
  proof (cases e)
    case None
    with assms(1) m e ev show thesis by (intro taken [of m]) (auto simp: try_lock_def)
  next
    case (Some err)
    with assms(1) m e ev show thesis
      by (cases "is_contention rs err") (auto simp: try_lock_def intro: held failed)
  qed
qed

lemma unlock_events: "unlock rs m w = (r, w1) \<Longrightarrow> lw_events w1 = lw_events w @ [LockReleased (mx_Name m)]"
  by (auto simp: unlock_def dest: on_redis_events split: prod.splits)

text \<open>What one run of the job can leave: it executes only between taking and releasing its lock.\<close>

lemma run_sample_events:
  assumes "run_sample (Some rs) w = (err, w1)"
  shows "\<exists>es. lw_events w1 = lw_events w @ es \<and>
    (if err = None
     then es \<in> {[LockTaken ''lock:cron:sample'', JobExecuted, LockReleased ''lock:cron:sample''],
        [LockTaken ''lock:cron:sample'', JobExecuted, LockReleased ''lock:cron:sample'', UnlockFailed],
        [LockRefused ''lock:cron:sample'', JobSkipped]}
     else es = [LockRefused ''lock:cron:sample'', JobFailed])"
proof -
  obtain r w2 where t: "try_lock rs ''cron:sample'' (60 * second) w = (r, w2)"
    by (cases "try_lock rs ''cron:sample'' (60 * second) w")
  have "''cron:sample'' \<noteq> []" "0 < 60 * second" by (simp_all add: second_def)
  from t this show ?thesis
  proof (cases rule: try_lock_cases)
    case (taken m)
    obtain u w3 where u: "unlock rs m (note_event JobExecuted w2) = (u, w3)"
      by (cases "unlock rs m (note_event JobExecuted w2)")
    with unlock_events [OF u] taken assms t show ?thesis
      by (cases u) (auto simp: run_sample_def)
  next
    case held
    with assms t have "err = None" "w1 = note_event JobSkipped w2" by (simp_all add: run_sample_def)
    with held show ?thesis
      by (intro exI [of _ "[LockRefused ''lock:cron:sample'', JobSkipped]"]) simp
  next
    case (failed e)
    with assms t have "err = Some e" "w1 = note_event JobFailed w2" by (simp_all add: run_sample_def)
    with failed show ?thesis
      by (intro exI [of _ "[LockRefused ''lock:cron:sample'', JobFailed]"]) simp
  qed
qed

end
