(* ===== verification/Migration.thy ===== *)
theory Migration
  imports Config "HOL-Library.AList"
begin

text \<open>
  \<open>internal/migration/migration.go\<close>: the address a migration works on, the schema it creates first, and
  its run.  A MySQL address is rewritten on bytes as the code does it; \<open>net/url\<close>, the PostgreSQL driver
  and the migration library are the records \<open>pg_urls\<close> and \<open>migrator\<close>.  The world notes every call to
  the database and to the migrator.
\<close>

section \<open>Addresses\<close>

text \<open>A parsed address as the code reads and changes it; \<open>pu_rest\<close> is the rest.\<close>

record pg_url =
  pu_Path :: string
  pu_Query :: "(string \<times> string list) list"
  pu_rest :: string

record pg_urls =
  pu_Parse :: "string \<Rightarrow> goerr + pg_url"
  pu_String :: "pg_url \<Rightarrow> string"

text \<open>\<open>url.QueryEscape\<close>.\<close>

definition unreserved :: "char \<Rightarrow> bool" where
  "unreserved c \<longleftrightarrow> lower_letter c \<or> char_between (CHR ''A'') (CHR ''Z'') c \<or> digit c \<or> c \<in> set ''-_.~''"

definition upper_hex :: "nat \<Rightarrow> char" where
  "upper_hex n = ''0123456789ABCDEF'' ! n"

definition escape_char :: "char \<Rightarrow> string" where
  "escape_char c = (if unreserved c then [c] else if c = CHR '' '' then ''+''
     else [CHR ''%'', upper_hex (of_char c div 16), upper_hex (of_char c mod 16)])"

definition query_escape :: "string \<Rightarrow> string" where
  "query_escape s = concat (map escape_char s)"

text \<open>\<open>strings.LastIndex\<close> and \<open>strings.IndexByte\<close> of one byte.\<close>

definition index_byte :: "char \<Rightarrow> string \<Rightarrow> nat option" where
  "index_byte c s = (if c \<in> set s then Some (length (takeWhile (\<lambda>x. x \<noteq> c) s)) else None)"

definition last_index :: "char \<Rightarrow> string \<Rightarrow> nat option" where
  "last_index c s = (if c \<in> set s then Some (length s - 1 - length (takeWhile (\<lambda>x. x \<noteq> c) (rev s))) else None)"

definition mysql_database :: "string \<Rightarrow> string \<Rightarrow> goerr + string" where
  "mysql_database database_url database_name =
     (let path_end = (case index_byte (CHR ''?'') database_url of Some i \<Rightarrow> i | None \<Rightarrow> length database_url) in
      case last_index (CHR ''/'') (take path_end database_url) of
        None \<Rightarrow> Inl (ErrText ''mysql migration URL is missing database path'')
      | Some slash \<Rightarrow> Inr (take (slash + 1) database_url @ database_name @ drop path_end database_url))"

definition mysql_options :: "string \<Rightarrow> string \<Rightarrow> string \<Rightarrow> goerr + string" where
  "mysql_options database_url database_name table =
     (case (if database_name \<noteq> [] then mysql_database database_url database_name else Inr database_url) of
        Inl err \<Rightarrow> Inl err
      | Inr u \<Rightarrow>
          if table = [] then Inr u
          else Inr (u @ (if CHR ''?'' \<in> set u then ''&'' else ''?'') @ ''x-migrations-table='' @ query_escape table))"

definition pg_options :: "pg_urls \<Rightarrow> string \<Rightarrow> string \<Rightarrow> string \<Rightarrow> string \<Rightarrow> goerr + string" where
  "pg_options lib database_url database_name table schema = (case pu_Parse lib database_url of
      Inl err \<Rightarrow> Inl (ErrWrap ''parse migration database URL'' err)
    | Inr parsed \<Rightarrow>
        (let p1 = (if database_name \<noteq> [] then parsed\<lparr>pu_Path := CHR ''/'' # database_name\<rparr> else parsed);
             p2 = (if table \<noteq> [] then p1\<lparr>pu_Query := AList.update ''x-migrations-table'' [table] (pu_Query p1)\<rparr> else p1);
             p3 = (if schema \<noteq> [] then p2\<lparr>pu_Query := AList.update ''search_path'' [schema] (pu_Query p2)\<rparr> else p2)
         in Inr (pu_String lib p3)))"

definition with_migration_options :: "pg_urls \<Rightarrow> string \<Rightarrow> string \<Rightarrow> string \<Rightarrow> string \<Rightarrow> goerr + string" where
  "with_migration_options lib database_url database_name table schema =
     (if database_name = [] \<and> table = [] \<and> schema = [] then Inr database_url
      else if has_prefix database_url ''mysql://'' then mysql_options database_url database_name table
      else pg_options lib database_url database_name table schema)"

section \<open>The schema\<close>

datatype migration_call =
    OpenDb string | BeginTx | ExecSql string "string list" | CommitTx | RollbackTx | CloseDb
  | NewMigrator string string | Steps int | Down | Up | CloseMigrator

text \<open>The calls made so far, each with whether it succeeded.\<close>

record 'w migration_world =
  mw_ext :: 'w
  mw_calls :: "(migration_call \<times> goerr list) list"

record 'w migrator =
  mg_Abs :: "string \<Rightarrow> goerr + string"
  mg_source :: "string \<Rightarrow> string"
  mg_call :: "migration_call \<Rightarrow> 'w \<Rightarrow> goerr option \<times> 'w"
  mg_Close :: "'w \<Rightarrow> (goerr option \<times> goerr option) \<times> 'w"

definition do_call :: "'w migrator \<Rightarrow> migration_call \<Rightarrow> 'w migration_world \<Rightarrow> goerr option \<times> 'w migration_world" where
  "do_call mg c w = (case mg_call mg c (mw_ext w) of (r, n) \<Rightarrow> (r, w\<lparr>mw_ext := n, mw_calls := mw_calls w @ [(c, case r of None \<Rightarrow> [] | Some e \<Rightarrow> [e])]\<rparr>))"

definition lock_statement :: "string \<Rightarrow> migration_call" where
  "lock_statement schema = ExecSql ''SELECT pg_advisory_xact_lock(hashtext($1))'' [''audit-service:schema:'' @ schema]"

definition create_statement :: "string \<Rightarrow> migration_call" where
  "create_statement schema = ExecSql (''CREATE SCHEMA IF NOT EXISTS '' @ CHR 0x22 # schema @ [CHR 0x22]) []"

text \<open>The statements of the transaction; the deferred rollback follows an error.\<close>

definition schema_statements :: "'w migrator \<Rightarrow> string \<Rightarrow> 'w migration_world \<Rightarrow> goerr option \<times> 'w migration_world" where
  "schema_statements mg schema w = (case do_call mg (lock_statement schema) w of
      (Some err, w1) \<Rightarrow> (Some (ErrWrap ''lock schema creation'' err), w1)
    | (None, w1) \<Rightarrow> (case do_call mg (create_statement schema) w1 of
          (Some err, w2) \<Rightarrow> (Some (ErrWrap ''execute schema creation'' err), w2)
        | (None, w2) \<Rightarrow> (case do_call mg CommitTx w2 of
              (Some err, w3) \<Rightarrow> (Some (ErrWrap ''commit schema creation'' err), w3)
            | (None, w3) \<Rightarrow> (None, w3))))"

definition create_schema :: "'w migrator \<Rightarrow> string \<Rightarrow> 'w migration_world \<Rightarrow> goerr option \<times> 'w migration_world" where
  "create_schema mg schema w = (case do_call mg BeginTx w of
      (Some err, w1) \<Rightarrow> (Some (ErrWrap ''begin schema creation'' err), w1)
    | (None, w1) \<Rightarrow> (case schema_statements mg schema w1 of
          (Some err, w2) \<Rightarrow> (Some err, snd (do_call mg RollbackTx w2))
        | (None, w2) \<Rightarrow> (None, w2)))"

definition schema_wanted :: "cMigration \<Rightarrow> bool" where
  "schema_wanted cfg \<longleftrightarrow> \<not> (\<not> Migration_CreateSchema cfg \<or> Migration_Schema cfg = [] \<or>
     has_prefix (Migration_DatabaseURL cfg) ''mysql://'')"

definition schema_url :: "pg_urls \<Rightarrow> string \<Rightarrow> goerr + string" where
  "schema_url lib database_url = (case pu_Parse lib database_url of
      Inl err \<Rightarrow> Inl (ErrWrap ''parse database URL for schema creation'' err)
    | Inr parsed \<Rightarrow> Inr (pu_String lib (parsed\<lparr>pu_Query := AList.delete ''x-migrations-table'' (pu_Query parsed)\<rparr>)))"

definition ensure_schema :: "pg_urls \<Rightarrow> 'w migrator \<Rightarrow> cMigration \<Rightarrow> string \<Rightarrow> 'w migration_world
    \<Rightarrow> goerr option \<times> 'w migration_world" where
  "ensure_schema lib mg cfg database_url w =
     (if \<not> schema_wanted cfg then (None, w)
      else if \<not> valid_migration_table (Migration_Schema cfg) then (Some (ErrText ''invalid migration schema''), w)
      else (case schema_url lib database_url of
          Inl err \<Rightarrow> (Some err, w)
        | Inr u \<Rightarrow> (case do_call mg (OpenDb u) w of
              (Some err, w1) \<Rightarrow> (Some (ErrWrap ''open database to create schema'' err), w1)
            | (None, w1) \<Rightarrow> (case create_schema mg (Migration_Schema cfg) w1 of
                  (Some err, w2) \<Rightarrow>
                    (Some (ErrWrap (''create migration schema '' @ Migration_Schema cfg) err), snd (do_call mg CloseDb w2))
                | (None, w2) \<Rightarrow> (None, snd (do_call mg CloseDb w2))))))"

section \<open>Run\<close>

definition ErrNoChange :: goerr where
  "ErrNoChange = ErrVar ''no change''"

text \<open>The step asked for.\<close>

definition migration_step :: "string \<Rightarrow> int \<Rightarrow> migration_call" where
  "migration_step direction steps = (if steps \<noteq> 0 then Steps steps else if direction = ''down'' then Down else Up)"

text \<open>
  The result is the list of errors \<open>errors.Join\<close> puts together, empty for nil: what the step came to,
  then what closing reported.
\<close>

definition close_migrator :: "'w migrator \<Rightarrow> goerr list \<Rightarrow> 'w migration_world \<Rightarrow> goerr list \<times> 'w migration_world" where
  "close_migrator mg errs w = (case mg_Close mg (mw_ext w) of ((source_err, database_err), n) \<Rightarrow>
     (let reported = (case source_err of Some e \<Rightarrow> [ErrWrap ''close migration source'' e] | None \<Rightarrow> [])
        @ (case database_err of Some e \<Rightarrow> [ErrWrap ''close migration database'' e] | None \<Rightarrow> [])
      in (errs @ reported, w\<lparr>mw_ext := n, mw_calls := mw_calls w @ [(CloseMigrator, reported)]\<rparr>)))"

definition run_migrator :: "'w migrator \<Rightarrow> string \<Rightarrow> string \<Rightarrow> migration_call \<Rightarrow> 'w migration_world
    \<Rightarrow> goerr list \<times> 'w migration_world" where
  "run_migrator mg source database_url step w = (case do_call mg (NewMigrator source database_url) w of
      (Some err, w1) \<Rightarrow> ([ErrWrap ''create migrator'' err], w1)
    | (None, w1) \<Rightarrow> (case do_call mg step w1 of
          (Some err, w2) \<Rightarrow>
            close_migrator mg (if \<not> errors_is err ErrNoChange then [ErrWrap ''run migration'' err] else []) w2
        | (None, w2) \<Rightarrow> close_migrator mg [] w2))"

definition run_migration :: "pg_urls \<Rightarrow> 'w migrator \<Rightarrow> cMigration \<Rightarrow> string \<Rightarrow> int \<Rightarrow> 'w migration_world
    \<Rightarrow> goerr list \<times> 'w migration_world" where
  "run_migration lib mg cfg direction steps w =
     (if Migration_DatabaseURL cfg = [] then ([ErrText ''migration.database_url is required''], w)
      else (case mg_Abs mg (Migration_Path cfg) of
          Inl err \<Rightarrow> ([ErrWrap ''resolve migration path'' err], w)
        | Inr abs_path \<Rightarrow>
            (case with_migration_options lib (Migration_DatabaseURL cfg) (Migration_DatabaseName cfg) (Migration_Table cfg)
                (Migration_Schema cfg) of
               Inl err \<Rightarrow> ([err], w)
             | Inr u \<Rightarrow> (case ensure_schema lib mg cfg u w of
                   (Some err, w1) \<Rightarrow> ([err], w1)
                 | (None, w1) \<Rightarrow> run_migrator mg (mg_source mg abs_path) u (migration_step direction steps) w1))))"

end
