(* ===== verification/Outbound_Registry.thy ===== *)
theory Outbound_Registry
  imports Outbound_Http Outbound_Grpc
begin

text \<open>
  \<open>internal/outbound/registry.go\<close>: the clients of the configured services by their names, made once
  when the service starts and closed when it stops or when making one of them fails.  A map is the list
  of its entries in the order a \<open>range\<close> visits them, and its names are distinct.
\<close>

record registry =
  rg_http :: "(string \<times> http_client) list"
  rg_grpc :: "(string \<times> grpc_connection) list"

text \<open>What closing does: the idle connections of HTTP clients and the connections of gRPC clients.\<close>

record 'w closer =
  cl_idle :: "http_client \<Rightarrow> 'w \<Rightarrow> 'w"
  cl_close :: "grpc_connection \<Rightarrow> 'w \<Rightarrow> goerr option \<times> 'w"

fun close_connections :: "'w closer \<Rightarrow> (string \<times> grpc_connection) list \<Rightarrow> goerr option \<Rightarrow> 'w \<Rightarrow> goerr option \<times> 'w" where
  "close_connections cl [] close_err w = (close_err, w)"
| "close_connections cl ((name, conn) # rest) close_err w = (case cl_close cl conn w of (err, w1) \<Rightarrow>
     close_connections cl rest
       (case err of
          Some e \<Rightarrow> if close_err = None then Some (ErrWrap (''close outbound gRPC client '' @ name) e) else close_err
        | None \<Rightarrow> close_err) w1)"

definition registry_close :: "'w closer \<Rightarrow> registry \<Rightarrow> 'w \<Rightarrow> goerr option \<times> 'w" where
  "registry_close cl r w =
     close_connections cl (rg_grpc r) None (fold (\<lambda>(name, client) w. cl_idle cl client w) (rg_http r) w)"

definition registry_http :: "registry \<Rightarrow> string \<Rightarrow> http_client option" where
  "registry_http r name = map_of (rg_http r) name"

definition registry_grpc :: "registry \<Rightarrow> string \<Rightarrow> grpc_connection option" where
  "registry_grpc r name = map_of (rg_grpc r) name"

definition grpc_client_of :: "string \<Rightarrow> cGRPCUpstream \<Rightarrow> bool option \<Rightarrow> grpc_client_config" where
  "grpc_client_of name u metrics = (let tls = GRPCUpstream_TLS u; auth = GRPCUpstream_Auth u in
     \<lparr>gk_Target = GRPCUpstream_Target u, gk_Timeout = GRPCUpstream_Timeout u,
      gk_Token = (if ClientAuth_Type auth = ''bearer'' then ClientAuth_Token auth else []),
      gk_PSK = (if ClientAuth_Type auth = ''psk'' then ClientAuth_Token auth else []),
      gk_TLS = \<lparr>gt_Enabled = ClientTLS_Enabled tls, gt_ServerName = ClientTLS_ServerName tls, gt_CAFile = ClientTLS_CAFile tls,
        gt_CertFile = ClientTLS_CertFile tls, gt_KeyFile = ClientTLS_KeyFile tls,
        gt_AllowInsecureToken = ClientTLS_AllowInsecure tls\<rparr>,
      gk_Name = name, gk_Retry = GRPCUpstream_Retry u, gk_Breaker = GRPCUpstream_Breaker u, gk_Metrics = metrics\<rparr>)"

text \<open>Making the clients one after the other; a failure closes those made before.\<close>

fun add_http :: "'v http_net \<Rightarrow> tls_files \<Rightarrow> 'w closer \<Rightarrow> bool option \<Rightarrow> (string \<times> cHTTPUpstream) list \<Rightarrow> registry
    \<Rightarrow> 'w \<Rightarrow> (goerr + registry) \<times> 'w" where
  "add_http net fs cl metrics [] r w = (Inr r, w)"
| "add_http net fs cl metrics ((name, u) # rest) r w = (case new_http_client net fs name u metrics of
     Inl err \<Rightarrow> (Inl (ErrWrap (''create outbound HTTP client '' @ name) err), snd (registry_close cl r w))
   | Inr client \<Rightarrow> add_http net fs cl metrics rest (r\<lparr>rg_http := rg_http r @ [(name, client)]\<rparr>) w)"

fun add_grpc :: "('v, 'q, 'r) grpc_net \<Rightarrow> tls_files \<Rightarrow> 'w closer \<Rightarrow> bool option \<Rightarrow> (string \<times> cGRPCUpstream) list \<Rightarrow> registry
    \<Rightarrow> 'w \<Rightarrow> (goerr + registry) \<times> 'w" where
  "add_grpc net fs cl metrics [] r w = (Inr r, w)"
| "add_grpc net fs cl metrics ((name, u) # rest) r w = (case dial_grpc net fs (grpc_client_of name u metrics) of
     Inl err \<Rightarrow> (Inl (ErrWrap (''create outbound gRPC client '' @ name) err), snd (registry_close cl r w))
   | Inr conn \<Rightarrow> add_grpc net fs cl metrics rest (r\<lparr>rg_grpc := rg_grpc r @ [(name, conn)]\<rparr>) w)"

definition new_registry :: "'v http_net \<Rightarrow> ('u, 'q, 'r) grpc_net \<Rightarrow> tls_files \<Rightarrow> 'w closer \<Rightarrow> cOutbound \<Rightarrow> bool option
    \<Rightarrow> 'w \<Rightarrow> (goerr + registry) \<times> 'w" where
  "new_registry hnet gnet fs cl cfg metrics w =
     (case add_http hnet fs cl metrics (Outbound_HTTP cfg) \<lparr>rg_http = [], rg_grpc = []\<rparr> w of
        (Inl err, w1) \<Rightarrow> (Inl err, w1)
      | (Inr r, w1) \<Rightarrow> add_grpc gnet fs cl metrics (Outbound_GRPC cfg) r w1)"

section \<open>What a registry holds\<close>

lemma add_http_Inr:
  assumes "add_http net fs cl metrics us r w = (Inr r1, w1)"
  shows "\<exists>cs. rg_http r1 = rg_http r @ cs \<and> rg_grpc r1 = rg_grpc r \<and> w1 = w \<and>
     list_all2 (\<lambda>(name, u) (name', c). name' = name \<and> new_http_client net fs name u metrics = Inr c) us cs"
  using assms
proof (induction us arbitrary: r)
  case Nil
  then show ?case by simp
next
  case (Cons entry us)
  obtain name u where e: "entry = (name, u)" by (cases entry)
  with Cons.prems obtain c where c: "new_http_client net fs name u metrics = Inr c"
    and "add_http net fs cl metrics us (r\<lparr>rg_http := rg_http r @ [(name, c)]\<rparr>) w = (Inr r1, w1)"
    by (auto split: sum.splits)
  from Cons.IH [OF this(2)] obtain cs where "rg_http r1 = rg_http r @ (name, c) # cs" "rg_grpc r1 = rg_grpc r" "w1 = w"
    "list_all2 (\<lambda>(name, u) (name', c). name' = name \<and> new_http_client net fs name u metrics = Inr c) us cs" by auto
  with c e show ?case by (intro exI [of _ "(name, c) # cs"]) auto
qed

lemma add_grpc_Inr:
  assumes "add_grpc net fs cl metrics us r w = (Inr r1, w1)"
  shows "\<exists>cs. rg_grpc r1 = rg_grpc r @ cs \<and> rg_http r1 = rg_http r \<and> w1 = w \<and>
     list_all2 (\<lambda>(name, u) (name', c). name' = name \<and> dial_grpc net fs (grpc_client_of name u metrics) = Inr c) us cs"
  using assms
proof (induction us arbitrary: r)
  case Nil
  then show ?case by simp
next
  case (Cons entry us)
  obtain name u where e: "entry = (name, u)" by (cases entry)
  with Cons.prems obtain c where c: "dial_grpc net fs (grpc_client_of name u metrics) = Inr c"
    and "add_grpc net fs cl metrics us (r\<lparr>rg_grpc := rg_grpc r @ [(name, c)]\<rparr>) w = (Inr r1, w1)"
    by (auto split: sum.splits)
  from Cons.IH [OF this(2)] obtain cs where "rg_grpc r1 = rg_grpc r @ (name, c) # cs" "rg_http r1 = rg_http r" "w1 = w"
    "list_all2 (\<lambda>(name, u) (name', c). name' = name \<and> dial_grpc net fs (grpc_client_of name u metrics) = Inr c) us cs" by auto
  with c e show ?case by (intro exI [of _ "(name, c) # cs"]) auto
qed

lemma map_of_list_all2:
  assumes "list_all2 (\<lambda>(n, u) (n', c). n' = n \<and> f n u = Inr c) us cs" "map_of us name = Some u"
  shows "\<exists>c. map_of cs name = Some c \<and> f name u = Inr c"
  using assms by (induction us cs rule: list_all2_induct) (auto split: if_splits)

text \<open>
  A registry that was made holds a client for every configured service, made from its settings, and
  none of them is closed.
\<close>

lemma registry_complete:
  assumes "new_registry hnet gnet fs cl cfg metrics w = (Inr r, w1)"
  shows "w1 = w"
    "map_of (Outbound_HTTP cfg) name = Some u \<Longrightarrow>
       \<exists>c. registry_http r name = Some c \<and> new_http_client hnet fs name u metrics = Inr c"
    "map_of (Outbound_GRPC cfg) name = Some v \<Longrightarrow>
       \<exists>c. registry_grpc r name = Some c \<and> dial_grpc gnet fs (grpc_client_of name v metrics) = Inr c"
proof -
  from assms obtain r0 w0 where h: "add_http hnet fs cl metrics (Outbound_HTTP cfg) \<lparr>rg_http = [], rg_grpc = []\<rparr> w = (Inr r0, w0)"
    and g: "add_grpc gnet fs cl metrics (Outbound_GRPC cfg) r0 w0 = (Inr r, w1)"
    by (auto simp: new_registry_def split: prod.splits sum.splits)
  from add_http_Inr [OF h] add_grpc_Inr [OF g] obtain hs gs where *: "w1 = w" "rg_http r = hs" "rg_grpc r = gs"
    "list_all2 (\<lambda>(name, u) (name', c). name' = name \<and> new_http_client hnet fs name u metrics = Inr c) (Outbound_HTTP cfg) hs"
    "list_all2 (\<lambda>(name, u) (name', c). name' = name \<and> dial_grpc gnet fs (grpc_client_of name u metrics) = Inr c) (Outbound_GRPC cfg) gs"
    by auto
  then show "w1 = w"
    "map_of (Outbound_HTTP cfg) name = Some u \<Longrightarrow>
       \<exists>c. registry_http r name = Some c \<and> new_http_client hnet fs name u metrics = Inr c"
    "map_of (Outbound_GRPC cfg) name = Some v \<Longrightarrow>
       \<exists>c. registry_grpc r name = Some c \<and> dial_grpc gnet fs (grpc_client_of name v metrics) = Inr c"
    using map_of_list_all2 [OF *(4)] map_of_list_all2 [OF *(5)] by (auto simp: registry_http_def registry_grpc_def)
qed

end
