(* ===== verification/Startup.thy ===== *)
theory Startup
  imports Config_Facts Database_Open Locks Migration_Facts Outbound_Registry Sql_Database
begin

text \<open>
  \<open>internal/app/app.go\<close>, \<open>internal/app/application.go\<close>, \<open>internal/authorization/provider.go\<close> and the
  two commands: what a process makes of its configuration before it serves.  Dependency injection calls
  the constructors in the order of the modules; \<open>start_up\<close> is that order for those of this repository's
  stores, clients and jobs.  The logger, the tracing, the policy compiler and the servers may refuse to
  start as well, so a process that serves has passed at least these.  The libraries are the fields of
  \<open>platform\<close>, over one world.
\<close>

section \<open>Constructors\<close>

record ('v, 'u, 'q, 'r, 'w) platform =
  pf_urls :: pg_urls
  pf_migrator :: "'w migrator"
  pf_database :: "'w db_library"
  pf_redis :: "'w redis_library"
  pf_instrument :: "redis_options \<Rightarrow> goerr option"
  pf_http :: "'v http_net"
  pf_grpc :: "('u, 'q, 'r) grpc_net"
  pf_files :: tls_files
  pf_closer :: "'w closer"
  pf_cron :: cron_library

text \<open>A startup error is the list of its messages, the outer ones first.\<close>

definition run_startup_migration :: "('v, 'u, 'q, 'r, 'w) platform \<Rightarrow> cConfig \<Rightarrow> 'w migration_world
    \<Rightarrow> goerr list \<times> 'w migration_world" where
  "run_startup_migration pf cfg w =
     (if \<not> Migration_AutoUp (Config_Migration cfg) then ([], w)
      else (case run_migration (pf_urls pf) (pf_migrator pf) (Config_Migration cfg) ''up'' 0 w of
          ([], w1) \<Rightarrow> ([], w1)
        | (err # errs, w1) \<Rightarrow> (ErrText ''startup database migration'' # err # errs, w1)))"

definition new_database :: "('v, 'u, 'q, 'r, 'w) platform \<Rightarrow> cConfig \<Rightarrow> 'w \<Rightarrow> (goerr + db_handle option) \<times> 'w" where
  "new_database pf cfg w =
     (if \<not> Database_Enabled (Config_Database cfg) then (Inr None, w)
      else (case open_database (pf_database pf) (Config_Database cfg) w of
          (Inl err, w1) \<Rightarrow> (Inl err, w1)
        | (Inr db, w1) \<Rightarrow> (Inr (Some db), w1)))"

definition new_redis :: "('v, 'u, 'q, 'r, 'w) platform \<Rightarrow> cConfig \<Rightarrow> 'w \<Rightarrow> (goerr + redis_options option) \<times> 'w" where
  "new_redis pf cfg w =
     (if \<not> Redis_Enabled (Config_Redis cfg) then (Inr None, w)
      else (case open_redis (pf_redis pf) (Config_Redis cfg) w of
          (Inl err, w1) \<Rightarrow> (Inl err, w1)
        | (Inr client, w1) \<Rightarrow>
            if Observability_TracingEnabled (Config_Observability cfg) then
              (case pf_instrument pf client of
                 Some err \<Rightarrow> (Inl (ErrWrap ''instrument redis tracing'' err), rd_Close (pf_redis pf) client w1)
               | None \<Rightarrow> (Inr (Some client), w1))
            else (Inr (Some client), w1)))"

text \<open>A locker is its client; without one there is none.\<close>

datatype locker = Locker redis_options

definition new_locker :: "redis_options option \<Rightarrow> locker option" where
  "new_locker client = (case client of None \<Rightarrow> None | Some c \<Rightarrow> Some (Locker c))"

datatype verifier = AllowAll | GrpcVerifier grpc_connection duration

definition new_application_verifier :: "cConfig \<Rightarrow> registry option \<Rightarrow> goerr + verifier" where
  "new_application_verifier cfg registry =
     (if \<not> Database_Enabled (Config_Database cfg) then Inr AllowAll
      else (case registry of
          None \<Rightarrow> Inl (ErrText ''audit service requires outbound registry'')
        | Some r \<Rightarrow>
            (case registry_grpc r ''application'' of
               None \<Rightarrow> Inl (ErrText ''audit service requires outbound.grpc.application'')
             | Some connection \<Rightarrow> Inr (GrpcVerifier connection (2 * second)))))"

text \<open>What a verifier answers; \<open>ask\<close> is the platform's client of the application service.\<close>

definition verifier_verify :: "(grpc_connection \<Rightarrow> duration \<Rightarrow> string \<Rightarrow> string \<Rightarrow> 's \<Rightarrow> goerr option \<times> 's) \<Rightarrow> verifier
    \<Rightarrow> string \<Rightarrow> string \<Rightarrow> 's \<Rightarrow> goerr option \<times> 's" where
  "verifier_verify ask v tenant_id application_id w = (case v of
      AllowAll \<Rightarrow> (None, w)
    | GrpcVerifier connection timeout \<Rightarrow> ask connection timeout tenant_id application_id w)"

text \<open>An authorizer and the connection it asks; without one it refuses.\<close>

datatype grpc_authorizer = GrpcAuthorizer "grpc_connection option" duration

definition new_authorizer :: "registry \<Rightarrow> grpc_authorizer" where
  "new_authorizer registry = (case registry_grpc registry ''authorization'' of
      None \<Rightarrow> GrpcAuthorizer None (2 * second)
    | Some connection \<Rightarrow> GrpcAuthorizer (Some connection) (2 * second))"

section \<open>Starting\<close>

record started =
  st_db :: "db_handle option"
  st_redis :: "redis_options option"
  st_locker :: "locker option"
  st_registry :: registry
  st_verifier :: verifier
  st_authorizer :: grpc_authorizer
  st_scheduler :: scheduler

definition start_clients :: "('v, 'u, 'q, 'r, 'w) platform \<Rightarrow> cConfig \<Rightarrow> db_handle option \<Rightarrow> redis_options option
    \<Rightarrow> 'w \<Rightarrow> (goerr + started) \<times> 'w" where
  "start_clients pf cfg db client w =
     (case new_registry (pf_http pf) (pf_grpc pf) (pf_files pf) (pf_closer pf) (Config_Outbound cfg)
         (Some (Observability_MetricsEnabled (Config_Observability cfg))) w of
        (Inl err, w1) \<Rightarrow> (Inl err, w1)
      | (Inr registry, w1) \<Rightarrow>
          (case new_application_verifier cfg (Some registry) of
             Inl err \<Rightarrow> (Inl err, w1)
           | Inr verifier \<Rightarrow>
               (case new_scheduler (pf_cron pf) (Config_Cron cfg) of
                  Inl err \<Rightarrow> (Inl err, w1)
                | Inr runner \<Rightarrow> (Inr \<lparr>st_db = db, st_redis = client, st_locker = new_locker client, st_registry = registry,
                    st_verifier = verifier, st_authorizer = new_authorizer registry, st_scheduler = runner\<rparr>, w1))))"

definition start_stores :: "('v, 'u, 'q, 'r, 'w) platform \<Rightarrow> cConfig \<Rightarrow> 'w \<Rightarrow> (goerr + started) \<times> 'w" where
  "start_stores pf cfg w = (case new_database pf cfg w of
      (Inl err, w1) \<Rightarrow> (Inl err, w1)
    | (Inr db, w1) \<Rightarrow>
        (case new_redis pf cfg w1 of
           (Inl err, w2) \<Rightarrow> (Inl err, w2)
         | (Inr client, w2) \<Rightarrow> start_clients pf cfg db client w2))"

text \<open>The migration comes before anything connects.\<close>

definition start_up :: "('v, 'u, 'q, 'r, 'w) platform \<Rightarrow> cConfig \<Rightarrow> 'w migration_world
    \<Rightarrow> (goerr list + started) \<times> 'w migration_world" where
  "start_up pf cfg w = (case run_startup_migration pf cfg w of
      (err # errs, w1) \<Rightarrow> (Inl (err # errs), w1)
    | ([], w1) \<Rightarrow>
        (case start_stores pf cfg (mw_ext w1) of
           (Inl err, n) \<Rightarrow> (Inl [err], w1\<lparr>mw_ext := n\<rparr>)
         | (Inr st, n) \<Rightarrow> (Inr st, w1\<lparr>mw_ext := n\<rparr>)))"

text \<open>The driver name the transactor reads.\<close>

definition transactor :: "started \<Rightarrow> string option" where
  "transactor st = map_option dh_driver (st_db st)"

section \<open>The commands\<close>

datatype api_outcome = VersionShown | ApiExit int | Serving started

text \<open>\<open>cmd/api\<close>; the application's \<open>Run\<close> exits with 1 when it does not start.\<close>

definition api_main :: "config_source \<Rightarrow> ('v, 'u, 'q, 'r, 'w) platform \<Rightarrow> string \<Rightarrow> string \<Rightarrow> bool \<Rightarrow> 'w migration_world
    \<Rightarrow> api_outcome \<times> 'w migration_world" where
  "api_main src pf config_path profile show_version w =
     (if show_version then (VersionShown, w)
      else (case load_with_profile src config_path profile of
          Inl err \<Rightarrow> (ApiExit 1, w)
        | Inr cfg \<Rightarrow> (case start_up pf cfg w of (Inl errs, w1) \<Rightarrow> (ApiExit 1, w1) | (Inr st, w1) \<Rightarrow> (Serving st, w1))))"

text \<open>\<open>cmd/migrate\<close>: its exit code.\<close>

definition migrate_main :: "config_source \<Rightarrow> pg_urls \<Rightarrow> 'w migrator \<Rightarrow> string \<Rightarrow> string \<Rightarrow> string \<Rightarrow> int \<Rightarrow> 'w migration_world
    \<Rightarrow> int \<times> 'w migration_world" where
  "migrate_main src lib mg config_path profile direction steps w =
     (if direction \<noteq> ''up'' \<and> direction \<noteq> ''down'' then (2, w)
      else (case load_with_profile src config_path profile of
          Inl err \<Rightarrow> (1, w)
        | Inr cfg \<Rightarrow> (case run_migration lib mg (Config_Migration cfg) direction steps w of
              (errs, w1) \<Rightarrow> (if errs \<noteq> [] then 1 else 0, w1))))"

section \<open>What a started service is\<close>

lemma start_up_Inr:
  assumes "start_up pf cfg w = (Inr st, w1)"
  obtains n n1 n2 w2 where "run_startup_migration pf cfg w = ([], w2)" "new_database pf cfg (mw_ext w2) = (Inr (st_db st), n1)"
    "new_redis pf cfg n1 = (Inr (st_redis st), n2)" "st_locker st = new_locker (st_redis st)"
    "new_registry (pf_http pf) (pf_grpc pf) (pf_files pf) (pf_closer pf) (Config_Outbound cfg)
       (Some (Observability_MetricsEnabled (Config_Observability cfg))) n2 = (Inr (st_registry st), n)"
    "new_application_verifier cfg (Some (st_registry st)) = Inr (st_verifier st)"
    "st_authorizer st = new_authorizer (st_registry st)" "mw_calls w1 = mw_calls w2"
proof -
  obtain errs w2 where m: "run_startup_migration pf cfg w = (errs, w2)" by (cases "run_startup_migration pf cfg w")
  with assms obtain n where errs: "errs = []" and s: "start_stores pf cfg (mw_ext w2) = (Inr st, n)" and calls: "mw_calls w1 = mw_calls w2"
    by (auto simp: start_up_def split: list.splits prod.splits sum.splits)
  from s obtain db n1 client n2 where d: "new_database pf cfg (mw_ext w2) = (Inr db, n1)" "new_redis pf cfg n1 = (Inr client, n2)"
    and c: "start_clients pf cfg db client n2 = (Inr st, n)"
    by (auto simp: start_stores_def split: prod.splits sum.splits)
  from c show thesis
    using that [of w2 n1 n2 n] m errs calls d
    by (auto simp: start_clients_def split: prod.splits sum.splits)
qed

lemma new_database_Inr:
  assumes "new_database pf cfg w = (Inr db, w1)"
  shows "(Database_Enabled (Config_Database cfg) \<longleftrightarrow> db \<noteq> None) \<and>
    (\<forall>h. db = Some h \<longrightarrow> dh_driver h \<in> {''mysql'', ''pgx''} \<and> connects_to (Config_Database cfg) (dh_connection h))"
  using assms by (auto simp: new_database_def split: if_splits prod.splits sum.splits dest: open_database_Inr)

lemma new_redis_Inr: "new_redis pf cfg w = (Inr client, w1) \<Longrightarrow> Redis_Enabled (Config_Redis cfg) \<longleftrightarrow> client \<noteq> None"
  by (auto simp: new_redis_def split: if_splits prod.splits sum.splits option.splits)

lemma run_startup_migration_ok:
  assumes "run_startup_migration pf cfg w = ([], w1)"
  shows "if Migration_AutoUp (Config_Migration cfg)
    then run_migration (pf_urls pf) (pf_migrator pf) (Config_Migration cfg) ''up'' 0 w = ([], w1) else w1 = w"
  using assms by (auto simp: run_startup_migration_def split: if_splits prod.splits list.splits)

end
