(* ===== verification/Startup_Facts.thy ===== *)
theory Startup_Facts
  imports Startup
begin

text \<open>
  What a process that serves has checked and connected, and what that means for its transactions.
\<close>

section \<open>The pieces\<close>

lemma validated_settings:
  assumes "validate cfg = None"
  shows "Database_Enabled (Config_Database cfg) \<Longrightarrow> \<exists>u. map_of (Outbound_GRPC (Config_Outbound cfg)) ''application'' = Some u"
    "Authorization_Enabled (Config_Authorization cfg) \<Longrightarrow> \<exists>u. map_of (Outbound_GRPC (Config_Outbound cfg)) ''authorization'' = Some u"
    "RateLimit_Enabled (Config_RateLimit cfg) \<or> Idempotency_Enabled (Config_Idempotency cfg) \<Longrightarrow> Redis_Enabled (Config_Redis cfg)"
    "Migration_AutoUp (Config_Migration cfg) \<Longrightarrow> Database_Enabled (Config_Database cfg)"
proof -
  from assms have s: "all_pass (server_checks cfg)" "all_pass (security_checks cfg)" "all_pass (idempotency_checks cfg)"
    unfolding validate_None by blast+
  from s(1) show "Database_Enabled (Config_Database cfg) \<Longrightarrow> \<exists>u. map_of (Outbound_GRPC (Config_Outbound cfg)) ''application'' = Some u"
    "Migration_AutoUp (Config_Migration cfg) \<Longrightarrow> Database_Enabled (Config_Database cfg)"
    by (simp_all add: server_checks_def Let_def)
  from s(2) show "Authorization_Enabled (Config_Authorization cfg) \<Longrightarrow> \<exists>u. map_of (Outbound_GRPC (Config_Outbound cfg)) ''authorization'' = Some u"
    by (simp add: security_checks_def Let_def)
  from s(1,3) show "RateLimit_Enabled (Config_RateLimit cfg) \<or> Idempotency_Enabled (Config_Idempotency cfg) \<Longrightarrow> Redis_Enabled (Config_Redis cfg)"
    by (auto simp: server_checks_def idempotency_checks_def Let_def)
qed

lemma startup_migration_calls:
  assumes "run_startup_migration pf cfg w = ([], w1)"
  shows "if Migration_AutoUp (Config_Migration cfg)
    then \<exists>schema src u answer. mw_calls w1 = mw_calls w @ schema @ [(NewMigrator src u, []), (Up, answer), (CloseMigrator, [])] \<and> step_done answer
    else mw_calls w1 = mw_calls w"
proof (cases "Migration_AutoUp (Config_Migration cfg)")
  case True
  with run_startup_migration_ok [OF assms]
  have "run_migration (pf_urls pf) (pf_migrator pf) (Config_Migration cfg) ''up'' 0 w = ([], w1)" by simp
  from run_migration_calls [OF this] True show ?thesis by (auto simp: migration_step_def)
qed (use run_startup_migration_ok [OF assms] in simp)

text \<open>The clients the verifier and the authorizer ask are those of the configured services.\<close>

lemma verifier_guards:
  assumes "new_registry hnet gnet fs cl (Config_Outbound cfg) metrics w = (Inr r, w1)"
    "new_application_verifier cfg (Some r) = Inr v" "validate cfg = None"
  shows "if Database_Enabled (Config_Database cfg)
    then \<exists>u conn. map_of (Outbound_GRPC (Config_Outbound cfg)) ''application'' = Some u \<and>
      dial_grpc gnet fs (grpc_client_of ''application'' u metrics) = Inr conn \<and> v = GrpcVerifier conn (2 * second)
    else v = AllowAll"
proof (cases "Database_Enabled (Config_Database cfg)")
  case True
  from validated_settings(1) [OF assms(3) True] obtain u where u: "map_of (Outbound_GRPC (Config_Outbound cfg)) ''application'' = Some u" ..
  from registry_complete(3) [OF assms(1) this] obtain conn where "registry_grpc r ''application'' = Some conn"
    "dial_grpc gnet fs (grpc_client_of ''application'' u metrics) = Inr conn" by blast
  with u True assms(2) show ?thesis by (simp add: new_application_verifier_def)
qed (use assms(2) in \<open>simp add: new_application_verifier_def\<close>)

lemma authorizer_guards:
  assumes "new_registry hnet gnet fs cl (Config_Outbound cfg) metrics w = (Inr r, w1)" "validate cfg = None"
    "Authorization_Enabled (Config_Authorization cfg)"
  shows "\<exists>u conn. map_of (Outbound_GRPC (Config_Outbound cfg)) ''authorization'' = Some u \<and>
      dial_grpc gnet fs (grpc_client_of ''authorization'' u metrics) = Inr conn \<and>
      new_authorizer r = GrpcAuthorizer (Some conn) (2 * second)"
proof -
  from validated_settings(2) [OF assms(2,3)] obtain u where u: "map_of (Outbound_GRPC (Config_Outbound cfg)) ''authorization'' = Some u" ..
  from registry_complete(3) [OF assms(1) this] u show ?thesis by (auto simp: new_authorizer_def)
qed

section \<open>A serving process\<close>

lemma api_main_Serving:
  assumes "api_main src pf config_path profile show_version w = (Serving st, w1)"
  obtains cfg where "load_with_profile src config_path profile = Inr cfg" "start_up pf cfg w = (Inr st, w1)"
  using assms by (auto simp: api_main_def split: if_splits sum.splits prod.splits)

text \<open>
  C32. A process that serves has loaded a configuration that passed its checks and is guarded as that
  asks: with the database on it has an open database in the configured database, schema and time zone,
  and every application it serves is asked for at the connection dialled to the configured application
  service, while only a service without a database lets every application through; with authorization on
  it asks the configured authorization service; rate limits and idempotency have their Redis; and the
  migrations asked for have run and been closed before.
\<close>

theorem serving_is_guarded:
  assumes "api_main src pf config_path profile show_version w = (Serving st, w1)"
  shows "\<exists>cfg metrics. load_with_profile src config_path profile = Inr cfg \<and> validate cfg = None \<and>
     (if Database_Enabled (Config_Database cfg) then
        (\<exists>h. st_db st = Some h \<and> connects_to (Config_Database cfg) (dh_connection h)) \<and>
        (\<exists>u conn. map_of (Outbound_GRPC (Config_Outbound cfg)) ''application'' = Some u \<and>
           dial_grpc (pf_grpc pf) (pf_files pf) (grpc_client_of ''application'' u metrics) = Inr conn \<and>
           st_verifier st = GrpcVerifier conn (2 * second))
      else st_db st = None \<and> st_verifier st = AllowAll) \<and>
     (Authorization_Enabled (Config_Authorization cfg) \<longrightarrow>
        (\<exists>u conn. map_of (Outbound_GRPC (Config_Outbound cfg)) ''authorization'' = Some u \<and>
           dial_grpc (pf_grpc pf) (pf_files pf) (grpc_client_of ''authorization'' u metrics) = Inr conn \<and>
           st_authorizer st = GrpcAuthorizer (Some conn) (2 * second))) \<and>
     (RateLimit_Enabled (Config_RateLimit cfg) \<or> Idempotency_Enabled (Config_Idempotency cfg) \<longrightarrow> st_redis st \<noteq> None) \<and>
     (if Migration_AutoUp (Config_Migration cfg) then
        (\<exists>schema src u answer. mw_calls w1 = mw_calls w @ schema @ [(NewMigrator src u, []), (Up, answer), (CloseMigrator, [])] \<and> step_done answer)
      else mw_calls w1 = mw_calls w)"
proof -
  from api_main_Serving [OF assms] obtain cfg where load: "load_with_profile src config_path profile = Inr cfg"
    and start: "start_up pf cfg w = (Inr st, w1)" .
  note valid = load_with_profile_valid [OF load]
  from start_up_Inr [OF start] obtain n n1 n2 w2 where s: "run_startup_migration pf cfg w = ([], w2)"
    "new_database pf cfg (mw_ext w2) = (Inr (st_db st), n1)" "new_redis pf cfg n1 = (Inr (st_redis st), n2)"
    "new_registry (pf_http pf) (pf_grpc pf) (pf_files pf) (pf_closer pf) (Config_Outbound cfg)
       (Some (Observability_MetricsEnabled (Config_Observability cfg))) n2 = (Inr (st_registry st), n)"
    "new_application_verifier cfg (Some (st_registry st)) = Inr (st_verifier st)"
    "st_authorizer st = new_authorizer (st_registry st)" "mw_calls w1 = mw_calls w2" by metis
  show ?thesis
  proof (intro exI [of _ cfg] exI [of _ "Some (Observability_MetricsEnabled (Config_Observability cfg))"] conjI load valid)
  qed (use new_database_Inr [OF s(2)] verifier_guards [OF s(4,5) valid] authorizer_guards [OF s(4) valid] s(6,7)
      new_redis_Inr [OF s(3)] validated_settings(3) [OF valid] startup_migration_calls [OF s(1)] in \<open>auto split: if_splits\<close>)
qed

text \<open>A production configuration with everything on, and libraries and services that all answer.\<close>

definition ex_all :: cConfig where
  "ex_all = ex_production\<lparr>
     Config_Database := (Config_Database ex_production)\<lparr>Database_Enabled := True, Database_Type := ''postgres'', Database_DSN := ''d''\<rparr>,
     Config_Migration := (Config_Migration ex_production)\<lparr>Migration_AutoUp := True, Migration_DatabaseURL := ''postgres://db/app''\<rparr>,
     Config_Redis := (Config_Redis ex_production)\<lparr>Redis_Enabled := True\<rparr>,
     Config_Outbound := \<lparr>Outbound_HTTP = [], Outbound_GRPC = [(''authorization'', ex_client), (''application'', ex_client)]\<rparr>\<rparr>"

definition ex_all_source :: config_source where
  "ex_all_source = ex_source\<lparr>cs_decode := (\<lambda>files profile. Inr ex_all)\<rparr>"

definition ex_platform :: "(unit, unit, unit, unit, unit) platform" where
  "ex_platform = \<lparr>pf_urls = ex_urls, pf_migrator = ex_migrator,
     pf_database = \<lparr>dl_pgParse = (\<lambda>dsn. Inr \<lparr>pg_Database = [], pg_RuntimeParams = [], pg_rest = dsn\<rparr>), dl_myParse = (\<lambda>dsn. Inl (ErrText dsn)),
       dl_LoadLocation = (\<lambda>_. None), dl_Open = (\<lambda>_ _. None), dl_Ping = (\<lambda>_ _ w. (None, w)), dl_Close = (\<lambda>_ w. w)\<rparr>,
     pf_redis = \<lparr>rd_Ping = (\<lambda>_ w. (None, w)), rd_Close = (\<lambda>_ w. w)\<rparr>, pf_instrument = (\<lambda>_. None),
     pf_http = \<lparr>hn_Parse = (\<lambda>u. Inl (ErrText u)), hn_Resolve = (\<lambda>_ _. []), hn_NewRequest = (\<lambda>_ _. None),
       hn_Do = (\<lambda>_ w. ((None, None), w)), hn_discard = (\<lambda>_ w. w), hn_wait = (\<lambda>_ w. (None, w)), hn_overflow = (\<lambda>_. 0)\<rparr>,
     pf_grpc = \<lparr>gn_NewClient = (\<lambda>_. None), gn_Invoke = (\<lambda>_ _ _ w. (Inr (), w)), gn_now = (\<lambda>_. 0), gn_wait = (\<lambda>_ w. (None, w))\<rparr>,
     pf_files = \<lparr>tf_ReadFile = (\<lambda>p. Inr p), tf_AppendCerts = (\<lambda>_. True), tf_LoadKeyPair = (\<lambda>_ _. Inr [])\<rparr>,
     pf_closer = \<lparr>cl_idle = (\<lambda>_ w. w), cl_close = (\<lambda>_ w. (None, w))\<rparr>,
     pf_cron = \<lparr>cl_LoadLocation = (\<lambda>_. None), cl_AddFunc = (\<lambda>_. None)\<rparr>\<rparr>"

definition ex_api :: "api_outcome \<times> unit migration_world" where
  "ex_api = api_main ex_all_source ex_platform ''config/config.yaml'' [] False \<lparr>mw_ext = (), mw_calls = []\<rparr>"

lemma ex_api_serves: "\<exists>st w1. ex_api = (Serving st, w1)"
proof -
  have "case fst ex_api of Serving st \<Rightarrow> True | _ \<Rightarrow> False" by code_simp
  then obtain st where "fst ex_api = Serving st" by (auto split: api_outcome.splits)
  then show ?thesis by (metis prod.collapse)
qed

lemma ex_all_loads: "load_with_profile ex_all_source ''config/config.yaml'' [] = Inr cfg \<Longrightarrow>
    Database_Enabled (Config_Database cfg) \<and> Authorization_Enabled (Config_Authorization cfg)"
proof -
  have "case load_with_profile ex_all_source ''config/config.yaml'' [] of
      Inl _ \<Rightarrow> False | Inr cfg \<Rightarrow> Database_Enabled (Config_Database cfg) \<and> Authorization_Enabled (Config_Authorization cfg)"
    by code_simp
  then show "load_with_profile ex_all_source ''config/config.yaml'' [] = Inr cfg \<Longrightarrow>
    Database_Enabled (Config_Database cfg) \<and> Authorization_Enabled (Config_Authorization cfg)" by simp
qed

lemma serving_is_guarded_witness:
  "\<exists>st w1 h conn conn'. ex_api = (Serving st, w1) \<and> st_db st = Some h \<and> st_verifier st = GrpcVerifier conn (2 * second) \<and>
     st_authorizer st = GrpcAuthorizer (Some conn') (2 * second)"
proof -
  from ex_api_serves obtain st w1 where s: "ex_api = (Serving st, w1)" by blast
  from serving_is_guarded [OF s [unfolded ex_api_def]] ex_all_loads have
    "(\<exists>h. st_db st = Some h) \<and> (\<exists>conn. st_verifier st = GrpcVerifier conn (2 * second)) \<and>
      (\<exists>conn. st_authorizer st = GrpcAuthorizer (Some conn) (2 * second))"
    by (metis (full_types))
  with s show ?thesis by blast
qed

section \<open>Its transactions\<close>

lemma start_up_database:
  assumes "start_up pf cfg w = (Inr st, w1)"
  shows "\<exists>n0 n1. new_database pf cfg n0 = (Inr (st_db st), n1)"
  by (rule start_up_Inr [OF assms]) blast

lemma started_driver:
  assumes "start_up pf cfg w = (Inr st, w1)" "transactor st = Some driver"
  shows "driver \<in> {''mysql'', ''pgx''}"
proof -
  from start_up_database [OF assms(1)] obtain n0 n1 where "new_database pf cfg n0 = (Inr (st_db st), n1)" by blast
  from new_database_Inr [OF this] assms(2) show ?thesis by (auto simp: transactor_def)
qed

lemma set_audit_actor_known:
  assumes "set_audit_actor ctx driver s = (None, s1)" "driver \<in> {''mysql'', ''pgx''}"
  shows "\<exists>actor. ctx = Some actor \<and> ss_actor (db_session s1) = Some (p_ID actor)"
  using assms by (auto simp: set_audit_actor_def set_actor_stmt_def Let_def split: option.splits if_splits prod.splits sum.splits outcome.splits)

text \<open>
  C9. A serving process writes nothing anonymously: a transaction that commits did so on the database that
  was opened, for a principal whose id is not blank, and what it wrote was written in a session whose audit
  actor is that id, since each driver the service can have opened is one whose sessions get the actor.
\<close>

theorem transactions_are_attributed:
  assumes "api_main src pf config_path profile show_version w = (Serving st, w1)"
    and "Sql_Database.within (transactor st) ctx fn s = (None, s')"
  shows "\<exists>actor s2 s3. st_db st \<noteq> None \<and> ctx = Some actor \<and> trim_space (p_ID actor) \<noteq> [] \<and>
    ss_actor (db_session s2) = Some (p_ID actor) \<and> fn s2 = (None, s3) \<and> db_tables s' = db_tables s3"
proof -
  from api_main_Serving [OF assms(1)] obtain cfg where start: "start_up pf cfg w = (Inr st, w1)" by blast
  from within_ok [OF assms(2)] obtain driver actor s1 s2 s3 where t: "transactor st = Some driver" "ctx = Some actor"
    "trim_space (p_ID actor) \<noteq> []" "set_audit_actor ctx driver s1 = (None, s2)" "fn s2 = (None, s3)"
    "db_tables s' = db_tables s3" by metis
  from set_audit_actor_known [OF t(4) started_driver [OF start t(1)]] t(2)
  have "ss_actor (db_session s2) = Some (p_ID actor)" by simp
  moreover have "st_db st \<noteq> None" using t(1) by (auto simp: transactor_def)
  ultimately show ?thesis using t by blast
qed

definition ex_session_db :: "unit db" where
  "ex_session_db = \<lparr>db_tables = (), db_session = \<lparr>ss_actor = None, ss_now = 0\<rparr>, db_script = []\<rparr>"

definition ex_nothing :: "unit db \<Rightarrow> goerr option \<times> unit db" where
  "ex_nothing s = (None, s)"

lemma ex_within: "fst (Sql_Database.within (Some ''pgx'') (Some (system_principal ''jobs'')) ex_nothing ex_session_db) = None"
  by code_simp

lemma transactions_are_attributed_witness:
  "\<exists>st w1 actor s2. ex_api = (Serving st, w1) \<and> st_db st \<noteq> None \<and> actor = system_principal ''jobs'' \<and>
     ss_actor (db_session (s2 :: unit db)) = Some (p_ID actor)"
proof -
  have c: "case fst ex_api of Serving st \<Rightarrow> transactor st = Some ''pgx'' | _ \<Rightarrow> False" by code_simp
  from ex_api_serves obtain st w1 where s: "ex_api = (Serving st, w1)" by blast
  have t: "transactor st = Some ''pgx''" using c unfolding s fst_conv api_outcome.case .
  obtain s' where "Sql_Database.within (transactor st) (Some (system_principal ''jobs'')) ex_nothing ex_session_db = (None, s')"
    using ex_within unfolding t by (metis prod.collapse)
  from transactions_are_attributed [OF s [unfolded ex_api_def] this] s show ?thesis by blast
qed

end
