(* ===== verification/Server_Start.thy ===== *)
theory Server_Start
  imports Grpc_Server Http_Examples Outbound_Base
begin

text \<open>
  How the two servers of \<open>internal/transport\<close> open and close: the certificates of the gRPC server, the
  routes the HTTP router has, and the start hooks, which discover the routes and load the policies before
  they listen.  \<open>net.Listen\<close> is an argument, the state is what the process then serves.
\<close>

section \<open>The certificates of the gRPC server\<close>

record server_tls =
  sx_MinVersion :: nat
  sx_Certificates :: "string list"
  sx_ClientCAs :: "string option"
  sx_RequireClientCert :: bool

definition server_credentials :: "tls_files \<Rightarrow> cGRPCTLS \<Rightarrow> goerr + server_tls" where
  "server_credentials fs cfg = (case tf_LoadKeyPair fs (GRPCTLS_CertFile cfg) (GRPCTLS_KeyFile cfg) of
      Inl err \<Rightarrow> Inl (ErrWrap ''load grpc certificate'' err)
    | Inr certificate \<Rightarrow>
        (let tls = \<lparr>sx_MinVersion = VersionTLS12, sx_Certificates = [certificate], sx_ClientCAs = None,
           sx_RequireClientCert = False\<rparr> in
         if GRPCTLS_ClientCAFile cfg \<noteq> [] then
           (case tf_ReadFile fs (GRPCTLS_ClientCAFile cfg) of
              Inl err \<Rightarrow> Inl (ErrWrap ''read grpc client CA'' err)
            | Inr pem \<Rightarrow>
                if \<not> tf_AppendCerts fs pem then Inl (ErrText ''parse grpc client CA'')
                else Inr (tls\<lparr>sx_ClientCAs := Some pem, sx_RequireClientCert := True\<rparr>))
         else Inr tls))"

text \<open>The security of the server: none, or TLS.\<close>

definition grpc_server_security :: "tls_files \<Rightarrow> cGRPC \<Rightarrow> goerr + server_tls option" where
  "grpc_server_security fs cfg =
     (if GRPCTLS_Enabled (GRPC_TLS cfg) then
        (case server_credentials fs (GRPC_TLS cfg) of Inl err \<Rightarrow> Inl err | Inr creds \<Rightarrow> Inr (Some creds))
      else Inr None)"

lemma server_credentials_Inr:
  "server_credentials fs cfg = Inr tls \<Longrightarrow>
     sx_MinVersion tls = VersionTLS12 \<and> sx_RequireClientCert tls = (GRPCTLS_ClientCAFile cfg \<noteq> []) \<and>
     (sx_ClientCAs tls = None \<longleftrightarrow> GRPCTLS_ClientCAFile cfg = [])"
  by (auto simp: server_credentials_def Let_def split: sum.splits if_splits)

section \<open>The two servers\<close>

text \<open>What \<open>NewServer\<close> of \<open>internal/transport/grpc\<close> gives the library: the limit, the certificates and the services.\<close>

record grpc_options =
  gz_MaxRecvMsgSize :: int
  gz_Security :: "server_tls option"
  gz_Services :: "string list"
  gz_Address :: string

definition new_grpc_server :: "tls_files \<Rightarrow> string \<Rightarrow> string list \<Rightarrow> cConfig \<Rightarrow> goerr + grpc_options" where
  "new_grpc_server fs audit_service reflection cfg = (let g = Config_GRPC cfg in
     case grpc_server_security fs g of
       Inl err \<Rightarrow> Inl err
     | Inr security \<Rightarrow> Inr \<lparr>gz_MaxRecvMsgSize = GRPC_MaxReceiveBytes g, gz_Security = security,
         gz_Services = [audit_service, ''grpc.health.v1.Health''] @ (if GRPC_ReflectionEnabled g then reflection else []),
         gz_Address = GRPC_Address g\<rparr>)"

text \<open>And \<open>NewServer\<close> of \<open>internal/transport/http\<close>; \<open>trust\<close> is \<open>SetTrustedProxies\<close>.\<close>

record http_options =
  hz_Release :: bool
  hz_Addr :: string
  hz_ReadTimeout :: duration
  hz_WriteTimeout :: duration
  hz_IdleTimeout :: duration

definition new_http_server :: "(string list \<Rightarrow> goerr option) \<Rightarrow> cConfig \<Rightarrow> goerr + http_options" where
  "new_http_server trust cfg = (let h = Config_HTTP cfg in
     case trust (HTTP_TrustedProxies h) of
       Some err \<Rightarrow> Inl (ErrWrap ''configure trusted proxies'' err)
     | None \<Rightarrow> Inr \<lparr>hz_Release = (App_Env (Config_App cfg) = ''production''), hz_Addr = HTTP_Address h,
         hz_ReadTimeout = HTTP_ReadTimeout h, hz_WriteTimeout = HTTP_WriteTimeout h, hz_IdleTimeout = HTTP_IdleTimeout h\<rparr>)"

lemma new_grpc_server_Inr:
  assumes "new_grpc_server fs audit_service reflection cfg = Inr o1"
  shows "(gz_Security o1 = None \<longleftrightarrow> \<not> GRPCTLS_Enabled (GRPC_TLS (Config_GRPC cfg))) \<and>
    (\<forall>tls. gz_Security o1 = Some tls \<longrightarrow> sx_MinVersion tls = VersionTLS12 \<and>
       sx_RequireClientCert tls = (GRPCTLS_ClientCAFile (GRPC_TLS (Config_GRPC cfg)) \<noteq> []))"
  using assms by (auto simp: new_grpc_server_def grpc_server_security_def Let_def split: sum.splits if_splits dest: server_credentials_Inr)

section \<open>The routes of the router\<close>

definition pprof_routes :: "(string \<times> string) list" where
  "pprof_routes = map (\<lambda>(verb, path). (verb, ''/debug/pprof'' @ path))
     ([(''GET'', ''/''), (''GET'', ''/cmdline''), (''GET'', ''/profile''), (''POST'', ''/symbol''), (''GET'', ''/symbol''), (''GET'', ''/trace'')]
      @ map (\<lambda>profile. (''GET'', CHR ''/'' # profile)) [''allocs'', ''block'', ''goroutine'', ''heap'', ''mutex'', ''threadcreate''])"

definition router_routes :: "'p http_server \<Rightarrow> (string \<times> string) list" where
  "router_routes s = (let cfg = hx_cfg s; ob = Config_Observability cfg in
     concat (map (\<lambda>verb. [(verb, ''/live''), (verb, ''/ready'')]) [''GET'', ''POST''])
     @ (if Observability_MetricsEnabled ob then [(''GET'', ''/metrics'')] else [])
     @ (if Observability_PprofEnabled ob then pprof_routes else [])
     @ (if Swagger_Enabled (Config_Swagger cfg) then [(''GET'', ''/swagger/*any'')] else [])
     @ map (\<lambda>(path, h). (''POST'', path)) (api_routes s))"

text \<open>\<open>router.Routes\<close> names the handler of each route.\<close>

definition router_infos :: "(string \<Rightarrow> string) \<Rightarrow> 'p http_server \<Rightarrow> (string \<times> string \<times> string) list" where
  "router_infos handler s = map (\<lambda>(verb, path). (verb, path, handler path)) (router_routes s)"

section \<open>Opening and closing\<close>

text \<open>What the process serves: the addresses it listens on, and whether the policies are followed.\<close>

record 'p serving =
  sg_world :: "'p policy_world"
  sg_grpc :: "string option"
  sg_http :: "string option"
  sg_following :: bool

definition listen_grpc :: "(string \<Rightarrow> goerr option) \<Rightarrow> bool \<Rightarrow> string \<Rightarrow> 'p serving \<Rightarrow> goerr option \<times> 'p serving" where
  "listen_grpc listen enabled address v =
     (if \<not> enabled then (None, v)
      else (case listen address of
          Some err \<Rightarrow> (Some (ErrWrap ''listen grpc'' err), v)
        | None \<Rightarrow> (None, v\<lparr>sg_grpc := Some address\<rparr>)))"

definition open_grpc :: "(string \<Rightarrow> goerr option) \<Rightarrow> 'p http_server \<Rightarrow> (string \<Rightarrow> string \<Rightarrow> goerr + route)
    \<Rightarrow> (string \<times> string list) list \<Rightarrow> 'p serving \<Rightarrow> goerr option \<times> 'p serving" where
  "open_grpc listen s new_route services v = (case start_grpc s new_route services (sg_world v) of
      (Some err, w) \<Rightarrow> (Some err, v\<lparr>sg_world := w\<rparr>)
    | (None, w) \<Rightarrow> listen_grpc listen (GRPC_Enabled (Config_GRPC (hx_cfg s))) (GRPC_Address (Config_GRPC (hx_cfg s)))
        (v\<lparr>sg_world := w\<rparr>))"

text \<open>Stopping waits for the calls in flight, and cuts them off when its context ends first.\<close>

definition close_grpc :: "goerr option \<Rightarrow> 'p serving \<Rightarrow> goerr option \<times> 'p serving" where
  "close_grpc waited v = (waited, v\<lparr>sg_grpc := None\<rparr>)"

definition open_http :: "(string \<Rightarrow> goerr option) \<Rightarrow> 'p http_server \<Rightarrow> (string \<Rightarrow> string \<Rightarrow> goerr + route)
    \<Rightarrow> (string \<times> string \<times> string) list \<Rightarrow> 'p serving \<Rightarrow> goerr option \<times> 'p serving" where
  "open_http listen s new_route infos v = (case start_http s new_route infos (sg_world v) of
      (Some err, w) \<Rightarrow> (Some err, v\<lparr>sg_world := w\<rparr>)
    | (None, w) \<Rightarrow>
        (let address = HTTP_Address (Config_HTTP (hx_cfg s));
             v1 = v\<lparr>sg_world := w, sg_following := sg_following v \<or> Authorization_Enabled (Config_Authorization (hx_cfg s))\<rparr> in
         case listen address of
           Some err \<Rightarrow> (Some (ErrWrap ''listen http'' err), v1)
         | None \<Rightarrow> (None, v1\<lparr>sg_http := Some address\<rparr>)))"

definition close_http :: "goerr option \<Rightarrow> 'p serving \<Rightarrow> goerr option \<times> 'p serving" where
  "close_http shutdown v = (shutdown, v\<lparr>sg_following := False, sg_http := None\<rparr>)"

section \<open>Nothing listens without its policies\<close>

lemma discovered_routes:
  assumes "discovered_business_routes new_route infos = Inr routes"
  shows "list_all2 (\<lambda>(verb, path, h) r. \<exists>r0. new_route verb path = Inr r0 \<and> r = r0\<lparr>ro_Operation := h\<rparr>)
    (filter (\<lambda>(verb, path, h). has_prefix path ''/api/v1/'') infos) routes"
  using assms
proof (induction infos arbitrary: routes)
  case (Cons info infos)
  obtain verb path h where i: "info = (verb, path, h)" by (cases info)
  show ?case
  proof (cases "has_prefix path ''/api/v1/''")
    case True
    with Cons.prems i obtain r rest where "new_route verb path = Inr r" "discovered_business_routes new_route infos = Inr rest"
      "routes = r\<lparr>ro_Operation := h\<rparr> # rest" by (auto split: sum.splits)
    with Cons.IH i True show ?thesis by simp
  qed (use Cons i in auto)
qed simp

text \<open>Of the routes of the router, discovery takes those of the API and no other.\<close>

lemma api_infos: "filter (\<lambda>(verb, path, h). has_prefix path ''/api/v1/'') (router_infos handler s) =
    map (\<lambda>(path, h). (''POST'', path, handler path)) (api_routes s)"
proof -
  have api: "\<forall>x \<in> set (api_routes s). has_prefix (fst x) ''/api/v1/''" by (simp add: api_routes_def has_prefix_def)
  have "filter (\<lambda>(verb, path). has_prefix path ''/api/v1/'') (router_routes s) = map (\<lambda>(path, h). (''POST'', path)) (api_routes s)"
    using api by (auto simp: router_routes_def Let_def pprof_routes_def has_prefix_def filter_map o_def case_prod_unfold cong: filter_cong)
  then show ?thesis
    by (simp add: router_infos_def filter_map o_def case_prod_unfold)
qed

lemma refresh_source_Inr:
  assumes "refresh_source x w = (None, w1)"
  shows "\<exists>defs s1. policy_load (px_driver x) (pw_db w) = (defs, s1) \<and>
    px_reload x defs (mg_snapshot (pw_manager w)) = (None, mg_snapshot (pw_manager w1))"
  using assms by (auto simp: refresh_source_def Let_def split: prod.splits option.splits sum.splits)

text \<open>Loading the policies and checking their coverage write nothing: the tables change by what others commit.\<close>

interpretation left: table_order "(=)"
  by unfold_locales auto

lemma policy_load_advances:
  assumes "obeys (=) s" "policy_load tdb s = (defs, s1)"
  shows "advances (=) s s1"
proof (cases tdb)
  case None
  with assms(2) show ?thesis by (simp add: policy_load_def left.advances_refl)
next
  case (Some d)
  obtain policies sa where a: "exec_db (reads select_active) s = (policies, sa)" by fastforce
  obtain refs sb where b: "exec_db (reads select_active_refs) sa = (refs, sb)" by fastforce
  from assms(1) a have sa: "advances (=) s sa" by (rule left.reads_keeps)
  from advances_obeys [OF assms(1) sa] b have "advances (=) sa sb" by (rule left.reads_keeps)
  with sa have "advances (=) s sb" by (rule left.advances_trans)
  moreover from assms(2) Some a b have "s1 = sa \<or> s1 = sb"
    by (auto simp: policy_load_def split: sum.splits)
  ultimately show ?thesis using sa by blast
qed

lemma refresh_source_advances:
  assumes "obeys (=) (pw_db w)" "refresh_source x w = (None, w1)"
  shows "advances (=) (pw_db w) (pw_db w1)"
proof -
  obtain defs s1 where load: "policy_load (px_driver x) (pw_db w) = (defs, s1)" by fastforce
  note kept = policy_load_advances [OF assms(1) load]
  from assms(2) load obtain revision where "policy_revision s1 = (Inr revision, pw_db w1)"
    by (auto simp: refresh_source_def Let_def split: prod.splits option.splits sum.splits)
  then have "advances (=) s1 (pw_db w1)"
    unfolding policy_revision_def by (rule left.reads_keeps [OF advances_obeys [OF assms(1) kept]])
  with kept show ?thesis by (rule left.advances_trans)
qed

lemma validate_routes_advances:
  assumes "obeys (=) (pw_db w)"
  shows "advances (=) (pw_db w) (pw_db (snd (validate_routes x service w)))"
proof -
  obtain ids s1 where read: "active_route_ids service (pw_db w) = (ids, s1)" by fastforce
  then have "advances (=) (pw_db w) s1"
    unfolding active_route_ids_def by (rule left.reads_keeps [OF assms])
  with read show ?thesis by (simp add: validate_routes_def split: sum.splits)
qed

text \<open>
  What a start hook that succeeds leaves: \<open>s1\<close> is the database its \<open>SyncRoutes\<close> left, the policies enforced
  are those loaded from it, and no table has changed since unless another writer changed it.
\<close>

definition loaded_from :: "('p, 'u) policy_externals \<Rightarrow> 'p policy_world \<Rightarrow> policy_tables db \<Rightarrow> 'p policy_world \<Rightarrow> bool" where
  "loaded_from x w s1 w1 \<longleftrightarrow>
     (\<exists>defs s2. policy_load (px_driver x) s1 = (defs, s2) \<and>
        px_reload x defs (mg_snapshot (pw_manager w)) = (None, mg_snapshot (pw_manager w1))) \<and>
     (obeys (=) s1 \<longrightarrow> db_tables (pw_db w1) = db_tables s1)"

lemma refresh_source_loads:
  assumes "refresh_source x (w\<lparr>pw_db := s1\<rparr>) = (None, w1)"
  shows "loaded_from x w s1 w1"
  using refresh_source_Inr [OF assms] refresh_source_advances [OF _ assms] by (auto simp: loaded_from_def advances_def)

lemma start_http_ok:
  assumes "start_http s new_route infos w = (None, w1)" "Authorization_Enabled (Config_Authorization (hx_cfg s))"
  obtains routes s1 where "discovered_business_routes new_route infos = Inr routes"
    "sync_routes (px_driver (hx_policies s)) routes (App_Name (Config_App (hx_cfg s)) @ '':route-discovery'') (pw_db w) = (None, s1)"
    "loaded_from (hx_policies s) w s1 w1"
proof -
  from assms obtain routes where r: "discovered_business_routes new_route infos = Inr routes"
    by (auto simp: start_http_def split: sum.splits)
  with assms obtain s1 where s1: "sync_routes (px_driver (hx_policies s)) routes (App_Name (Config_App (hx_cfg s)) @ '':route-discovery'') (pw_db w) = (None, s1)"
    by (auto simp: start_http_def Let_def split: prod.splits option.splits)
  with assms r obtain w2 where w2: "refresh_source (hx_policies s) (w\<lparr>pw_db := s1\<rparr>) = (None, w2)"
    and w1: "w1 = snd (validate_routes (hx_policies s) (App_Name (Config_App (hx_cfg s))) w2)"
    by (auto simp: start_http_def Let_def split: prod.splits option.splits)
  have "pw_manager w1 = pw_manager w2"
    unfolding w1 by (auto simp: validate_routes_def split: prod.splits sum.splits)
  moreover have "db_tables (pw_db w1) = db_tables (pw_db w2)" if "obeys (=) s1"
  proof -
    from refresh_source_advances [OF _ w2] that have "advances (=) s1 (pw_db w2)" by simp
    then have "obeys (=) (pw_db w2)" by (rule advances_obeys [OF that])
    from validate_routes_advances [OF this] show ?thesis unfolding w1 advances_def by (rule conjunct1 [THEN sym])
  qed
  ultimately have "loaded_from (hx_policies s) w s1 w1"
    using refresh_source_loads [OF w2] by (auto simp: loaded_from_def)
  with r s1 that show thesis by blast
qed

text \<open>
  C27. The HTTP server never listens without its policies: when its start hook fails nothing listens, and when
  it listens with authorization on, every route it dispatches API requests on has been described, \<open>SyncRoutes\<close>
  ran on the database of the start with exactly these routes and succeeded, they are the active HTTP routes of
  the service in the database it left and no other is, the policies enforced are those loaded from that
  database, its tables are those at the end unless another writer changed them meanwhile, and the policies are
  followed from then on.
\<close>

theorem http_opens_guarded:
  assumes "open_http listen s new_route (router_infos handler s) v = (err, v1)" "sg_http v = None"
    and "\<And>verb path r. new_route verb path = Inr r \<Longrightarrow> ro_ServiceName r = App_Name (Config_App (hx_cfg s)) \<and> ro_Protocol r = ''http''"
    and "policy_inv (begun (pw_db (sg_world v)))"
  shows "if err \<noteq> None then sg_http v1 = None
    else sg_http v1 = Some (HTTP_Address (Config_HTTP (hx_cfg s))) \<and>
      (Authorization_Enabled (Config_Authorization (hx_cfg s)) \<longrightarrow> sg_following v1 \<and>
        (\<exists>routes s1.
          list_all2 (\<lambda>(path, h) r. \<exists>r0. new_route ''POST'' path = Inr r0 \<and> r = r0\<lparr>ro_Operation := handler path\<rparr>)
            (api_routes s) routes \<and>
          sync_routes (px_driver (hx_policies s)) routes (App_Name (Config_App (hx_cfg s)) @ '':route-discovery'')
            (pw_db (sg_world v)) = (None, s1) \<and>
          active_ids (App_Name (Config_App (hx_cfg s))) ''http'' (db_tables s1) = ro_ID ` set routes \<and>
          loaded_from (hx_policies s) (sg_world v) s1 (sg_world v1)))"
proof (cases err)
  case (Some e)
  with assms(1,2) show ?thesis by (auto simp: open_http_def Let_def split: prod.splits option.splits)
next
  case None
  with assms(1) obtain w where start: "start_http s new_route (router_infos handler s) (sg_world v) = (None, w)"
    and v1: "sg_http v1 = Some (HTTP_Address (Config_HTTP (hx_cfg s)))" "sg_world v1 = w"
      "Authorization_Enabled (Config_Authorization (hx_cfg s)) \<longrightarrow> sg_following v1"
    by (auto simp: open_http_def Let_def split: prod.splits option.splits)
  have "\<exists>routes s1.
      list_all2 (\<lambda>(path, h) r. \<exists>r0. new_route ''POST'' path = Inr r0 \<and> r = r0\<lparr>ro_Operation := handler path\<rparr>) (api_routes s) routes \<and>
      sync_routes (px_driver (hx_policies s)) routes (App_Name (Config_App (hx_cfg s)) @ '':route-discovery'')
        (pw_db (sg_world v)) = (None, s1) \<and>
      active_ids (App_Name (Config_App (hx_cfg s))) ''http'' (db_tables s1) = ro_ID ` set routes \<and>
      loaded_from (hx_policies s) (sg_world v) s1 w"
    if on: "Authorization_Enabled (Config_Authorization (hx_cfg s))"
  proof -
    obtain routes s1 where r: "discovered_business_routes new_route (router_infos handler s) = Inr routes"
      "sync_routes (px_driver (hx_policies s)) routes (App_Name (Config_App (hx_cfg s)) @ '':route-discovery'') (pw_db (sg_world v)) = (None, s1)"
      "loaded_from (hx_policies s) (sg_world v) s1 w"
      by (rule start_http_ok [OF start on]) blast
    from discovered_routes [OF r(1)]
    have routes: "list_all2 (\<lambda>(path, h) r. \<exists>r0. new_route ''POST'' path = Inr r0 \<and> r = r0\<lparr>ro_Operation := handler path\<rparr>) (api_routes s) routes"
      unfolding api_infos by (simp add: list_all2_map1 case_prod_unfold)
    then have law: "\<forall>r \<in> set routes. ro_ServiceName r = App_Name (Config_App (hx_cfg s)) \<and> ro_Protocol r = ''http''"
      using assms(3) by (fastforce simp: list_all2_conv_all_nth in_set_conv_nth case_prod_unfold)
    have active: "active_ids (App_Name (Config_App (hx_cfg s))) ''http'' (db_tables s1) = ro_ID ` set routes"
      using sync_routes_active [OF r(2) assms(4) law] by blast
    with r(2,3) routes show ?thesis by blast
  qed
  with None v1 show ?thesis by simp
qed

definition ex_serving :: "string list serving" where
  "ex_serving = \<lparr>sg_world = aw_policy ex_state, sg_grpc = None, sg_http = None, sg_following = False\<rparr>"

definition ex_describe :: "string \<Rightarrow> string \<Rightarrow> goerr + route" where
  "ex_describe verb path = Inr (ex_route\<lparr>ro_ID := (if path = ''/api/v1/me'' then ''r1'' else path), ro_Path := path, ro_ServiceName := App_Name (Config_App (hx_cfg ex_http))\<rparr>)"

lemma http_opens_guarded_witness:
  "case open_http (\<lambda>address. None) ex_http ex_describe (router_infos id ex_http) ex_serving of
     (err, v1) \<Rightarrow> err = None \<and> sg_http v1 = Some (HTTP_Address (Config_HTTP (hx_cfg ex_http))) \<and> sg_following v1"
proof -
  let ?run = "open_http (\<lambda>address. None) ex_http ex_describe (router_infos id ex_http) ex_serving"
  obtain err v1 where run: "?run = (err, v1)" by (cases ?run)
  have "fst ?run = None" by code_simp
  then have err: "err = None" using run by simp
  have inv: "policy_inv (begun (pw_db (sg_world ex_serving)))" by code_simp
  have on: "Authorization_Enabled (Config_Authorization (hx_cfg ex_http))" by code_simp
  have law: "ex_describe verb path = Inr r \<Longrightarrow> ro_ServiceName r = App_Name (Config_App (hx_cfg ex_http)) \<and> ro_Protocol r = ''http''"
    for verb path r by (auto simp: ex_describe_def ex_route_def)
  have "sg_http ex_serving = None" by (simp add: ex_serving_def)
  from http_opens_guarded [OF run this law inv] err on run show ?thesis by simp
qed

section \<open>The gRPC server\<close>

text \<open>The paths of the methods that are discovered: all but those of the health service.\<close>

definition grpc_business_paths :: "(string \<times> string list) list \<Rightarrow> string list" where
  "grpc_business_paths services = concat (map (\<lambda>(service, ms). map (\<lambda>m. ''/'' @ service @ ''/'' @ m) ms)
     (filter (\<lambda>(service, ms). service \<noteq> ''grpc.health.v1.Health'') services))"

abbreviation described_call :: "(string \<Rightarrow> string \<Rightarrow> goerr + route) \<Rightarrow> string \<Rightarrow> route \<Rightarrow> bool" where
  "described_call new_route path r \<equiv> \<exists>r0. new_route ''call'' path = Inr r0 \<and> r = r0\<lparr>ro_Operation := path\<rparr>"

lemma described_methods: "describe_methods new_route service ms = Inr routes \<Longrightarrow>
    list_all2 (described_call new_route) (map (\<lambda>m. ''/'' @ service @ ''/'' @ m) ms) routes"
  by (induction new_route service ms arbitrary: routes rule: describe_methods.induct) (auto simp: Let_def split: sum.splits)

lemma discovered_calls: "discovered_grpc_routes new_route services = Inr routes \<Longrightarrow>
    list_all2 (described_call new_route) (grpc_business_paths services) routes"
proof (induction new_route services arbitrary: routes rule: discovered_grpc_routes.induct)
  case (2 new_route service ms rest)
  show ?case
  proof (cases "service = ''grpc.health.v1.Health''")
    case True
    with 2 show ?thesis by (simp add: grpc_business_paths_def)
  next
    case False
    with 2(3) obtain own others where "describe_methods new_route service ms = Inr own"
      "discovered_grpc_routes new_route rest = Inr others" "routes = own @ others" by (auto split: sum.splits)
    with 2(2) [OF False] described_methods False show ?thesis
      by (auto simp: grpc_business_paths_def intro: list_all2_appendI)
  qed
qed (simp add: grpc_business_paths_def)

text \<open>
  C28. The gRPC server never listens without its policies: when its start hook fails, or the server is not
  enabled, nothing listens, and when it listens with authorization on, every method of its services but the
  health check has been described, \<open>SyncRoutes\<close> ran on the database of the start with exactly these routes and
  succeeded, they are the active gRPC routes of the service in the database it left and no other is, the
  policies enforced are those loaded from that database, and its tables are those at the end unless another
  writer changed them meanwhile.
\<close>

theorem grpc_opens_guarded:
  assumes "open_grpc listen s new_route services v = (err, v1)" "sg_grpc v = None"
    and "\<And>verb path r. new_route verb path = Inr r \<Longrightarrow> ro_ServiceName r = App_Name (Config_App (hx_cfg s)) \<and> ro_Protocol r = ''grpc''"
    and "policy_inv (begun (pw_db (sg_world v)))"
  shows "if err \<noteq> None \<or> \<not> GRPC_Enabled (Config_GRPC (hx_cfg s)) then sg_grpc v1 = None
    else sg_grpc v1 = Some (GRPC_Address (Config_GRPC (hx_cfg s))) \<and>
      (Authorization_Enabled (Config_Authorization (hx_cfg s)) \<longrightarrow>
        (\<exists>routes s1. list_all2 (described_call new_route) (grpc_business_paths services) routes \<and>
          sync_routes (px_driver (hx_policies s)) routes (App_Name (Config_App (hx_cfg s)) @ '':route-discovery'')
            (pw_db (sg_world v)) = (None, s1) \<and>
          active_ids (App_Name (Config_App (hx_cfg s))) ''grpc'' (db_tables s1) = ro_ID ` set routes \<and>
          loaded_from (hx_policies s) (sg_world v) s1 (sg_world v1)))"
proof (cases "err \<noteq> None \<or> \<not> GRPC_Enabled (Config_GRPC (hx_cfg s))")
  case True
  with assms(1,2) show ?thesis by (auto simp: open_grpc_def listen_grpc_def split: prod.splits option.splits if_splits)
next
  case False
  with assms(1) obtain w where start: "start_grpc s new_route services (sg_world v) = (None, w)"
    and v1: "sg_grpc v1 = Some (GRPC_Address (Config_GRPC (hx_cfg s)))" "sg_world v1 = w"
    by (auto simp: open_grpc_def listen_grpc_def split: prod.splits option.splits)
  have "\<exists>routes s1. list_all2 (described_call new_route) (grpc_business_paths services) routes \<and>
      sync_routes (px_driver (hx_policies s)) routes (App_Name (Config_App (hx_cfg s)) @ '':route-discovery'')
        (pw_db (sg_world v)) = (None, s1) \<and>
      active_ids (App_Name (Config_App (hx_cfg s))) ''grpc'' (db_tables s1) = ro_ID ` set routes \<and>
      loaded_from (hx_policies s) (sg_world v) s1 w"
    if on: "Authorization_Enabled (Config_Authorization (hx_cfg s))"
  proof -
    from start on False obtain routes s1 where r: "discovered_grpc_routes new_route services = Inr routes"
      "sync_routes (px_driver (hx_policies s)) routes (App_Name (Config_App (hx_cfg s)) @ '':route-discovery'') (pw_db (sg_world v)) = (None, s1)"
      "refresh_source (hx_policies s) ((sg_world v)\<lparr>pw_db := s1\<rparr>) = (None, w)"
      by (auto simp: start_grpc_def split: sum.splits prod.splits option.splits)
    note routes = discovered_calls [OF r(1)]
    then have law: "\<forall>r \<in> set routes. ro_ServiceName r = App_Name (Config_App (hx_cfg s)) \<and> ro_Protocol r = ''grpc''"
      using assms(3) by (fastforce simp: list_all2_conv_all_nth in_set_conv_nth)
    from sync_routes_active [OF r(2) assms(4) law]
    have active: "active_ids (App_Name (Config_App (hx_cfg s))) ''grpc'' (db_tables s1) = ro_ID ` set routes" by blast
    with r(2) refresh_source_loads [OF r(3)] routes show ?thesis by blast
  qed
  with False v1 show ?thesis by simp
qed

definition ex_grpc_http :: "string list http_server" where
  "ex_grpc_http = ex_http\<lparr>hx_cfg := (hx_cfg ex_http)\<lparr>Config_GRPC := (Config_GRPC (hx_cfg ex_http))\<lparr>GRPC_Enabled := True\<rparr>\<rparr>\<rparr>"

definition ex_calls :: "(string \<times> string list) list" where
  "ex_calls = [(''grpc.health.v1.Health'', [''Check'', ''Watch'']), (''audit.v1.AuditService'', [''RecordAudit'', ''GetAudit''])]"

definition ex_describe_call :: "string \<Rightarrow> string \<Rightarrow> goerr + route" where
  "ex_describe_call verb path = Inr (ex_route\<lparr>ro_ID := path, ro_Protocol := ''grpc'', ro_Path := path,
     ro_ServiceName := App_Name (Config_App (hx_cfg ex_grpc_http))\<rparr>)"

lemma grpc_opens_guarded_witness:
  "case open_grpc (\<lambda>address. None) ex_grpc_http ex_describe_call ex_calls ex_serving of
     (err, v1) \<Rightarrow> err = None \<and> sg_grpc v1 = Some (GRPC_Address (Config_GRPC (hx_cfg ex_grpc_http))) \<and>
       grpc_business_paths ex_calls = [''/audit.v1.AuditService/RecordAudit'', ''/audit.v1.AuditService/GetAudit'']"
proof -
  let ?run = "open_grpc (\<lambda>address. None) ex_grpc_http ex_describe_call ex_calls ex_serving"
  obtain err v1 where run: "?run = (err, v1)" by (cases ?run)
  have "fst ?run = None" by code_simp
  then have err: "err = None" using run by simp
  have inv: "policy_inv (begun (pw_db (sg_world ex_serving)))" by code_simp
  have on: "GRPC_Enabled (Config_GRPC (hx_cfg ex_grpc_http))" by code_simp
  have paths: "grpc_business_paths ex_calls = [''/audit.v1.AuditService/RecordAudit'', ''/audit.v1.AuditService/GetAudit'']" by code_simp
  have law: "ex_describe_call verb path = Inr r \<Longrightarrow> ro_ServiceName r = App_Name (Config_App (hx_cfg ex_grpc_http)) \<and> ro_Protocol r = ''grpc''"
    for verb path r by (auto simp: ex_describe_call_def ex_route_def)
  have "sg_grpc ex_serving = None" by (simp add: ex_serving_def)
  from grpc_opens_guarded [OF run this law inv] err on run paths show ?thesis by simp
qed

end
