(* ===== verification/Http_Whole.thy ===== *)
theory Http_Whole
  imports Http_Facts Audit_Query_Facts Audit_Export_Facts Audit_Record_Facts
begin

text \<open>
  The HTTP server as a whole: what a client is answered comes from the audit service, called as the caller
  its credential proves, so the guarantees of the service are guarantees of the API.
\<close>

section \<open>Where an answer with a body comes from\<close>

text \<open>
  A run is carried out by a handler when the handler gave its answer and its audit tables, for a request to
  the same route whose caller is known, on the audit tables as they were.
\<close>

definition carried_out :: "principal option \<Rightarrow> string \<Rightarrow> ('p api_world, body) handler \<Rightarrow> 'p api_world
    \<Rightarrow> body outcome_of \<times> 'p api_world \<Rightarrow> bool" where
  "carried_out caller route h w run \<longleftrightarrow> (\<exists>c1 w1. rc_principal c1 = caller \<and> rc_FullPath c1 = route \<and> aw_audit w1 = aw_audit w \<and>
     fst run = fst (h c1 w1) \<and> aw_audit (snd run) = aw_audit (snd (h c1 w1)))"

definition shown :: "body outcome_of \<Rightarrow> body option" where
  "shown r = (case r of Replied x \<Rightarrow> (case rs_body x of Some e \<Rightarrow> ev_Body e | None \<Rightarrow> None) | _ \<Rightarrow> None)"

lemma shown_simps [simp]:
  "shown (fail_reply c e) = None" "shown (reply c n k m b) = b" "shown (ok_reply c b1) = Some b1"
  by (simp_all add: shown_def fail_reply_eq ok_reply_def reply_def)

lemma shown_discloses: "shown r = Some b \<Longrightarrow> discloses r"
  by (auto simp: shown_def discloses_iff split: outcome_of.splits option.splits)

text \<open>
  Or the run replays an answer: the store of keys, asked with the key and with the fingerprint of this
  request in the state it arrived in, had a completed answer for it; the body shown is that answer's, and
  the audit tables are as they were.
\<close>

definition kept_run :: "'p http_server \<Rightarrow> string \<Rightarrow> request_context \<Rightarrow> 'p api_world
    \<Rightarrow> body outcome_of \<times> 'p api_world \<Rightarrow> bool" where
  "kept_run s key c w run \<longleftrightarrow> (\<exists>m env. hx_manager s = Some m \<and> im_enabled m \<and> rc_Method c = ''POST'' \<and>
     matches_any (rc_FullPath c) (Idempotency_HTTPPaths (Config_Idempotency (hx_cfg s))) \<and>
     fst (im_begin m key (hex_encode (hx_sha256 s (fingerprinted c (rc_Body c)))) w) = Inr (StateCompleted (Inr env)) \<and>
     shown (fst run) = ev_Body env \<and> aw_audit (snd run) = aw_audit w)"

definition replays :: "'p http_server \<Rightarrow> request_context \<Rightarrow> principal option \<Rightarrow> 'p api_world
    \<Rightarrow> body outcome_of \<times> 'p api_world \<Rightarrow> bool" where
  "replays s c caller w run \<longleftrightarrow> rc_Header c ''Idempotency-Key'' \<noteq> [] \<and>
     kept_run s (rc_Header c ''Idempotency-Key'') (c\<lparr>rc_subject := map_option p_ID caller\<rparr>) w run"

text \<open>The answer of \<open>Begin\<close> is that of the key, the fingerprint and the entries kept.\<close>

definition manager_local :: "('p api_world, body) idempotency_manager \<Rightarrow> bool" where
  "manager_local m \<longleftrightarrow> (\<forall>k f w w'. aw_idempotency w' = aw_idempotency w \<longrightarrow> fst (im_begin m k f w') = fst (im_begin m k f w))"

text \<open>What the gates keep with the keys among it.\<close>

definition keeps_keys :: "'p api_world \<Rightarrow> 'p api_world \<Rightarrow> bool" where
  "keeps_keys w w1 \<longleftrightarrow> untouched w w1 \<and> aw_idempotency w1 = aw_idempotency w"

interpretation keyed: gate_states keeps_keys
  by unfold_locales (auto simp: keeps_keys_def intro: untouched_trans)

lemma kept_run_same:
  assumes "kept_run s key c1 w1 run" "\<And>m. hx_manager s = Some m \<Longrightarrow> manager_local m"
    and "rc_Method c1 = rc_Method c" "rc_FullPath c1 = rc_FullPath c" "rc_Body c1 = rc_Body c" "rc_subject c1 = rc_subject c"
    and "aw_idempotency w1 = aw_idempotency w" "aw_audit w1 = aw_audit w"
  shows "kept_run s key c w run"
proof -
  have "fingerprinted c1 b = fingerprinted c b" for b using assms(3-6) by (simp add: fingerprinted_def)
  then have fp: "fingerprinted c1 (rc_Body c1) = fingerprinted c (rc_Body c)" using assms(5) by simp
  from assms(1) obtain m env where m: "hx_manager s = Some m" "im_enabled m" "rc_Method c1 = ''POST''"
    "matches_any (rc_FullPath c1) (Idempotency_HTTPPaths (Config_Idempotency (hx_cfg s)))"
    "fst (im_begin m key (hex_encode (hx_sha256 s (fingerprinted c1 (rc_Body c1)))) w1) = Inr (StateCompleted (Inr env))"
    "shown (fst run) = ev_Body env" "aw_audit (snd run) = aw_audit w1" unfolding kept_run_def by (elim exE conjE)
  have "fst (im_begin m key f w1) = fst (im_begin m key f w)" for f
    using assms(2) [OF m(1)] assms(7) unfolding manager_local_def by blast
  then have "fst (im_begin m key (hex_encode (hx_sha256 s (fingerprinted c (rc_Body c)))) w) = Inr (StateCompleted (Inr env))"
    using m(5) fp by simp
  with m(1-4,6,7) show ?thesis unfolding kept_run_def assms(3,4,8) by (intro exI [of _ m] exI [of _ env] conjI)
qed

lemma carried_outI: "rc_principal c1 = caller \<Longrightarrow> rc_FullPath c1 = route \<Longrightarrow> aw_audit w1 = aw_audit w \<Longrightarrow>
    fst run = fst (h c1 w1) \<Longrightarrow> aw_audit (snd run) = aw_audit (snd (h c1 w1)) \<Longrightarrow> carried_out caller route h w run"
  unfolding carried_out_def by blast

lemma disclosed_behind_gate:
  assumes "gates_keeping keep h' h" "discloses (fst (h' c w))"
  obtains c1 w1 where "same_request c c1" "keep w w1" "h' c w = h c1 w1"
proof -
  from assms obtain c1 w1 where 1: "same_request c c1" "keep w w1" "stands_for (h' c w) (h c1 w1)"
    unfolding gates_keeping_def by blast
  with assms(2) have "h' c w = h c1 w1" by (auto simp: stands_for_def)
  with 1 that show thesis by blast
qed

lemma persist_outcome_same:
  assumes "manager_aside m" "persist_outcome m key ow run = (r, w1)"
  shows "r = fst run \<and> aw_audit w1 = aw_audit (snd run)"
proof -
  obtain r0 w0 where run: "run = (r0, w0)" by (cases run)
  have "aw_audit (snd (im_complete m key ow e w0)) = aw_audit w0" "aw_audit (snd (im_fail m key ow f w0)) = aw_audit w0" for e f
    using assms(1) unfolding manager_aside_def aside_def untouched_def by blast+
  with assms(2) show ?thesis unfolding run
    by (cases r0) (auto simp: persist_outcome_def split: option.splits if_splits)
qed

lemma idempotency_carried_out:
  defines "paths s \<equiv> Idempotency_HTTPPaths (Config_Idempotency (hx_cfg s))"
  assumes "\<And>m. hx_manager s = Some m \<Longrightarrow> manager_aside m"
    and "discloses (fst (idempotency_mw (hx_manager s) (paths s) (hx_sha256 s) h c w))"
  shows "carried_out (rc_principal c) (rc_FullPath c) h w (idempotency_mw (hx_manager s) (paths s) (hx_sha256 s) h c w) \<or>
    (\<exists>key. rc_idempotency c = Some key \<and> kept_run s key c w (idempotency_mw (hx_manager s) (paths s) (hx_sha256 s) h c w))"
proof (cases "\<exists>key m. rc_idempotency c = Some key \<and> hx_manager s = Some m \<and> im_enabled m \<and> rc_Method c = ''POST'' \<and>
    matches_any (rc_FullPath c) (paths s)")
  case False
  then have "idempotency_mw (hx_manager s) (paths s) (hx_sha256 s) h c w = h c w"
    by (auto simp: idempotency_mw_def split: option.splits)
  then show ?thesis by (intro disjI1 carried_outI [of c _ _ w]) simp_all
next
  case True
  then obtain key m where k: "rc_idempotency c = Some key" "hx_manager s = Some m" "im_enabled m" "rc_Method c = ''POST''"
    "matches_any (rc_FullPath c) (paths s)" by blast
  note aside = assms(2) [OF k(2)]
  let ?run = "idempotency_mw (hx_manager s) (paths s) (hx_sha256 s) h c w"
  show ?thesis
  proof (cases "read_body c")
    case (Inl err)
    with k assms(3) show ?thesis by (simp add: idempotency_mw_def idempotency_fingerprint_def)
  next
    case (Inr body)
    then have body: "body = rc_Body c" by (auto simp: read_body_def split: option.splits if_splits)
    let ?fp = "hex_encode (hx_sha256 s (fingerprinted c body))"
    note fp = fingerprint_eq [OF Inr, of "hx_sha256 s"]
    obtain d w1 where b: "im_begin m key ?fp w = (d, w1)" by (cases "im_begin m key ?fp w")
    have w1: "aw_audit w1 = aw_audit w" using aside b unfolding manager_aside_def by (metis asideD untouched_def)
    from k fp b assms(3) consider (acquired) ow where "d = Inr (StateAcquired ow)" | (kept) env where "d = Inr (StateCompleted (Inr env))"
      by (auto simp: idempotency_mw_def split: sum.splits decision.splits)
    then show ?thesis
    proof cases
      case acquired
      obtain r w2 where run: "persist_outcome m key ow (h c w1) = (r, w2)" by (cases "persist_outcome m key ow (h c w1)")
      with k fp b acquired have "?run = (r, w2)" by (simp add: idempotency_mw_def)
      with persist_outcome_same [OF aside run] w1 show ?thesis by (intro disjI1 carried_outI [of c _ _ w1]) simp_all
    next
      case kept
      with k fp b have "?run = (reply c 200 (ev_Code env) (ev_Message env) (ev_Body env), w1)"
        by (simp add: idempotency_mw_def)
      with k b kept w1 have "kept_run s key c w ?run" unfolding kept_run_def body paths_def by auto
      with k(1) show ?thesis by blast
    qed
  qed
qed

text \<open>The chain behind the limits: the recorder and the limiter keep their state elsewhere.\<close>

definition sides_aside :: "'p http_server \<Rightarrow> bool" where
  "sides_aside s \<longleftrightarrow> limiter_keeps keeps_keys (hx_limiter s) \<and>
     (\<forall>m. hx_manager s = Some m \<longrightarrow> manager_aside m \<and> manager_local m) \<and>
     (\<forall>rec e w. hx_recorder s = Some rec \<longrightarrow> aw_audit (snd (rec e w)) = aw_audit w)"

lemma access_same:
  assumes "\<forall>rec e w. recorder = Some rec \<longrightarrow> aw_audit (snd (rec e w)) = aw_audit w"
  shows "fst (audit_access_mw recorder h c w) = fst (h c w) \<and> aw_audit (snd (audit_access_mw recorder h c w)) = aw_audit (snd (h c w))"
proof -
  obtain r w1 where run: "h c w = (r, w1)" by (cases "h c w")
  show ?thesis using assms by (cases r) (auto simp: audit_access_mw_def run split: option.splits)
qed

text \<open>Either way a run of the API ends that answers with a body.\<close>

definition accounted_for :: "'p http_server \<Rightarrow> principal option \<Rightarrow> ('p api_world, body) handler \<Rightarrow> string option
    \<Rightarrow> request_context \<Rightarrow> 'p api_world \<Rightarrow> body outcome_of \<times> 'p api_world \<Rightarrow> bool" where
  "accounted_for s caller h ident c w run \<longleftrightarrow> carried_out caller (rc_FullPath c) h w run \<or>
     (\<exists>key. ident = Some key \<and> kept_run s key c w run)"

lemma accounted_for_same:
  assumes "accounted_for s caller h ident c1 w1 run" "\<And>m. hx_manager s = Some m \<Longrightarrow> manager_local m"
    and "rc_Method c1 = rc_Method c" "rc_FullPath c1 = rc_FullPath c" "rc_Body c1 = rc_Body c" "rc_subject c1 = rc_subject c"
    and "aw_idempotency w1 = aw_idempotency w" "aw_audit w1 = aw_audit w"
  shows "accounted_for s caller h ident c w run"
  using assms(1) unfolding accounted_for_def
proof
  assume "carried_out caller (rc_FullPath c1) h w1 run"
  then have "carried_out caller (rc_FullPath c) h w run" by (simp add: carried_out_def assms(4,8))
  then show "carried_out caller (rc_FullPath c) h w run \<or> (\<exists>key. ident = Some key \<and> kept_run s key c w run)" ..
qed (use kept_run_same [OF _ assms(2-8)] in blast)

lemma inner_carried_out:
  assumes "sides_aside s" "discloses (fst (api_inner_chain s h c w))"
  shows "\<exists>c1. same_request c c1 \<and> accounted_for s (rc_principal c) h (rc_idempotency c1) c w (api_inner_chain s h c w)"
proof -
  let ?i = "idempotency_mw (hx_manager s) (Idempotency_HTTPPaths (Config_Idempotency (hx_cfg s))) (hx_sha256 s) h"
  let ?l = "rate_limit_mw (hx_limiter s) (RateLimit_User (Config_RateLimit (hx_cfg s))) ''user''
        (\<lambda>c. case rc_subject c of None \<Rightarrow> [] | Some v \<Rightarrow> v) ?i"
  have l: "limiter_keeps keeps_keys (hx_limiter s)" and m: "\<And>m. hx_manager s = Some m \<Longrightarrow> manager_aside m"
    and loc: "\<And>m. hx_manager s = Some m \<Longrightarrow> manager_local m"
    and r: "\<forall>rec e w. hx_recorder s = Some rec \<longrightarrow> aw_audit (snd (rec e w)) = aw_audit w"
    using assms(1) unfolding sides_aside_def by blast+
  have a: "fst (api_inner_chain s h c w) = fst (?l c w)" "aw_audit (snd (api_inner_chain s h c w)) = aw_audit (snd (?l c w))"
    using access_same [of "hx_recorder s" ?l c w, OF r] by (simp_all add: api_inner_chain_def)
  with assms(2) have d: "discloses (fst (?l c w))" by simp
  show ?thesis
  proof (rule keyed.limit_cases [OF l, of "RateLimit_User (Config_RateLimit (hx_cfg s))" "''user''" "\<lambda>c. case rc_subject c of None \<Rightarrow> [] | Some v \<Rightarrow> v" ?i c w])
    fix c1 e w1
    assume "?l c w = (fail_reply c1 e, w1)"
    with d show ?thesis by simp
  next
    fix c1 w1
    assume run: "?l c w = ?i c1 w1" and same: "same_request c c1" "keeps_keys w w1"
    from idempotency_carried_out [OF m] d run
    have "accounted_for s (rc_principal c1) h (rc_idempotency c1) c1 w1 (?i c1 w1)" by (simp add: accounted_for_def)
    then have "accounted_for s (rc_principal c1) h (rc_idempotency c1) c w (?i c1 w1)"
      by (rule accounted_for_same [OF _ loc]) (use same in \<open>simp_all add: same_request_def keeps_keys_def untouched_def\<close>)
    then have "accounted_for s (rc_principal c) h (rc_idempotency c1) c w (api_inner_chain s h c w)"
      using a same(1) unfolding run accounted_for_def carried_out_def kept_run_def same_request_def by simp
    with same(1) show ?thesis by blast
  qed
qed

lemma evaluate_http_keys: "aw_idempotency (snd (evaluate_http s c p m r n w)) = aw_idempotency w"
  by (simp add: evaluate_http_def on_policy_def Let_def split: prod.splits)

lemma behind_limits_carried_out:
  assumes "sides_aside s" "rc_principal c = None" "rc_subject c = None" "discloses (fst (behind_limits s h c w))"
  shows "\<exists>caller c1. presented_caller (hx_verify s) (hx_cfg s) (rc_Header c) = Inr caller \<and> same_key c c1 \<and>
    accounted_for s caller h (rc_idempotency c1) (c\<lparr>rc_subject := map_option p_ID caller\<rparr>) w (behind_limits s h c w)"
proof -
  let ?a = "database_authorization_mw (Authorization_Enabled (Config_Authorization (hx_cfg s)))
        (App_Name (Config_App (hx_cfg s))) (hx_uni s) (evaluate_http s) (api_inner_chain s h)"
  have loc: "\<And>m. hx_manager s = Some m \<Longrightarrow> manager_local m" using assms(1) unfolding sides_aside_def by blast
  have auth: "\<exists>c2. same_request c1 c2 \<and> accounted_for s (rc_principal c1) h (rc_idempotency c2) c1 w (?a c1 w)"
    if d: "discloses (fst (?a c1 w))" for c1
  proof -
    obtain w1 where run: "?a c1 w = api_inner_chain s h c1 w1" "aw_audit w1 = aw_audit w" "aw_idempotency w1 = aw_idempotency w"
    proof (cases "Authorization_Enabled (Config_Authorization (hx_cfg s))")
      case False
      then have "?a c1 w = api_inner_chain s h c1 w" by (simp add: database_authorization_mw_def)
      then show thesis by (rule that) simp_all
    next
      case True
      obtain r w2 where e: "evaluate_http s c1 ''http'' (to_lower (hx_uni s) (rc_Method c1)) (rc_FullPath c1) (App_Name (Config_App (hx_cfg s))) w = (r, w2)"
        by fastforce
      have w2: "aw_audit w2 = aw_audit w" "aw_idempotency w2 = aw_idempotency w"
        using evaluate_http_aside(1) evaluate_http_keys e by (metis snd_conv)+
      from True d e have "r = None" by (auto simp: database_authorization_mw_def split: option.splits if_splits)
      with True e have "?a c1 w = api_inner_chain s h c1 w2" by (simp add: database_authorization_mw_def)
      then show thesis using w2 by (rule that)
    qed
    from d obtain c2 where c2: "same_request c1 c2"
      "accounted_for s (rc_principal c1) h (rc_idempotency c2) c1 w1 (api_inner_chain s h c1 w1)"
      using inner_carried_out [OF assms(1), of h c1 w1] unfolding run(1) by blast
    from c2(2) have "accounted_for s (rc_principal c1) h (rc_idempotency c2) c1 w (api_inner_chain s h c1 w1)"
      by (rule accounted_for_same [OF _ loc]) (simp_all add: run(2,3))
    with c2(1) run(1) show ?thesis by auto
  qed
  let ?credential = "trim_space (rc_Header c ''Authorization'')"
  show ?thesis
  proof (cases "?credential = []")
    case True
    then have run: "behind_limits s h c w = ?a c w" by (simp add: behind_limits_def database_authentication_mw_def)
    have "presented_caller (hx_verify s) (hx_cfg s) (rc_Header c) = Inr None" using True by (simp add: presented_caller_def)
    moreover from auth [of c] assms(4) obtain c2 where "same_request c c2"
      "accounted_for s (rc_principal c) h (rc_idempotency c2) c w (?a c w)" unfolding run by blast
    moreover have "c\<lparr>rc_subject := None\<rparr> = c" using assms(3) by (cases c) simp
    ultimately show ?thesis using assms(2) unfolding run same_request_def by auto
  next
    case False
    with assms(4) obtain caller where c: "check_credential (hx_verify s) (hx_cfg s) ?credential = Inr caller"
      by (cases "check_credential (hx_verify s) (hx_cfg s) ?credential") (simp_all add: behind_limits_def database_authentication_mw_def Let_def)
    let ?c = "with_caller caller (p_ID caller) ?credential c"
    from c False have run: "behind_limits s h c w = ?a ?c w"
      by (simp add: behind_limits_def database_authentication_mw_def Let_def)
    have "presented_caller (hx_verify s) (hx_cfg s) (rc_Header c) = Inr (Some caller)"
      using False c by (simp add: presented_caller_def)
    moreover from auth [of ?c] assms(4) obtain c2 where c2: "same_request ?c c2"
      "accounted_for s (Some caller) h (rc_idempotency c2) ?c w (?a ?c w)" unfolding run by (auto simp: with_caller_def)
    moreover from c2(2) have "accounted_for s (Some caller) h (rc_idempotency c2) (c\<lparr>rc_subject := Some (p_ID caller)\<rparr>) w (?a ?c w)"
      by (rule accounted_for_same [OF _ loc]) (simp_all add: with_caller_def)
    moreover from c2(1) have "same_key c c2" by (simp add: same_request_def same_key_def with_caller_def)
    ultimately show ?thesis unfolding run by auto
  qed
qed

text \<open>A request as it comes in: no middleware has put a caller or a key into its context.\<close>

definition received :: "request_context \<Rightarrow> bool" where
  "received c \<longleftrightarrow> rc_principal c = None \<and> rc_subject c = None \<and> rc_idempotency c = None"

lemma served_carried_out:
  assumes "sides_aside s" "received c" "discloses (fst (serve_api s generated c w))"
  shows "\<exists>h caller. map_of (api_routes s) (rc_FullPath c) = Some h \<and> presented_caller (hx_verify s) (hx_cfg s) (rc_Header c) = Inr caller \<and>
    (carried_out caller (rc_FullPath c) h w (serve_api s generated c w) \<or> replays s c caller w (serve_api s generated c w))"
proof -
  let ?c = "traced_request (traced_id generated c) c" and ?run = "serve_api s generated c w"
  have l: "limiter_keeps keeps_keys (hx_limiter s)" and loc: "\<And>m. hx_manager s = Some m \<Longrightarrow> manager_local m"
    using assms(1) unfolding sides_aside_def by blast+
  obtain g where g: "gates_keeping keeps_keys g (dispatch behind_limits s)" and run: "serve_api s generated c w = g ?c w"
    using keyed.served_gates [OF l] by metis
  from assms(3) have "discloses (fst (g ?c w))" by (simp only: run)
  from disclosed_behind_gate [OF g this] obtain c1 w1 where 1: "same_request ?c c1" "keeps_keys w w1" "g ?c w = dispatch behind_limits s c1 w1" .
  have same: "rc_FullPath c1 = rc_FullPath c" "rc_Header c1 = rc_Header c" "rc_principal c1 = None" "rc_subject c1 = None"
    "rc_Method c1 = rc_Method c" "rc_Body c1 = rc_Body c" "aw_audit w1 = aw_audit w" "aw_idempotency w1 = aw_idempotency w"
    using 1 assms(2) by (simp_all add: same_request_def traced_request_def untouched_def keeps_keys_def received_def)
  from assms(3) run 1(3) same(1) obtain h where h: "map_of (api_routes s) (rc_FullPath c) = Some h"
    by (cases "map_of (api_routes s) (rc_FullPath c)") (auto simp: dispatch_def)
  with 1(3) same(1) run have d: "?run = behind_limits s h c1 w1" by (simp add: dispatch_def)
  obtain caller c2 where caller: "presented_caller (hx_verify s) (hx_cfg s) (rc_Header c) = Inr caller" "same_key c1 c2"
    "accounted_for s caller h (rc_idempotency c2) (c1\<lparr>rc_subject := map_option p_ID caller\<rparr>) w1 ?run"
    using behind_limits_carried_out [OF assms(1) same(3,4), of h w1] assms(3) unfolding d same(2) by blast
  have "accounted_for s caller h (rc_idempotency c2) (c\<lparr>rc_subject := map_option p_ID caller\<rparr>) w ?run"
    by (rule accounted_for_same [OF caller(3) loc]) (simp_all add: same)
  moreover have key: "rc_Header c ''Idempotency-Key'' \<noteq> [] \<and> key = rc_Header c ''Idempotency-Key''"
    if "rc_idempotency c2 = Some key" for key
    using that caller(2) 1(1) assms(2) by (auto simp: same_request_def same_key_def traced_request_def received_def)
  ultimately have "carried_out caller (rc_FullPath c) h w ?run \<or> replays s c caller w ?run"
    unfolding accounted_for_def replays_def by auto
  with h caller(1) show ?thesis by blast
qed

section \<open>Tenants\<close>

text \<open>What of the audit data a body shows: every record of it belongs to the tenant.\<close>

fun shows_only :: "world service \<Rightarrow> string \<Rightarrow> body \<Rightarrow> bool" where
  "shows_only sv tenant (RecordBody b) \<longleftrightarrow> ab_TenantID b = tenant"
| "shows_only sv tenant (PageBody p) \<longleftrightarrow> (\<forall>b \<in> set (pb_Records p). ab_TenantID b = tenant)"
| "shows_only sv tenant (ExportBody x) \<longleftrightarrow> (\<exists>recs. csv_read (eb_Content x) = Some (export_header # map (export_fields sv) recs) \<and>
     (\<forall>r \<in> set recs. r_TenantID r = tenant))"
| "shows_only sv tenant (HealthBody h) \<longleftrightarrow> True"
| "shows_only sv tenant (MeBody m) \<longleftrightarrow> True"
| "shows_only sv tenant (VersionBody v) \<longleftrightarrow> True"
| "shows_only sv tenant (PolicyPageBody p) \<longleftrightarrow> True"
| "shows_only sv tenant (PolicyBody p) \<longleftrightarrow> True"

text \<open>A handler of the API shows what its call returned.\<close>

lemma handle_shown:
  assumes "shown (fst (handle d m call f c w)) = Some b"
  obtains q v w1 where "call q c w = (Inr v, w1)" "b = f q v" "snd (handle d m call f c w) = w1"
  using assms by (auto simp: handle_def respond_def Let_def split: sum.splits prod.splits)

lemma on_audit_Inr: "on_audit g w = (Inr v, w1) \<Longrightarrow> \<exists>a. g (aw_audit w) = (Inr v, a) \<and> aw_audit w1 = a"
  by (auto simp: on_audit_def Let_def split: prod.splits)

lemma on_audit_record:
  assumes "on_audit (service_record (new_runtime_service x) ctx v) w = (Inr r, w1)"
    and "world_ok audit_order (aw_audit w)" "audit_inv (world_tables (aw_audit w))"
  shows "\<exists>caller row. ctx = Some caller \<and> audit_inv (world_tables (aw_audit w1)) \<and>
    store_of (world_tables (aw_audit w1)) (r_ID row) = Some row \<and> kept_as (x_sql x) r row \<and>
    (p_Type caller = TypeUser \<longrightarrow> r_TenantID r = p_TenantID caller)"
proof -
  from on_audit_Inr [OF assms(1)] have run: "service_record (new_runtime_service x) ctx v (aw_audit w) = (Inr r, aw_audit w1)" by simp
  from service_record_ok [OF run] obtain caller where caller: "ctx = Some caller" "enforce_tenant caller (r_TenantID (trim_record v)) = None"
    by metis
  from record_stored [OF assms(2,3) run [unfolded caller(1)]] caller show ?thesis
    by (auto simp: enforce_tenant_def split: if_splits)
qed

lemma record_shown:
  assumes "hx_audits s = new_runtime_service x" "shown (fst (handle_record s c w)) = Some b"
    and "world_ok audit_order (aw_audit w)" "audit_inv (world_tables (aw_audit w))"
  shows "\<exists>caller r row. rc_principal c = Some caller \<and> b = RecordBody (record_response r) \<and>
    audit_inv (world_tables (aw_audit (snd (handle_record s c w)))) \<and>
    store_of (world_tables (aw_audit (snd (handle_record s c w)))) (r_ID row) = Some row \<and> kept_as (x_sql x) r row \<and>
    (p_Type caller = TypeUser \<longrightarrow> r_TenantID r = p_TenantID caller)"
proof -
  from handle_shown [OF assms(2) [unfolded handle_record_def]] obtain q r w1 where
    q: "on_audit (service_record (hx_audits s) (rc_principal c) (record_of_request q)) w = (Inr r, w1)"
    "b = RecordBody (record_response r)" "snd (handle_record s c w) = w1" unfolding handle_record_def by blast
  from on_audit_record [OF q(1) [unfolded assms(1)] assms(3,4)] q(2,3) show ?thesis by blast
qed

lemma on_audit_query:
  assumes "on_audit (service_query (new_runtime_service x) (Some caller) flt) w = (Inr page, w1)" "p_Type caller = TypeUser"
  shows "\<forall>r \<in> set (pg_Records page). r_TenantID r = p_TenantID caller"
proof -
  from on_audit_Inr [OF assms(1)] obtain a where
    "service_query (new_runtime_service x) (Some caller) flt (aw_audit w) = (Inr page, a)" by blast
  from sql_reads.query_isolated [OF this assms(2)] show ?thesis by simp
qed

lemma on_audit_get:
  assumes "on_audit (service_get (new_runtime_service x) (Some caller) i tenant) w = (Inr r, w1)" "p_Type caller = TypeUser"
  shows "r_TenantID r = p_TenantID caller"
proof -
  from on_audit_Inr [OF assms(1)] obtain a where
    "service_get (new_runtime_service x) (Some caller) i tenant (aw_audit w) = (Inr r, a)" by blast
  from sql_reads.get_isolated [OF this assms(2)] show ?thesis by simp
qed

lemma on_audit_export:
  assumes "on_audit (service_export (new_runtime_service x) (Some caller) flt m) w = (Inr (out, n), w1)" "p_Type caller = TypeUser"
  shows "shows_only (new_runtime_service x) (p_TenantID caller)
    (ExportBody \<lparr>eb_Content = out, eb_ContentType = ty, eb_Filename = name, eb_RecordCount = n\<rparr>)"
proof -
  from on_audit_Inr [OF assms(1)] obtain a where
    "service_export (new_runtime_service x) (Some caller) flt m (aw_audit w) = (Inr (out, n), a)" by blast
  from export_rows_read [OF this] assms(2) show ?thesis by auto
qed

text \<open>Every route of the API shows a user records of their tenant only.\<close>

lemma routes_show_only:
  assumes "map_of (api_routes s) route = Some h" "hx_audits s = new_runtime_service x" "rc_principal c = Some caller"
    and "p_Type caller = TypeUser" "world_ok audit_order (aw_audit w)" "audit_inv (world_tables (aw_audit w))"
    and "shown (fst (h c w)) = Some b"
  shows "shows_only (new_runtime_service x) (p_TenantID caller) b"
proof -
  from assms(1) consider "h = handle_record s" | "h = handle_get s" | "h = handle_query s" | "h = handle_export s"
    | "h \<in> {handle_version s, handle_me, handle_page_policies s, handle_get_policy s, handle_set_policy s}"
    by (auto simp: api_routes_def split: if_splits)
  then show ?thesis
  proof cases
    case 1
    from record_shown [OF assms(2) assms(7) [unfolded 1] assms(5,6)] assms(3,4) show ?thesis
      by (auto simp: record_response_def)
  next
    case 2
    obtain q :: get_request and r :: audit_record and w1 where
      "on_audit (service_get (hx_audits s) (rc_principal c) (qg_ID q) (qg_TenantID q)) w = (Inr r, w1)" "b = RecordBody (record_response r)"
      by (rule handle_shown [OF assms(7) [unfolded 2 handle_get_def]], erule that, assumption)
    then show ?thesis using on_audit_get [of x caller "qg_ID q" "qg_TenantID q" w r w1] assms(2-4) by (simp add: record_response_def)
  next
    case 3
    obtain q :: query_request and page :: audit_page and w1 where
      "on_audit (service_query (hx_audits s) (rc_principal c) (filter_of_request q)) w = (Inr page, w1)"
      "b = PageBody \<lparr>pb_Records = map record_response (pg_Records page), pb_Total = pg_Total page, pb_Page = pg_Page page, pb_PageSize = pg_PageSize page\<rparr>"
      by (rule handle_shown [OF assms(7) [unfolded 3 handle_query_def]], erule that, assumption)
    then show ?thesis using on_audit_query [of x caller "filter_of_request q" w page w1] assms(2-4) by (simp add: record_response_def)
  next
    case 4
    obtain q :: export_request and v w1 where "on_audit (service_export (hx_audits s) (rc_principal c) (filter_of_request (qe_Query q)) (qe_MaxRecords q)) w = (Inr v, w1)"
      and b: "b = (case v of (out, n) \<Rightarrow> ExportBody \<lparr>eb_Content = out, eb_ContentType = ''text/csv; charset=utf-8'', eb_Filename = ''audit-records.csv'', eb_RecordCount = n\<rparr>)"
      by (rule handle_shown [OF assms(7) [unfolded 4 handle_export_def]], erule that, assumption)
    then show ?thesis using on_audit_export assms(2-4) unfolding b by (cases v) simp
  next
    case 5
    then show ?thesis using assms(7)
      by (auto simp: handle_version_def handle_me_def handle_page_policies_def handle_get_policy_def handle_set_policy_def
          elim!: handle_shown)
  qed
qed

text \<open>What a client is shown was carried out by the route's handler for the caller it proved, or replayed.\<close>

lemma served_shown:
  assumes "sides_aside s" "received c" "shown (fst (serve_api s g c w)) = Some b"
    and "presented_caller (hx_verify s) (hx_cfg s) (rc_Header c) = Inr caller"
  shows "replays s c caller w (serve_api s g c w) \<or>
    (\<exists>h c1 w1. map_of (api_routes s) (rc_FullPath c) = Some h \<and> rc_principal c1 = caller \<and> aw_audit w1 = aw_audit w \<and>
       shown (fst (h c1 w1)) = Some b \<and> aw_audit (snd (serve_api s g c w)) = aw_audit (snd (h c1 w1)))"
proof (cases "replays s c caller w (serve_api s g c w)")
  case False
  with served_carried_out [OF assms(1,2) shown_discloses [OF assms(3)]] assms(4) obtain h where
    h: "map_of (api_routes s) (rc_FullPath c) = Some h" "carried_out caller (rc_FullPath c) h w (serve_api s g c w)" by auto
  from h(2) obtain c1 w1 where "rc_principal c1 = caller" "aw_audit w1 = aw_audit w" "fst (serve_api s g c w) = fst (h c1 w1)"
    "aw_audit (snd (serve_api s g c w)) = aw_audit (snd (h c1 w1))" unfolding carried_out_def by blast
  with h(1) assms(3) show ?thesis by (intro disjI2 exI [of _ h] exI [of _ c1] exI [of _ w1]) simp
qed simp

text \<open>
  C6. A user is shown nothing of another tenant over the HTTP API: whatever route they call and whatever
  they ask for, the body they are answered with holds audit records of their own tenant only, an export
  reads back as such records only.  The one exception is a replay: the request carries an idempotency key
  for which the store of keys, in the state the request arrived in, has a completed answer to the
  fingerprint of this very request of this caller; then that kept body is shown and nothing is written.
\<close>

lemma http_answers_within_tenant:
  assumes "sides_aside s" "received c" "hx_audits s = new_runtime_service x"
    and "world_ok audit_order (aw_audit w)" "audit_inv (world_tables (aw_audit w))"
    and "presented_caller (hx_verify s) (hx_cfg s) (rc_Header c) = Inr (Some caller)" "p_Type caller = TypeUser"
    and "shown (fst (serve_api s g c w)) = Some b"
  shows "shows_only (new_runtime_service x) (p_TenantID caller) b \<or> replays s c (Some caller) w (serve_api s g c w)"
proof (cases "replays s c (Some caller) w (serve_api s g c w)")
  case False
  with served_shown [OF assms(1,2,8,6)] obtain h and c1 :: request_context and w1 where
    "map_of (api_routes s) (rc_FullPath c) = Some h" "rc_principal c1 = Some caller" "aw_audit w1 = aw_audit w" "shown (fst (h c1 w1)) = Some b"
    by blast
  with routes_show_only [OF _ assms(3) _ assms(7), of "rc_FullPath c" h c1 w1 b] assms(4,5) show ?thesis by simp
qed simp

text \<open>
  C5. A creation that is answered is stored: when the HTTP API answers a request to create a record with a
  record, the audit tables are consistent and hold the row the columns keep of that record, with the times
  the database gave it; or the answer is a replay, for the request's own key, caller and fingerprint, of one
  the store of keys had when the request arrived, and then nothing is written.
\<close>

lemma http_creation_is_durable:
  assumes "sides_aside s" "received c" "hx_audits s = new_runtime_service x"
    and "world_ok audit_order (aw_audit w)" "audit_inv (world_tables (aw_audit w))"
    and "rc_FullPath c = ''/api/v1/audit/records/create''" "serve_api s g c w = (answer, w')" "shown answer = Some b"
  shows "\<exists>caller. presented_caller (hx_verify s) (hx_cfg s) (rc_Header c) = Inr caller \<and>
    (replays s c caller w (answer, w') \<or>
     (audit_inv (world_tables (aw_audit w')) \<and> (\<exists>r row. b = RecordBody (record_response r) \<and>
       store_of (world_tables (aw_audit w')) (r_ID row) = Some row \<and> kept_as (x_sql x) r row)))"
proof -
  from assms(8) have sh: "shown (fst (serve_api s g c w)) = Some b" by (simp add: assms(7))
  have "discloses (fst (serve_api s g c w))" by (rule shown_discloses [OF sh])
  from served_carried_out [OF assms(1,2) this] obtain caller where
    caller: "presented_caller (hx_verify s) (hx_cfg s) (rc_Header c) = Inr caller" by blast
  show ?thesis
  proof (cases "replays s c caller w (answer, w')")
    case False
    with served_shown [OF assms(1,2) sh caller] obtain h and c1 :: request_context and w1 where
      run: "map_of (api_routes s) (rc_FullPath c) = Some h" "aw_audit w1 = aw_audit w" "shown (fst (h c1 w1)) = Some b"
        "aw_audit (snd (h c1 w1)) = aw_audit w'"
      by (auto simp: assms(7))
    from run(1) have "h = handle_record s" by (simp add: assms(6) api_routes_def)
    with record_shown [OF assms(3), of c1 w1 b] run(2-4) assms(4,5) caller show ?thesis by auto
  qed (use caller in blast)
qed

section \<open>The two properties apply\<close>

text \<open>
  The example server with its store of keys, which keys the API's routes, and one whose decoder reads a
  creation.  The requests carry a key the store has no entry for, so what they are answered is no replay.
\<close>

definition ex_keyed :: "string list http_server" where
  "ex_keyed = ex_http\<lparr>hx_cfg := (hx_cfg ex_http)\<lparr>Config_Idempotency :=
     (Config_Idempotency (hx_cfg ex_http))\<lparr>Idempotency_HTTPPaths := [''/api/*/*/*/*'']\<rparr>\<rparr>, hx_sha256 := ex_checksum\<rparr>"

definition ex_creating :: "string list http_server" where
  "ex_creating = ex_keyed\<lparr>hx_decoders := (hx_decoders ex_http)\<lparr>de_record := (\<lambda>b. Inr
     \<lparr>qr_ID = ''i2'', qr_TenantID = ''t1'', qr_ApplicationID = ''app'', qr_ActorID = ''alice'', qr_ActorType = ''user'',
       qr_Action = ''update'', qr_ResourceType = ''doc'', qr_ResourceID = ''7'', qr_RequestID = [], qr_TraceID = [],
       qr_SourceService = ''docs'', qr_BeforeSummary = [], qr_AfterSummary = [], qr_OccurredAt = 5123\<rparr>)\<rparr>,
     hx_cfg := (hx_cfg ex_keyed)\<lparr>Config_Authorization := (Config_Authorization (hx_cfg ex_http))\<lparr>Authorization_Enabled := False\<rparr>\<rparr>\<rparr>"

definition ex_keyed_request :: request_context where
  "ex_keyed_request = ex_request\<lparr>rc_Header := (rc_Header ex_request)(''Idempotency-Key'' := ''k'')\<rparr>"

definition ex_creation :: request_context where
  "ex_creation = ex_keyed_request\<lparr>rc_FullPath := ''/api/v1/audit/records/create''\<rparr>"

lemma ex_aside: "sides_aside ex_keyed" "sides_aside ex_creating"
  by (auto simp: sides_aside_def ex_creating_def ex_keyed_def ex_http_def limiter_keeps_def new_limiter_def ex_recorder_def
      ex_manager_def manager_aside_def aside_def untouched_def manager_local_def split: option.splits)

lemma ex_state_ok: "world_ok audit_order (aw_audit ex_state)" "audit_inv (world_tables (aw_audit ex_state))"
proof -
  have "db_script (w_db (aw_audit ex_state)) = []" by code_simp
  then show "world_ok audit_order (aw_audit ex_state)" by simp
  show "audit_inv (world_tables (aw_audit ex_state))" by code_simp
qed

lemma ex_no_replay: "\<not> replays ex_keyed c caller ex_state run" "\<not> replays ex_creating c caller ex_state run"
  by (auto simp: replays_def kept_run_def ex_creating_def ex_keyed_def ex_http_def ex_manager_def ex_state_def)

lemma http_answers_within_tenant_witness:
  "case shown (fst (serve_api ex_keyed ''g'' ex_keyed_request ex_state)) of Some b \<Rightarrow> shows_only ex_service ''t1'' b | None \<Rightarrow> False"
proof -
  let ?answer = "fst (serve_api ex_keyed ''g'' ex_keyed_request ex_state)"
  have "shown ?answer \<noteq> None" by code_simp
  then obtain b where b: "shown ?answer = Some b" by auto
  have "presented_caller (hx_verify ex_keyed) (hx_cfg ex_keyed) (rc_Header ex_keyed_request) = Inr (Some ex_user)" by code_simp
  moreover have "received ex_keyed_request" "hx_audits ex_keyed = new_runtime_service ex_externals"
    "p_Type ex_user = TypeUser" "p_TenantID ex_user = ''t1''"
    by (simp_all add: received_def ex_keyed_request_def ex_keyed_def ex_http_def ex_request_def ex_user_def ex_service_def)
  ultimately show ?thesis
    using http_answers_within_tenant [OF ex_aside(1) _ _ ex_state_ok _ _ b, of ex_externals ex_user]
    by (simp add: b ex_service_def ex_no_replay)
qed

text \<open>The request that created the record leaves its answer under the key.\<close>

lemma http_creation_is_durable_witness:
  "case serve_api ex_creating ''g'' ex_creation ex_state of (answer, w') \<Rightarrow>
     aw_idempotency w' ''k'' \<noteq> None \<and>
     (\<exists>r row. shown answer = Some (RecordBody (record_response r)) \<and>
       store_of (world_tables (aw_audit w')) (r_ID row) = Some row \<and> kept_as (x_sql ex_externals) r row)"
proof -
  let ?run = "serve_api ex_creating ''g'' ex_creation ex_state"
  have "shown (fst ?run) \<noteq> None" and key: "aw_idempotency (snd ?run) ''k'' \<noteq> None" by code_simp+
  then obtain b where b: "shown (fst ?run) = Some b" by auto
  have "received ex_creation" "hx_audits ex_creating = new_runtime_service ex_externals"
    "rc_FullPath ex_creation = ''/api/v1/audit/records/create''"
    by (simp_all add: received_def ex_creating_def ex_keyed_def ex_http_def ex_creation_def ex_keyed_request_def ex_request_def ex_service_def)
  with http_creation_is_durable [OF ex_aside(2) _ _ ex_state_ok _ prod.collapse [symmetric, of ?run] b, of ex_externals] b
  show ?thesis using key by (auto simp: case_prod_beta ex_no_replay)
qed

end
