(* ===== verification/Grpc_Whole.thy ===== *)
theory Grpc_Whole
  imports Http_Whole Grpc_Facts
begin

text \<open>
  The gRPC server as a whole, as \<open>Http_Whole\<close> for the HTTP server: what a call is answered comes from the
  audit service, called as the caller its credential proves.
\<close>

section \<open>Where an answer comes from\<close>

definition call_carried :: "principal option \<Rightarrow> ('p api_world, 'a) call \<Rightarrow> 'p api_world \<Rightarrow> 'a answered \<times> 'p api_world \<Rightarrow> bool" where
  "call_carried caller h w run \<longleftrightarrow> (\<exists>c1 w1. gc_principal c1 = caller \<and> aw_audit w1 = aw_audit w \<and>
     fst run = fst (h c1 w1) \<and> aw_audit (snd run) = aw_audit (snd (h c1 w1)))"

text \<open>
  What the platform's idempotency interceptor is taken to do.  When it answers a call, either that is what
  the handler behind it made of the call, for the same caller, or the call has a key, its method is one of
  those configured, and the answer is already decided by the keys it keeps: it would be the same whatever
  handler stood behind, in every state with the same keys, and the audit tables stay as they are.  The
  recorder and the metrics keep their state elsewhere.
\<close>

definition decided_by_keys :: "('p, 'ts) grpc_server \<Rightarrow> string list \<Rightarrow> string \<Rightarrow> 'ts grpc_request \<Rightarrow> call_context
    \<Rightarrow> 'p api_world \<Rightarrow> 'ts grpc_message \<Rightarrow> bool" where
  "decided_by_keys s ms path request c w m \<longleftrightarrow> gc_idempotency c \<noteq> None \<and> matches_any path ms \<and>
     (\<forall>h w0. aw_idempotency w0 = aw_idempotency w \<longrightarrow> fst (gs_idempotent s ms path request h c w0) = Answered m)"

definition call_sides_aside :: "('p, 'ts) grpc_server \<Rightarrow> bool" where
  "call_sides_aside s \<longleftrightarrow>
     (\<forall>ms path request h c w m w1. gs_idempotent s ms path request h c w = (Answered m, w1) \<longrightarrow>
        call_carried (gc_principal c) h w (Answered m, w1) \<or>
        decided_by_keys s ms path request c w m \<and> aw_audit w1 = aw_audit w) \<and>
     (\<forall>rec e w. hx_recorder (gs_http s) = Some rec \<longrightarrow> aw_audit (snd (rec e w)) = aw_audit w) \<and>
     (\<forall>count path code w. gs_observe s = Some count \<longrightarrow> aw_audit (count path code w) = aw_audit w)"

text \<open>
  A run replays an answer when, for the caller and the key of this call, the keys of the state it arrived in
  decide the answer.
\<close>

definition call_replays :: "('p, 'ts) grpc_server \<Rightarrow> 'ts grpc_request \<Rightarrow> call_context \<Rightarrow> principal option
    \<Rightarrow> 'p api_world \<Rightarrow> 'ts grpc_message \<times> 'p api_world \<Rightarrow> bool" where
  "call_replays s request c caller w run \<longleftrightarrow> aw_audit (snd run) = aw_audit w \<and>
     (\<exists>c1. gc_Metadata c1 = gc_Metadata c \<and> gc_principal c1 = caller \<and> gc_idempotency c1 = call_key c \<and>
        decided_by_keys s (Idempotency_GRPCMethods (Config_Idempotency (hx_cfg (gs_http s)))) (method_of request) request c1 w (fst run))"

lemma metrics_same:
  assumes "\<forall>count method code w. observe = Some count \<longrightarrow> aw_audit (count method code w) = aw_audit w"
  shows "fst (metrics_interceptor observe method h c w) = fst (h c w) \<and>
    aw_audit (snd (metrics_interceptor observe method h c w)) = aw_audit (snd (h c w))"
proof -
  obtain r w1 where run: "h c w = (r, w1)" by (cases "h c w")
  show ?thesis using assms by (cases r) (auto simp: metrics_interceptor_def run split: option.splits)
qed

lemma call_access_same:
  assumes "\<forall>rec e w. recorder = Some rec \<longrightarrow> aw_audit (snd (rec e w)) = aw_audit w"
  shows "fst (audit_access_interceptor recorder method h c w) = fst (h c w) \<and>
    aw_audit (snd (audit_access_interceptor recorder method h c w)) = aw_audit (snd (h c w))"
proof -
  obtain r w1 where run: "h c w = (r, w1)" by (cases "h c w")
  show ?thesis using assms by (cases r) (auto simp: audit_access_interceptor_def run split: option.splits)
qed

lemma inner_call_carried:
  assumes "call_sides_aside s" "fst (inner_call s request c w) = Answered m"
  shows "call_carried (gc_principal c) (grpc_handler s request) w (inner_call s request c w) \<or>
    decided_by_keys s (Idempotency_GRPCMethods (Config_Idempotency (hx_cfg (gs_http s)))) (method_of request) request c w m \<and>
    aw_audit (snd (inner_call s request c w)) = aw_audit w"
proof -
  let ?ms = "Idempotency_GRPCMethods (Config_Idempotency (hx_cfg (gs_http s)))" and ?path = "method_of request"
  let ?m = "metrics_interceptor (gs_observe s) ?path (grpc_handler s request)"
  let ?i = "gs_idempotent s ?ms ?path request ?m"
  note law = assms(1) [unfolded call_sides_aside_def]
  from law have r: "\<forall>rec e w. hx_recorder (gs_http s) = Some rec \<longrightarrow> aw_audit (snd (rec e w)) = aw_audit w" by (elim conjE)
  from law have o: "\<forall>count path code w. gs_observe s = Some count \<longrightarrow> aw_audit (count path code w) = aw_audit w" by (elim conjE)
  from law have k: "\<forall>ms path request h c w m w1. gs_idempotent s ms path request h c w = (Answered m, w1) \<longrightarrow>
        call_carried (gc_principal c) h w (Answered m, w1) \<or>
        decided_by_keys s ms path request c w m \<and> aw_audit w1 = aw_audit w" by (elim conjE)
  have a: "fst (inner_call s request c w) = fst (?i c w)" "aw_audit (snd (inner_call s request c w)) = aw_audit (snd (?i c w))"
    using call_access_same [OF r, of ?path ?i c w] by (simp_all add: inner_call_def)
  obtain w1 where run: "?i c w = (Answered m, w1)" using assms(2) a(1) by (cases "?i c w") simp
  from k run have "call_carried (gc_principal c) ?m w (?i c w) \<or>
      decided_by_keys s ?ms ?path request c w m \<and> aw_audit (snd (?i c w)) = aw_audit w" by (metis snd_conv)
  then show ?thesis using a metrics_same [OF o, of ?path "grpc_handler s request"] unfolding call_carried_def by metis
qed

lemma decided_same_keys:
  "aw_idempotency w1 = aw_idempotency w \<Longrightarrow> decided_by_keys s ms path request c w1 m = decided_by_keys s ms path request c w m"
  by (simp add: decided_by_keys_def)

lemma evaluate_grpc_keys: "aw_idempotency (snd (evaluate_grpc s c p m r n w)) = aw_idempotency w"
  by (simp add: evaluate_grpc_def on_policy_def Let_def split: prod.splits)

lemma served_call_carried:
  assumes "call_sides_aside s" "gc_principal c = None" "fst (serve_grpc s generated request c w) = Answered m"
  shows "\<exists>caller. presented_caller (hx_verify (gs_http s)) (hx_cfg (gs_http s)) (call_header c) = Inr caller \<and>
    (call_carried caller (grpc_handler s request) w (serve_grpc s generated request c w) \<or>
     call_replays s request c caller w (m, snd (serve_grpc s generated request c w)))"
proof (cases rule: serve_grpc_run [OF assms(2), of s generated request w, case_names refused passed])
  case (refused code message)
  with assms(3) show ?thesis by simp
next
  case (passed c1 handler)
  let ?s = "gs_http s" and ?cfg = "hx_cfg (gs_http s)"
  have header: "call_header c1 = call_header c" using passed(2) by (simp add: call_header_def [abs_def])
  let ?d = "database_authorization_interceptor (Authorization_Enabled (Config_Authorization ?cfg)) (App_Name (Config_App ?cfg))
      (evaluate_grpc ?s) (method_of request) (inner_call s request)"
  let ?a = "optional_auth_interceptor (hx_verify ?s) ?cfg ?d"
  have rec: "serve_grpc s generated request c w = recovery_interceptor ?a c1 w" using passed(3,4) by simp
  have run: "serve_grpc s generated request c w = ?a c1 w" "fst (?a c1 w) = Answered m"
    using assms(3) unfolding rec by (cases "?a c1 w"; cases "fst (?a c1 w)"; simp add: recovery_interceptor_def)+
  show ?thesis
  proof (cases "authenticate_grpc_optional (hx_verify ?s) ?cfg c1")
    case (Inl x)
    with run(2) show ?thesis by (cases x) (simp add: optional_auth_interceptor_def)
  next
    case (Inr c2)
    then have a: "?a c1 w = ?d c2 w" by (simp add: optional_auth_interceptor_def)
    have answered: "fst (?d c2 w) = Answered m" using run(2) unfolding a .
    obtain w2 where d: "?d c2 w = inner_call s request c2 w2" "aw_audit w2 = aw_audit w" "aw_idempotency w2 = aw_idempotency w"
    proof (cases "Authorization_Enabled (Config_Authorization ?cfg)")
      case False
      with that [of w] show thesis by (simp add: database_authorization_interceptor_def)
    next
      case True
      let ?w2 = "snd (evaluate_grpc ?s c2 ''grpc'' ''call'' (method_of request) (App_Name (Config_App ?cfg)) w)"
      have "?d c2 w = inner_call s request c2 ?w2"
        using answered unfolding True [THEN eqTrueI] grpc_authorization_run Let_def by (auto split: option.splits if_splits)
      with that [of ?w2] show thesis by (simp add: evaluate_grpc_aside evaluate_grpc_keys)
    qed
    note auth = authenticated_call [OF passed(1) Inr]
    have "fst (inner_call s request c2 w2) = Answered m" using answered unfolding d(1) .
    from inner_call_carried [OF assms(1) this] show ?thesis
    proof
      assume "call_carried (gc_principal c2) (grpc_handler s request) w2 (inner_call s request c2 w2)"
      then have "call_carried (gc_principal c2) (grpc_handler s request) w (?a c1 w)"
        unfolding a d(1) using d(2) by (auto simp: call_carried_def)
      with auth header run(1) show ?thesis by auto
    next
      assume k: "decided_by_keys s (Idempotency_GRPCMethods (Config_Idempotency ?cfg)) (method_of request) request c2 w2 m \<and>
        aw_audit (snd (inner_call s request c2 w2)) = aw_audit w2"
      have "call_replays s request c (gc_principal c2) w (m, snd (serve_grpc s generated request c w))"
        unfolding call_replays_def run(1) a d(1) using k [unfolded decided_same_keys [OF d(3)]] auth passed(2,5) d(2)
        by (intro conjI exI [of _ c2]) simp_all
      with auth header show ?thesis by auto
    qed
  qed
qed

section \<open>Tenants and stored records\<close>

text \<open>What of the audit data a message shows: every record of it belongs to the tenant.\<close>

fun message_within :: "world service \<Rightarrow> string \<Rightarrow> 'ts grpc_message \<Rightarrow> bool" where
  "message_within sv tenant (RecordMessage p) \<longleftrightarrow> pr_TenantId p = tenant"
| "message_within sv tenant (QueryMessage ps n k j) \<longleftrightarrow> (\<forall>p \<in> set ps. pr_TenantId p = tenant)"
| "message_within sv tenant (ExportMessage content ty name n) \<longleftrightarrow>
     (\<exists>recs. csv_read content = Some (export_header # map (export_fields sv) recs) \<and> (\<forall>r \<in> set recs. r_TenantID r = tenant))"
| "message_within sv tenant (HealthMessage ready) \<longleftrightarrow> True"
| "message_within sv tenant HealthListMessage \<longleftrightarrow> True"

lemma conclude_Answered:
  assumes "fst (conclude f run) = Answered m"
  obtains v w1 where "run = (Inr v, w1)" "m = f v" "snd (conclude f run) = w1"
proof -
  obtain r w1 where run: "run = (r, w1)" by (cases run)
  show thesis
  proof (cases r)
    case (Inl err)
    with assms run show thesis by (auto simp: conclude_def grpc_error_def split: option.splits goerr.splits)
  next
    case (Inr v)
    with assms run show thesis by (intro that [of v w1]) (simp_all add: conclude_def)
  qed
qed

lemma to_proto_tenant [simp]: "pr_TenantId (to_proto_audit ts r) = r_TenantID r"
  by (simp add: to_proto_audit_def)

lemma handlers_within:
  assumes "hx_audits (gs_http s) = new_runtime_service x" "gc_principal c = Some caller" "p_Type caller = TypeUser"
    and "world_ok audit_order (aw_audit w)" "audit_inv (world_tables (aw_audit w))"
    and "fst (grpc_handler s request c w) = Answered m"
  shows "message_within (new_runtime_service x) (p_TenantID caller) m"
proof (cases request)
  case (RecordRequest p)
  with assms(6) obtain input where p: "p = Some input" by (cases p) (simp_all add: grpc_record_def)
  note run = assms(6) [unfolded RecordRequest p grpc_handler.simps grpc_record_def option.case assms(1,2)]
  obtain r w1 where r: "on_audit (service_record (new_runtime_service x) (Some caller) (from_proto_audit (gs_timestamps s) input)) w = (Inr r, w1)"
    "m = RecordMessage (to_proto_audit (gs_timestamps s) r)" by (rule conclude_Answered [OF run]) (rule that)
  from on_audit_record [OF r(1) assms(4,5)] assms(3) r(2) show ?thesis by auto
next
  case (GetRequest i tenant)
  note run = assms(6) [unfolded GetRequest grpc_handler.simps grpc_get_def assms(1,2)]
  obtain r w1 where r: "on_audit (service_get (new_runtime_service x) (Some caller) i tenant) w = (Inr r, w1)"
    "m = RecordMessage (to_proto_audit (gs_timestamps s) r)" by (rule conclude_Answered [OF run]) (rule that)
  from on_audit_get [OF r(1) assms(3)] r(2) show ?thesis by simp
next
  case (QueryRequest q)
  note run = assms(6) [unfolded QueryRequest grpc_handler.simps grpc_query_def assms(1,2)]
  obtain page :: audit_page and w1 where r: "on_audit (service_query (new_runtime_service x) (Some caller) (query_filter (gs_timestamps s) q)) w = (Inr page, w1)"
    "m = QueryMessage (map (to_proto_audit (gs_timestamps s)) (pg_Records page)) (word_of_int (pg_Total page)) (word_of_int (pg_Page page)) (word_of_int (pg_PageSize page))"
    by (rule conclude_Answered [OF run]) (rule that)
  from on_audit_query [OF r(1) assms(3)] r(2) show ?thesis by simp
next
  case (ExportRequest q n)
  note run = assms(6) [unfolded ExportRequest grpc_handler.simps grpc_export_def assms(1,2)]
  obtain v w1 where r: "on_audit (service_export (new_runtime_service x) (Some caller) (filter_from_proto (gs_timestamps s) q) n) w = (Inr v, w1)"
    "m = (case v of (content, count) \<Rightarrow> ExportMessage content ''text/csv; charset=utf-8'' ''audit-records.csv'' count)"
    by (rule conclude_Answered [OF run]) (rule that)
  obtain content count where v: "v = (content, count)" by (cases v)
  from on_audit_export [OF r(1) [unfolded v] assms(3)] show ?thesis using r(2) by (simp add: v)
next
  case HealthCheckRequest
  with assms(6) show ?thesis by (auto simp: health_check_def split: prod.splits)
next
  case HealthListRequest
  with assms(6) show ?thesis by (auto simp: health_list_def)
qed

lemma recorded_stored:
  assumes "hx_audits (gs_http s) = new_runtime_service x" "world_ok audit_order (aw_audit w)" "audit_inv (world_tables (aw_audit w))"
    and "fst (grpc_handler s (RecordRequest p) c w) = Answered m"
  shows "\<exists>r row. m = RecordMessage (to_proto_audit (gs_timestamps s) r) \<and>
    store_of (world_tables (aw_audit (snd (grpc_handler s (RecordRequest p) c w)))) (r_ID row) = Some row \<and> kept_as (x_sql x) r row"
proof -
  from assms(4) obtain input where p: "p = Some input" by (cases p) (simp_all add: grpc_record_def)
  note run = assms(4) [unfolded p grpc_handler.simps grpc_record_def option.case assms(1)]
  obtain r w1 where r: "on_audit (service_record (new_runtime_service x) (gc_principal c) (from_proto_audit (gs_timestamps s) input)) w = (Inr r, w1)"
    "m = RecordMessage (to_proto_audit (gs_timestamps s) r)"
    "snd (conclude (\<lambda>v. RecordMessage (to_proto_audit (gs_timestamps s) v))
       (on_audit (service_record (new_runtime_service x) (gc_principal c) (from_proto_audit (gs_timestamps s) input)) w)) = w1"
    by (rule conclude_Answered [OF run]) (rule that)
  have "snd (grpc_handler s (RecordRequest p) c w) = w1" using r(3) by (simp add: p grpc_record_def assms(1))
  with on_audit_record [OF r(1) assms(2,3)] r(2) show ?thesis by blast
qed

text \<open>The example state with a policy for the calls.\<close>

definition ex_state_of_calls :: "string list api_world" where
  "ex_state_of_calls = ex_state\<lparr>aw_policy := (aw_policy ex_state)\<lparr>pw_manager :=
     \<lparr>mg_snapshot = [''grpc call /platform.audit.v1.AuditService/Get''], mg_revision = 0, mg_routeIDs = Map.empty\<rparr>\<rparr>\<rparr>"

text \<open>
  C7. Over gRPC as well a user is shown nothing of another tenant and is told nothing that is not stored: an
  answered call of any method carries audit records of the caller's tenant only, and the answer to a record
  that was sent is a record whose row, as the columns keep it, the tables hold.  The one exception is a
  replay: the call has an idempotency key for which the interceptor's keys, in the state the call arrived in,
  decide the answer of this very call of this caller, whatever handler stands behind; then nothing is written.
\<close>

lemma grpc_answers_within_tenant:
  assumes "call_sides_aside s" "gc_principal c = None" "hx_audits (gs_http s) = new_runtime_service x"
    and "world_ok audit_order (aw_audit w)" "audit_inv (world_tables (aw_audit w))"
    and "presented_caller (hx_verify (gs_http s)) (hx_cfg (gs_http s)) (call_header c) = Inr (Some caller)" "p_Type caller = TypeUser"
    and "serve_grpc s generated request c w = (Answered m, w')"
  shows "call_replays s request c (Some caller) w (m, w') \<or> (message_within (new_runtime_service x) (p_TenantID caller) m \<and>
    (\<forall>p. request = RecordRequest p \<longrightarrow> (\<exists>r row. m = RecordMessage (to_proto_audit (gs_timestamps s) r) \<and>
       store_of (world_tables (aw_audit w')) (r_ID row) = Some row \<and> kept_as (x_sql x) r row)))"
proof (cases "call_replays s request c (Some caller) w (m, w')")
  case False
  have "fst (serve_grpc s generated request c w) = Answered m" by (simp add: assms(8))
  from served_call_carried [OF assms(1,2) this] False assms(6) have "call_carried (Some caller) (grpc_handler s request) w (Answered m, w')"
    by (auto simp: assms(8))
  then obtain c1 w1 where run: "gc_principal c1 = Some caller" "aw_audit w1 = aw_audit w" "fst (grpc_handler s request c1 w1) = Answered m"
    "aw_audit w' = aw_audit (snd (grpc_handler s request c1 w1))" by (auto simp: call_carried_def)
  have ok: "world_ok audit_order (aw_audit w1)" "audit_inv (world_tables (aw_audit w1))" using assms(4,5) run(2) by simp_all
  from handlers_within [OF assms(3) run(1) assms(7) ok run(3)] recorded_stored [OF assms(3) ok] run(3,4) show ?thesis by auto
qed simp

text \<open>
  An interceptor that keeps the exports it has answered under their keys, gives them again, and refuses a
  key another method has used; a call with a key it has not seen.
\<close>

definition ex_replayed :: "string \<times> body decision \<Rightarrow> int grpc_message answered" where
  "ex_replayed kept = (case snd kept of
      StateCompleted (Inr env) \<Rightarrow> (case ev_Body env of
          Some (ExportBody b) \<Rightarrow> Answered (ExportMessage (eb_Content b) (eb_ContentType b) (eb_Filename b) (eb_RecordCount b))
        | _ \<Rightarrow> Status Aborted ''idempotency key was used'')
    | _ \<Rightarrow> Status Aborted ''idempotency key was used'')"

definition ex_kept :: "int grpc_message \<Rightarrow> body decision" where
  "ex_kept m = (case m of
      ExportMessage content ty name n \<Rightarrow> StateCompleted (Inr \<lparr>ev_Code = CodeOK, ev_Message = [],
        ev_Body = Some (ExportBody \<lparr>eb_Content = content, eb_ContentType = ty, eb_Filename = name, eb_RecordCount = n\<rparr>), ev_RequestID = []\<rparr>)
    | _ \<Rightarrow> StateOther)"

definition ex_interceptor :: "string list \<Rightarrow> string \<Rightarrow> int grpc_request \<Rightarrow> (string list api_world, int grpc_message) interceptor" where
  "ex_interceptor ms path request h c w = (case gc_idempotency c of
      None \<Rightarrow> h c w
    | Some key \<Rightarrow>
        if \<not> matches_any path ms then h c w
        else (case aw_idempotency w key of
            Some kept \<Rightarrow> (ex_replayed kept, w)
          | None \<Rightarrow> (case h c w of
                (Answered m, w1) \<Rightarrow> (Answered m, w1\<lparr>aw_idempotency := (aw_idempotency w1)(key \<mapsto> (path, ex_kept m))\<rparr>)
              | (r, w1) \<Rightarrow> (r, w1))))"

definition ex_keyed_grpc :: "(string list, int) grpc_server" where
  "ex_keyed_grpc = ex_grpc\<lparr>gs_idempotent := ex_interceptor, gs_http := ex_http\<lparr>hx_cfg := (hx_cfg ex_http)\<lparr>Config_Idempotency :=
     (Config_Idempotency (hx_cfg ex_http))\<lparr>Idempotency_GRPCMethods := [''/platform.audit.v1.AuditService/*'']\<rparr>\<rparr>\<rparr>\<rparr>"

definition ex_keyed_call :: call_context where
  "ex_keyed_call = ex_call\<lparr>gc_Metadata := (gc_Metadata ex_call)(''idempotency-key'' := [''k''])\<rparr>"

lemma ex_interceptor_law:
  assumes "ex_interceptor ms path request h c w = (Answered m, w1)"
  shows "call_carried (gc_principal c) h w (Answered m, w1) \<or>
    decided_by_keys ex_keyed_grpc ms path request c w m \<and> aw_audit w1 = aw_audit w"
proof (cases "\<exists>key kept. gc_idempotency c = Some key \<and> matches_any path ms \<and> aw_idempotency w key = Some kept")
  case True
  then obtain key kept where k: "gc_idempotency c = Some key" "matches_any path ms" "aw_idempotency w key = Some kept" by blast
  with assms have "ex_replayed kept = Answered m" "w1 = w" by (simp_all add: ex_interceptor_def)
  with k show ?thesis by (simp add: decided_by_keys_def ex_keyed_grpc_def ex_interceptor_def)
next
  case False
  obtain r w2 where h: "h c w = (r, w2)" by (cases "h c w")
  from False assms h have "r = Answered m \<and> aw_audit w1 = aw_audit w2"
    by (cases r) (auto simp: ex_interceptor_def split: option.splits if_splits)
  with h show ?thesis unfolding call_carried_def by (intro disjI1 exI [of _ c] exI [of _ w]) simp
qed

lemma grpc_answers_within_tenant_witness:
  "case serve_grpc ex_keyed_grpc ''g'' (GetRequest ''i1'' ''t1'') ex_keyed_call ex_state_of_calls of
     (Answered m, w') \<Rightarrow> message_within ex_service ''t1'' m \<and> aw_idempotency w' ''k'' \<noteq> None | _ \<Rightarrow> False"
proof -
  let ?run = "serve_grpc ex_keyed_grpc ''g'' (GetRequest ''i1'' ''t1'') ex_keyed_call ex_state_of_calls"
  have "case fst ?run of Answered m \<Rightarrow> True | _ \<Rightarrow> False" and key: "aw_idempotency (snd ?run) ''k'' \<noteq> None" by code_simp+
  then obtain m w' where run: "?run = (Answered m, w')" by (cases ?run; cases "fst ?run") auto
  have aside: "call_sides_aside ex_keyed_grpc"
    using ex_interceptor_law by (simp add: call_sides_aside_def ex_keyed_grpc_def ex_grpc_def ex_http_def ex_recorder_def)
  have "presented_caller (hx_verify (gs_http ex_keyed_grpc)) (hx_cfg (gs_http ex_keyed_grpc)) (call_header ex_keyed_call) = Inr (Some ex_user)"
    by code_simp
  moreover have "gc_principal ex_keyed_call = None" "hx_audits (gs_http ex_keyed_grpc) = new_runtime_service ex_externals"
    "aw_audit ex_state_of_calls = aw_audit ex_state" "p_Type ex_user = TypeUser" "p_TenantID ex_user = ''t1''"
    by (simp_all add: ex_keyed_call_def ex_call_def ex_keyed_grpc_def ex_grpc_def ex_http_def ex_service_def ex_user_def ex_state_of_calls_def)
  moreover have "\<not> call_replays ex_keyed_grpc r ex_keyed_call caller ex_state_of_calls q" for r caller q
  proof
    assume "call_replays ex_keyed_grpc r ex_keyed_call caller ex_state_of_calls q"
    then obtain c1 where c1: "gc_idempotency c1 = Some ''k''" and d: "decided_by_keys ex_keyed_grpc
        (Idempotency_GRPCMethods (Config_Idempotency (hx_cfg (gs_http ex_keyed_grpc)))) (method_of r) r c1 ex_state_of_calls (fst q)"
      by (auto simp: call_replays_def call_key_def ex_keyed_call_def)
    let ?ms = "Idempotency_GRPCMethods (Config_Idempotency (hx_cfg (gs_http ex_keyed_grpc)))"
    from d have "fst (gs_idempotent ex_keyed_grpc ?ms (method_of r) r (\<lambda>c w. (Crashed, w)) c1 ex_state_of_calls) = Answered (fst q)"
      unfolding decided_by_keys_def by blast
    moreover have "aw_idempotency ex_state_of_calls ''k'' = None" by (simp add: ex_state_of_calls_def ex_state_def)
    ultimately show False using c1 by (simp add: ex_keyed_grpc_def ex_interceptor_def split: if_splits)
  qed
  ultimately show ?thesis
    using grpc_answers_within_tenant [OF aside _ _ _ _ _ _ run, of ex_externals ex_user] ex_state_ok key by (simp add: run ex_service_def)
qed

end
