(* ===== verification/Locks_Facts.thy ===== *)
theory Locks_Facts
  imports Locks
begin

text \<open>
  The scheduled job over several instances of the service: every instance runs \<open>runSample\<close> of
  \<open>internal/scheduler/scheduler.go\<close> against the same Redis, at any moment, and may die half way.
  What is relied on of Redis and \<open>redsync\<close> is \<open>lock_law\<close>.
\<close>

section \<open>A run, cut where other instances may act\<close>

text \<open>
  Up to the job: the run is over, with its error, or the job is next, under the lock if there is a locker.
\<close>

datatype sample_progress = Returned "goerr option" | Executing "lock_mutex option"

definition sample_begin :: "'w redsync option \<Rightarrow> 'w lock_world \<Rightarrow> sample_progress \<times> 'w lock_world" where
  "sample_begin locker w = (case locker of
      None \<Rightarrow> (Executing None, w)
    | Some rs \<Rightarrow>
        (case try_lock rs ''cron:sample'' (60 * second) w of
           (Inl err, w1) \<Rightarrow> (Returned (Some err), note_event JobFailed w1)
         | (Inr None, w1) \<Rightarrow> (Returned None, note_event JobSkipped w1)
         | (Inr (Some m), w1) \<Rightarrow> (Executing (Some m), w1)))"

definition sample_work :: "'w lock_world \<Rightarrow> 'w lock_world" where
  "sample_work w = note_event JobExecuted w"

text \<open>The deferred unlock.\<close>

definition sample_end :: "'w redsync option \<Rightarrow> lock_mutex option \<Rightarrow> 'w lock_world \<Rightarrow> 'w lock_world" where
  "sample_end locker lock w = (case (locker, lock) of
      (Some rs, Some m) \<Rightarrow>
        (case unlock rs m w of
           (Some _, w2) \<Rightarrow> note_event UnlockFailed w2
         | (None, w2) \<Rightarrow> w2)
    | _ \<Rightarrow> w)"

lemma run_sample_cut:
  "run_sample locker w = (case sample_begin locker w of
      (Returned err, w1) \<Rightarrow> (err, w1)
    | (Executing lock, w1) \<Rightarrow> (None, sample_end locker lock (sample_work w1)))"
  by (auto simp: run_sample_def sample_begin_def sample_work_def sample_end_def split: prod.splits sum.splits option.splits)

section \<open>What Redis and redsync promise\<close>

text \<open>
  \<open>lease w name\<close> is who has the key and until when.  A lock is given only when no lease is running, and
  lasts its expiry at least; failing, unlocking and the passing of time leave the running leases of others,
  and nobody's lease ends before its time but by their own unlocking.
\<close>

definition keeps_leases :: "('w \<Rightarrow> time) \<Rightarrow> ('w \<Rightarrow> string \<Rightarrow> (nat \<times> time) option) \<Rightarrow> (nat \<Rightarrow> bool) \<Rightarrow> 'w \<Rightarrow> 'w \<Rightarrow> bool" where
  "keeps_leases clock lease others w w1 \<longleftrightarrow> clock w \<le> clock w1 \<and>
     (\<forall>name j til. lease w name = Some (j, til) \<and> others j \<and> clock w1 < til \<longrightarrow> lease w1 name = Some (j, til))"

definition lock_law :: "(nat \<Rightarrow> 'w redsync) \<Rightarrow> ('w \<Rightarrow> time) \<Rightarrow> ('w \<Rightarrow> string \<Rightarrow> (nat \<times> time) option) \<Rightarrow> bool" where
  "lock_law client clock lease \<longleftrightarrow>
     (\<forall>i m w w1. rs_TryLock (client i) m w = (None, w1) \<longrightarrow> clock w \<le> clock w1 \<and>
        (\<forall>j til. lease w (mx_Name m) = Some (j, til) \<longrightarrow> til \<le> clock w1) \<and>
        (\<exists>til. lease w1 (mx_Name m) = Some (i, til) \<and> clock w + mx_expiry m \<le> til)) \<and>
     (\<forall>i m w err w1. rs_TryLock (client i) m w = (Some err, w1) \<longrightarrow> keeps_leases clock lease (\<lambda>j. j \<noteq> i) w w1) \<and>
     (\<forall>i m w answer w1. rs_Unlock (client i) m w = (answer, w1) \<longrightarrow> keeps_leases clock lease (\<lambda>j. j \<noteq> i) w w1)"

section \<open>The instances\<close>

text \<open>
  Which instance is past the lock and not yet past the unlock, with what lock and since when, and whether
  it has executed the job.  An instance without Redis has no locker.
\<close>

record 'w fleet =
  fl_world :: "'w lock_world"
  fl_running :: "nat \<Rightarrow> (lock_mutex option \<times> time \<times> bool) option"

definition fleet_now :: "('w \<Rightarrow> time) \<Rightarrow> 'w fleet \<Rightarrow> time" where
  "fleet_now clock f = clock (lw_redis (fl_world f))"

inductive fleet_step :: "(nat \<Rightarrow> 'w redsync option) \<Rightarrow> ('w \<Rightarrow> time) \<Rightarrow> ('w \<Rightarrow> string \<Rightarrow> (nat \<times> time) option) \<Rightarrow> 'w fleet \<Rightarrow> 'w fleet \<Rightarrow> bool"
  for locker clock lease where
  begins: "fl_running f i = None \<Longrightarrow> sample_begin (locker i) (fl_world f) = (Executing lock, w1) \<Longrightarrow>
    fleet_step locker clock lease f (f\<lparr>fl_world := w1, fl_running := (fl_running f)(i \<mapsto> (lock, fleet_now clock f, False))\<rparr>)"
| returns: "fl_running f i = None \<Longrightarrow> sample_begin (locker i) (fl_world f) = (Returned err, w1) \<Longrightarrow>
    fleet_step locker clock lease f (f\<lparr>fl_world := w1\<rparr>)"
| executes: "fl_running f i = Some (lock, since, False) \<Longrightarrow>
    fleet_step locker clock lease f (f\<lparr>fl_world := sample_work (fl_world f), fl_running := (fl_running f)(i \<mapsto> (lock, since, True))\<rparr>)"
| ends: "fl_running f i = Some (lock, since, True) \<Longrightarrow>
    fleet_step locker clock lease f (f\<lparr>fl_world := sample_end (locker i) lock (fl_world f), fl_running := (fl_running f)(i := None)\<rparr>)"
| dies: "fleet_step locker clock lease f (f\<lparr>fl_running := (fl_running f)(i := None)\<rparr>)"
| waits: "keeps_leases clock lease (\<lambda>j. True) (lw_redis (fl_world f)) n \<Longrightarrow>
    fleet_step locker clock lease f (f\<lparr>fl_world := (fl_world f)\<lparr>lw_redis := n\<rparr>\<rparr>)"

definition fleet_reaches :: "(nat \<Rightarrow> 'w redsync option) \<Rightarrow> ('w \<Rightarrow> time) \<Rightarrow> ('w \<Rightarrow> string \<Rightarrow> (nat \<times> time) option) \<Rightarrow> 'w fleet \<Rightarrow> 'w fleet \<Rightarrow> bool" where
  "fleet_reaches locker clock lease = (fleet_step locker clock lease)\<^sup>*\<^sup>*"

section \<open>The invariant\<close>

text \<open>Whoever is running has the lease, or has been at it for a minute.\<close>

definition lease_or_late :: "('w \<Rightarrow> time) \<Rightarrow> ('w \<Rightarrow> string \<Rightarrow> (nat \<times> time) option) \<Rightarrow> 'w fleet \<Rightarrow> nat \<Rightarrow> time \<Rightarrow> bool" where
  "lease_or_late clock lease f i since \<longleftrightarrow> since + 60 * second \<le> fleet_now clock f \<or>
     (\<exists>til. lease (lw_redis (fl_world f)) ''lock:cron:sample'' = Some (i, til) \<and> since + 60 * second \<le> til)"

definition fleet_inv :: "('w \<Rightarrow> time) \<Rightarrow> ('w \<Rightarrow> string \<Rightarrow> (nat \<times> time) option) \<Rightarrow> 'w fleet \<Rightarrow> bool" where
  "fleet_inv clock lease f \<longleftrightarrow> (\<forall>i lock since ran. fl_running f i = Some (lock, since, ran) \<longrightarrow> lease_or_late clock lease f i since)"

lemma late_kept:
  assumes "lease_or_late clock lease f i since" "keeps_leases clock lease others (lw_redis (fl_world f)) (lw_redis (fl_world f'))" "others i"
  shows "lease_or_late clock lease f' i since"
  using assms unfolding lease_or_late_def keeps_leases_def fleet_now_def by (smt (verit, best))

lemma note_event_redis [simp]: "lw_redis (note_event e w) = lw_redis w"
  by (simp add: note_event_def)

lemma begin_taken:
  assumes "lock_law client clock lease" "sample_begin (Some (client i)) w = (Executing lock, w1)"
  shows "clock (lw_redis w) \<le> clock (lw_redis w1) \<and>
    (\<forall>j til. lease (lw_redis w) ''lock:cron:sample'' = Some (j, til) \<longrightarrow> til \<le> clock (lw_redis w1)) \<and>
    (\<exists>til. lease (lw_redis w1) ''lock:cron:sample'' = Some (i, til) \<and> clock (lw_redis w) + 60 * second \<le> til)"
proof -
  let ?m = "\<lparr>mx_Name = ''lock:cron:sample'', mx_expiry = 60 * second, mx_tries = Some 1, mx_retry_delay = None\<rparr>"
  have "rs_TryLock (client i) ?m (lw_redis w) = (None, lw_redis w1)"
    using assms(2) by (auto simp: sample_begin_def try_lock_def new_mutex_def second_def on_redis_def split: prod.splits option.splits sum.splits if_splits)
  with assms(1) show ?thesis unfolding lock_law_def by fastforce
qed

lemma begin_refused:
  assumes "lock_law client clock lease" "sample_begin (Some (client i)) w = (Returned err, w1)"
  shows "keeps_leases clock lease (\<lambda>j. j \<noteq> i) (lw_redis w) (lw_redis w1)"
proof -
  let ?m = "\<lparr>mx_Name = ''lock:cron:sample'', mx_expiry = 60 * second, mx_tries = Some 1, mx_retry_delay = None\<rparr>"
  have "\<exists>err. rs_TryLock (client i) ?m (lw_redis w) = (Some err, lw_redis w1)"
    using assms(2) by (auto simp: sample_begin_def try_lock_def new_mutex_def second_def on_redis_def split: prod.splits option.splits sum.splits if_splits)
  with assms(1) show ?thesis unfolding lock_law_def by blast
qed

lemma keeps_leases_refl: "keeps_leases clock lease others n n"
  by (simp add: keeps_leases_def)

lemma end_keeps:
  assumes "lock_law client clock lease"
  shows "keeps_leases clock lease (\<lambda>j. j \<noteq> i) (lw_redis w) (lw_redis (sample_end (Some (client i)) lock w))"
proof (cases lock)
  case None
  then show ?thesis by (simp add: sample_end_def keeps_leases_refl)
next
  case (Some m)
  have "\<exists>answer. rs_Unlock (client i) m (lw_redis w) = (answer, lw_redis (sample_end (Some (client i)) lock w))"
    unfolding Some by (auto simp: sample_end_def unlock_def on_redis_def split: prod.splits option.splits)
  with assms show ?thesis unfolding lock_law_def by blast
qed

text \<open>A step that leaves the leases of the instances it does not take away.\<close>

lemma inv_kept:
  assumes "fleet_inv clock lease f" "keeps_leases clock lease others (lw_redis (fl_world f)) (lw_redis (fl_world f'))"
    and "\<And>j lock since ran. fl_running f' j = Some (lock, since, ran) \<Longrightarrow> others j \<and> (\<exists>b. fl_running f j = Some (lock, since, b))"
  shows "fleet_inv clock lease f'"
  unfolding fleet_inv_def
proof (intro allI impI)
  fix j lock since ran
  assume "fl_running f' j = Some (lock, since, ran)"
  from assms(3) [OF this] obtain b where b: "others j" "fl_running f j = Some (lock, since, b)" by blast
  with assms(1) have "lease_or_late clock lease f j since" unfolding fleet_inv_def by blast
  then show "lease_or_late clock lease f' j since" by (rule late_kept [OF _ assms(2) b(1)])
qed

lemma fleet_step_inv:
  assumes "lock_law client clock lease" "fleet_step (\<lambda>i. Some (client i)) clock lease f f'" "fleet_inv clock lease f"
  shows "fleet_inv clock lease f'"
  using assms(2,3)
proof (induction rule: fleet_step.induct)
  case (begins f i lock w1)
  note taken = begin_taken [OF assms(1) begins.hyps(2)]
  have "lease_or_late clock lease (f\<lparr>fl_world := w1, fl_running := run\<rparr>) j since" if "fl_running f j = Some (n, since, ran)" for j n since ran run
    using begins.prems that taken unfolding fleet_inv_def lease_or_late_def fleet_now_def by fastforce
  moreover have "lease_or_late clock lease (f\<lparr>fl_world := w1, fl_running := run\<rparr>) i (fleet_now clock f)" for run
    using taken by (auto simp: lease_or_late_def fleet_now_def)
  ultimately show ?case by (auto simp: fleet_inv_def)
next
  case (returns f i err w1)
  show ?case
    by (rule inv_kept [OF returns.prems, where others = "\<lambda>j. j \<noteq> i"])
      (use begin_refused [OF assms(1) returns.hyps(2)] returns.hyps(1) in auto)
next
  case (executes f i lock since)
  show ?case
    by (rule inv_kept [OF executes.prems, where others = "\<lambda>j. True"])
      (use executes.hyps in \<open>auto simp: sample_work_def keeps_leases_refl split: if_splits\<close>)
next
  case (ends f i lock since)
  show ?case
    by (rule inv_kept [OF ends.prems, where others = "\<lambda>j. j \<noteq> i"])
      (use end_keeps [OF assms(1)] in \<open>auto split: if_splits\<close>)
next
  case (dies f i)
  show ?case
    by (rule inv_kept [OF dies.prems, where others = "\<lambda>j. True"]) (auto simp: keeps_leases_refl split: if_splits)
next
  case (waits f n)
  show ?case
    by (rule inv_kept [OF waits.prems, where others = "\<lambda>j. True"]) (use waits.hyps in auto)
qed

lemma fleet_reaches_inv:
  assumes "lock_law client clock lease" "fleet_reaches (\<lambda>i. Some (client i)) clock lease f f'" "\<forall>i. fl_running f i = None"
  shows "fleet_inv clock lease f'"
  using assms(2) [unfolded fleet_reaches_def]
proof (induction rule: rtranclp_induct)
  case base
  with assms(3) show ?case by (simp add: fleet_inv_def)
next
  case (step f1 f2)
  show ?case by (rule fleet_step_inv [OF assms(1) step.hyps(2) step.IH])
qed

section \<open>The job is executed by a running instance\<close>

text \<open>How often the job has been executed.\<close>

definition executions :: "'w fleet \<Rightarrow> nat" where
  "executions f = count_list (lw_events (fl_world f)) JobExecuted"

lemma unlock_executions: "unlock rs m w = (r, w1) \<Longrightarrow> count_list (lw_events w1) JobExecuted = count_list (lw_events w) JobExecuted"
  using unlock_events by fastforce

lemma try_lock_executions:
  "try_lock rs ''cron:sample'' (60 * second) w = (r, w1) \<Longrightarrow> count_list (lw_events w1) JobExecuted = count_list (lw_events w) JobExecuted"
  by (erule try_lock_cases) (simp_all add: second_def)

lemma begin_executions:
  "sample_begin locker w = (r, w1) \<Longrightarrow> count_list (lw_events w1) JobExecuted = count_list (lw_events w) JobExecuted"
  by (auto simp: sample_begin_def dest!: try_lock_executions split: option.splits prod.splits sum.splits)

lemma end_executions: "count_list (lw_events (sample_end locker lock w)) JobExecuted = count_list (lw_events w) JobExecuted"
  by (auto simp: sample_end_def dest!: unlock_executions split: option.splits prod.splits)

lemma execution_step:
  assumes "fleet_step locker clock lease f f'" "executions f' \<noteq> executions f"
  shows "executions f' = Suc (executions f) \<and>
    (\<exists>i lock since. fl_running f i = Some (lock, since, False) \<and> fl_running f' i = Some (lock, since, True))"
  using assms
  by (induction rule: fleet_step.induct)
    (auto simp: executions_def sample_work_def end_executions dest: begin_executions)

section \<open>The job runs alone\<close>

text \<open>
  C38. With Redis configured in every instance, the scheduled job runs alone: of two instances past the lock
  and not yet past the unlock, one has been there for a minute or more, whenever the instances start, execute,
  end, are refused or die and however the clock moves; and the job is executed only by such an instance, once
  between its lock and its unlock.  The lock outlasts a run that stays within its 30-second deadline, so no two
  such runs ever overlap.  (Without Redis there is no lock: every instance executes the job.)
\<close>

lemma job_runs_alone:
  assumes "lock_law client clock lease" "fleet_reaches (\<lambda>i. Some (client i)) clock lease f f'" "\<forall>i. fl_running f i = None"
  shows "(\<forall>i j lock lock' since since' ran ran'. fl_running f' i = Some (lock, since, ran) \<longrightarrow>
       fl_running f' j = Some (lock', since', ran') \<longrightarrow> i \<noteq> j \<longrightarrow>
       since + 60 * second \<le> fleet_now clock f' \<or> since' + 60 * second \<le> fleet_now clock f') \<and>
    (\<forall>f''. fleet_step (\<lambda>i. Some (client i)) clock lease f' f'' \<longrightarrow> executions f'' \<noteq> executions f' \<longrightarrow>
       executions f'' = Suc (executions f') \<and>
       (\<exists>i lock since. fl_running f' i = Some (lock, since, False) \<and> fl_running f'' i = Some (lock, since, True)))"
proof (intro conjI)
  have late: "lease_or_late clock lease f' i since" if "fl_running f' i = Some (lock, since, ran)" for i lock since ran
    using fleet_reaches_inv [OF assms] that unfolding fleet_inv_def by blast
  show "\<forall>i j lock lock' since since' ran ran'. fl_running f' i = Some (lock, since, ran) \<longrightarrow>
       fl_running f' j = Some (lock', since', ran') \<longrightarrow> i \<noteq> j \<longrightarrow>
       since + 60 * second \<le> fleet_now clock f' \<or> since' + 60 * second \<le> fleet_now clock f'"
  proof (intro allI impI)
    fix i j lock lock' since since' ran ran'
    assume "fl_running f' i = Some (lock, since, ran)" "fl_running f' j = Some (lock', since', ran')" "i \<noteq> j"
    with late [of i lock since ran] late [of j lock' since' ran']
    show "since + 60 * second \<le> fleet_now clock f' \<or> since' + 60 * second \<le> fleet_now clock f'"
      by (auto simp: lease_or_late_def)
  qed
qed (use execution_step in blast)

section \<open>A Redis that keeps the promise\<close>

text \<open>A clock and at most one lease; a lock taken now runs for its expiry.\<close>

definition ex_redsync :: "nat \<Rightarrow> (time \<times> (string \<times> nat \<times> time) option) redsync" where
  "ex_redsync i = \<lparr>rs_TryLock = (\<lambda>m (now, l). case l of
        Some (name, j, til) \<Rightarrow> if now < til then (Some (ErrVar ''lock already taken''), (now, l))
          else (None, (now, Some (mx_Name m, i, now + mx_expiry m)))
      | None \<Rightarrow> (None, (now, Some (mx_Name m, i, now + mx_expiry m)))),
    rs_Lock = (\<lambda>m w. (None, w)), rs_Extend = (\<lambda>m w. ((True, None), w)),
    rs_Unlock = (\<lambda>m (now, l). case l of
        Some (name, j, til) \<Rightarrow> if j = i \<and> name = mx_Name m then ((True, None), (now, None)) else ((False, None), (now, l))
      | None \<Rightarrow> ((False, None), (now, l))),
    rs_is_taken = (\<lambda>err. err = ErrVar ''lock already taken''), rs_ctx_err = (\<lambda>w. None)\<rparr>"

definition ex_lease :: "(time \<times> (string \<times> nat \<times> time) option) \<Rightarrow> string \<Rightarrow> (nat \<times> time) option" where
  "ex_lease w name = (case snd w of Some (n, j, til) \<Rightarrow> if n = name then Some (j, til) else None | None \<Rightarrow> None)"

lemma ex_lock_law: "lock_law ex_redsync fst ex_lease"
  by (auto simp: lock_law_def keeps_leases_def ex_redsync_def ex_lease_def split: option.splits prod.splits if_splits)

definition ex_fleet :: "(time \<times> (string \<times> nat \<times> time) option) fleet" where
  "ex_fleet = \<lparr>fl_world = \<lparr>lw_redis = (0, None), lw_events = []\<rparr>, fl_running = Map.empty\<rparr>"

text \<open>The first instance hangs, the second is refused, a minute passes and the second runs and executes the job.\<close>

definition ex_lockers :: "nat \<Rightarrow> (time \<times> (string \<times> nat \<times> time) option) redsync option" where
  "ex_lockers i = Some (ex_redsync i)"

lemma ex_fleet_runs:
  "\<exists>f f' lock. fleet_reaches ex_lockers fst ex_lease ex_fleet f \<and> fl_running f 0 = Some (lock, 0, False) \<and>
     fl_running f 1 = Some (lock, 60 * second, False) \<and> fleet_now fst f = 60 * second \<and>
     fleet_step ex_lockers fst ex_lease f f' \<and> executions f = 0 \<and> executions f' = 1"
proof -
  define m where "m = \<lparr>mx_Name = ''lock:cron:sample'', mx_expiry = 60 * second, mx_tries = Some 1, mx_retry_delay = None\<rparr>"
  let ?t = "60 * second"
  let ?w1 = "\<lparr>lw_redis = (0, Some (''lock:cron:sample'', 0, ?t)), lw_events = [LockTaken ''lock:cron:sample'']\<rparr>"
  let ?w2 = "\<lparr>lw_redis = (0, Some (''lock:cron:sample'', 0, ?t)), lw_events = [LockTaken ''lock:cron:sample'', LockRefused ''lock:cron:sample'', JobSkipped]\<rparr>"
  let ?w4 = "\<lparr>lw_redis = (?t, Some (''lock:cron:sample'', 1, ?t + ?t)), lw_events = [LockTaken ''lock:cron:sample'', LockRefused ''lock:cron:sample'', JobSkipped, LockTaken ''lock:cron:sample'']\<rparr>"
  note sim = sample_begin_def try_lock_def new_mutex_def second_def on_redis_def ex_redsync_def ex_lockers_def note_event_def is_contention_def m_def
  let ?f1 = "\<lparr>fl_world = ?w1 :: (time \<times> (string \<times> nat \<times> time) option) lock_world, fl_running = [0 \<mapsto> (Some m, 0, False)]\<rparr>"
  let ?f2 = "?f1\<lparr>fl_world := ?w2\<rparr>"
  let ?f3 = "?f2\<lparr>fl_world := (fl_world ?f2)\<lparr>lw_redis := (?t, Some (''lock:cron:sample'', 0, ?t))\<rparr>\<rparr>"
  let ?f4 = "?f3\<lparr>fl_world := ?w4, fl_running := (fl_running ?f3)(1 \<mapsto> (Some m, fleet_now fst ?f3, False))\<rparr>"
  let ?f5 = "?f4\<lparr>fl_world := sample_work (fl_world ?f4), fl_running := (fl_running ?f4)(1 \<mapsto> (Some m, fleet_now fst ?f3, True))\<rparr>"
  let ?step = "fleet_step ex_lockers fst ex_lease"
  have "sample_begin (ex_lockers 0) (fl_world ex_fleet) = (Executing (Some m), ?w1)" by (simp add: sim ex_fleet_def)
  then have s1: "?step ex_fleet ?f1"
    using fleet_step.begins [of ex_fleet 0 ex_lockers "Some m" ?w1 fst ex_lease] by (simp add: ex_fleet_def fleet_now_def)
  have "sample_begin (ex_lockers 1) ?w1 = (Returned None, ?w2)" by (simp add: sim)
  then have s2: "?step ?f1 ?f2" using fleet_step.returns [of ?f1 1 ex_lockers None ?w2 fst ex_lease] by simp
  have s3: "?step ?f2 ?f3" by (rule fleet_step.waits) (simp add: keeps_leases_def ex_lease_def second_def)
  have "sample_begin (ex_lockers 1) (fl_world ?f3) = (Executing (Some m), ?w4)" by (simp add: sim)
  then have s4: "?step ?f3 ?f4" using fleet_step.begins [of ?f3 1 ex_lockers "Some m" ?w4 fst ex_lease] by simp
  have s5: "?step ?f4 ?f5" by (rule fleet_step.executes) simp
  from s1 s2 s3 s4 have "fleet_reaches ex_lockers fst ex_lease ex_fleet ?f4"
    unfolding fleet_reaches_def by (meson rtranclp.rtrancl_into_rtrancl rtranclp.rtrancl_refl)
  with s5 show ?thesis
    by (intro exI [of _ ?f4] exI [of _ ?f5] exI [of _ "Some m"]) (simp add: fleet_now_def executions_def sample_work_def)
qed

lemma job_runs_alone_witness:
  "\<exists>f f' lock i. fl_running (f :: (time \<times> (string \<times> nat \<times> time) option) fleet) (0 :: nat) = Some (lock, 0, False) \<and> fl_running f 1 = Some (lock, 60 * second, False) \<and>
     (0 + 60 * second \<le> fleet_now fst f \<or>
      60 * second + 60 * second \<le> fleet_now fst f) \<and>
     executions (f' :: (time \<times> (string \<times> nat \<times> time) option) fleet) = Suc (executions f) \<and> (\<exists>lock since. fl_running f i = Some (lock, since, False) \<and> fl_running f' i = Some (lock, since, True))"
proof -
  obtain f f' lock where f: "fleet_reaches ex_lockers fst ex_lease ex_fleet f" "fl_running f 0 = Some (lock, 0, False)"
    "fl_running f 1 = Some (lock, 60 * second, False)" and step: "fleet_step ex_lockers fst ex_lease f f'" "executions f' \<noteq> executions f"
    using ex_fleet_runs by fastforce
  have l: "ex_lockers = (\<lambda>i. Some (ex_redsync i))" by (rule ext) (simp add: ex_lockers_def)
  have none: "\<forall>i. fl_running ex_fleet i = None" by (simp add: ex_fleet_def)
  note alone = job_runs_alone [OF ex_lock_law f(1) [unfolded l] none]
  from conjunct1 [OF alone, rule_format, OF f(2,3)]
  have "0 + 60 * second \<le> fleet_now fst f \<or> 60 * second + 60 * second \<le> fleet_now fst f" by simp
  moreover obtain i where "executions f' = Suc (executions f)"
    "\<exists>lock since. fl_running f i = Some (lock, since, False) \<and> fl_running f' i = Some (lock, since, True)"
    using conjunct2 [OF alone, rule_format, OF step(1) [unfolded l] step(2)] by blast
  ultimately have "fl_running f 0 = Some (lock, 0, False) \<and> fl_running f 1 = Some (lock, 60 * second, False) \<and>
     (0 + 60 * second \<le> fleet_now fst f \<or> 60 * second + 60 * second \<le> fleet_now fst f) \<and>
     executions f' = Suc (executions f) \<and> (\<exists>lock since. fl_running f i = Some (lock, since, False) \<and> fl_running f' i = Some (lock, since, True))"
    using f(2,3) by (intro conjI)
  then show ?thesis by (intro exI)
qed

end
