(* ===== verification/Observability.thy ===== *)
theory Observability
  imports Http_Middleware Grpc_Status
begin

text \<open>
  \<open>internal/observability\<close>, \<open>internal/logging\<close> and \<open>internal/buildinfo\<close>: the metrics of the service and
  every place it observes one, the tracing, the logger.  The Prometheus client is the record \<open>prometheus\<close>
  over its registry; what panics there is \<open>None\<close> here.
\<close>

section \<open>Metrics\<close>

datatype collector =
    GoCollector | ProcessCollector | DBStatsCollector string
  | CounterVec string "string list" | HistogramVec string "string list" | GaugeFunc string

fun label_names :: "collector \<Rightarrow> string list" where
  "label_names (CounterVec name labels) = labels"
| "label_names (HistogramVec name labels) = labels"
| "label_names c = []"

record metrics =
  mt_enabled :: bool
  mt_HTTPRequests :: collector
  mt_HTTPDuration :: collector
  mt_CronRuns :: collector
  mt_CronDuration :: collector
  mt_GRPCRequests :: collector
  mt_GRPCDuration :: collector
  mt_OutboundRequests :: collector
  mt_OutboundDuration :: collector
  mt_RoutePolicyRefresh :: collector
  mt_RoutePolicyRefreshDuration :: collector

text \<open>\<open>pm_count\<close> and \<open>pm_observe\<close> are \<open>WithLabelValues\<close> with \<open>Inc\<close> and with \<open>Observe\<close>.\<close>

record 'w prometheus =
  pm_register :: "collector \<Rightarrow> 'w \<Rightarrow> goerr option \<times> 'w"
  pm_count :: "collector \<Rightarrow> string list \<Rightarrow> 'w \<Rightarrow> 'w option"
  pm_observe :: "collector \<Rightarrow> string list \<Rightarrow> 'w \<Rightarrow> 'w option"

text \<open>\<open>MustRegister\<close> panics at the first collector that is refused.\<close>

fun must_register :: "'w prometheus \<Rightarrow> collector list \<Rightarrow> 'w \<Rightarrow> 'w option" where
  "must_register pm [] w = Some w"
| "must_register pm (c # cs) w = (case pm_register pm c w of
      (Some err, w1) \<Rightarrow> None
    | (None, w1) \<Rightarrow> must_register pm cs w1)"

definition redis_gauges :: "string list" where
  "redis_gauges = [''redis_pool_hits_total'', ''redis_pool_misses_total'', ''redis_pool_timeouts_total'',
     ''redis_pool_connections'', ''redis_pool_idle_connections'']"

definition register_redis_metrics :: "'w prometheus \<Rightarrow> 'w \<Rightarrow> 'w option" where
  "register_redis_metrics pm w = must_register pm (map GaugeFunc redis_gauges) w"

definition service_metrics :: "bool \<Rightarrow> metrics" where
  "service_metrics on = \<lparr>mt_enabled = on,
     mt_HTTPRequests = CounterVec ''http_requests_total'' [''method'', ''route'', ''status''],
     mt_HTTPDuration = HistogramVec ''http_request_duration_seconds'' [''method'', ''route''],
     mt_CronRuns = CounterVec ''cron_runs_total'' [''job'', ''status''],
     mt_CronDuration = HistogramVec ''cron_run_duration_seconds'' [''job''],
     mt_GRPCRequests = CounterVec ''grpc_server_requests_total'' [''method'', ''code''],
     mt_GRPCDuration = HistogramVec ''grpc_server_duration_seconds'' [''method''],
     mt_OutboundRequests = CounterVec ''outbound_requests_total'' [''protocol'', ''client'', ''status''],
     mt_OutboundDuration = HistogramVec ''outbound_request_duration_seconds'' [''protocol'', ''client''],
     mt_RoutePolicyRefresh = CounterVec ''route_policy_refresh_total'' [''source'', ''status''],
     mt_RoutePolicyRefreshDuration = HistogramVec ''route_policy_refresh_duration_seconds'' [''source'']\<rparr>"

definition metric_vectors :: "metrics \<Rightarrow> collector list" where
  "metric_vectors m = [mt_HTTPRequests m, mt_HTTPDuration m, mt_CronRuns m, mt_CronDuration m, mt_GRPCRequests m, mt_GRPCDuration m,
     mt_OutboundRequests m, mt_OutboundDuration m, mt_RoutePolicyRefresh m, mt_RoutePolicyRefreshDuration m]"

text \<open>\<open>NewMetrics\<close>, told whether there is a database and a Redis client.\<close>

definition new_metrics :: "'w prometheus \<Rightarrow> bool \<Rightarrow> bool \<Rightarrow> bool \<Rightarrow> 'w \<Rightarrow> (metrics \<times> 'w) option" where
  "new_metrics pm on db client w =
     (let m = service_metrics on in
      case must_register pm ([GoCollector, ProcessCollector] @ metric_vectors m) w of
        None \<Rightarrow> None
      | Some w1 \<Rightarrow>
          (case (if db then must_register pm [DBStatsCollector ''primary''] w1 else Some w1) of
             None \<Rightarrow> None
           | Some w2 \<Rightarrow> map_option (Pair m) (if client then register_redis_metrics pm w2 else Some w2)))"

section \<open>Where metrics are observed\<close>

definition count_and_time :: "'w prometheus \<Rightarrow> collector \<Rightarrow> string list \<Rightarrow> collector \<Rightarrow> string list \<Rightarrow> 'w \<Rightarrow> 'w option" where
  "count_and_time pm counter values timer timed w = (case pm_count pm counter values w of
      None \<Rightarrow> None
    | Some w1 \<Rightarrow> pm_observe pm timer timed w1)"

definition observe_route_policy_refresh :: "'w prometheus \<Rightarrow> metrics \<Rightarrow> string \<Rightarrow> string \<Rightarrow> 'w \<Rightarrow> 'w option" where
  "observe_route_policy_refresh pm m source status w =
     (if \<not> mt_enabled m then Some w
      else count_and_time pm (mt_RoutePolicyRefresh m) [source, status] (mt_RoutePolicyRefreshDuration m) [source] w)"

definition observe_cron_run :: "'w prometheus \<Rightarrow> metrics \<Rightarrow> string \<Rightarrow> string \<Rightarrow> 'w \<Rightarrow> 'w option" where
  "observe_cron_run pm m job status w =
     (if \<not> mt_enabled m then Some w
      else count_and_time pm (mt_CronRuns m) [job, status] (mt_CronDuration m) [job] w)"

definition observe_grpc :: "'w prometheus \<Rightarrow> metrics \<Rightarrow> string \<Rightarrow> grpc_code \<Rightarrow> 'w \<Rightarrow> 'w option" where
  "observe_grpc pm m full_method code w =
     (if \<not> mt_enabled m then Some w
      else count_and_time pm (mt_GRPCRequests m) [full_method, code_name code] (mt_GRPCDuration m) [full_method] w)"

definition observe_outbound :: "'w prometheus \<Rightarrow> metrics \<Rightarrow> string \<Rightarrow> string \<Rightarrow> string \<Rightarrow> 'w \<Rightarrow> 'w option" where
  "observe_outbound pm m protocol name status w =
     (if \<not> mt_enabled m then Some w
      else count_and_time pm (mt_OutboundRequests m) [protocol, name, status] (mt_OutboundDuration m) [protocol, name] w)"

text \<open>The status Gin reports of an answer; a route that matches none starts at 404.\<close>

definition writer_status :: "request_context \<Rightarrow> 'b outcome_of \<Rightarrow> int" where
  "writer_status c r = (case r of Replied x \<Rightarrow> int (rs_status x) | _ \<Rightarrow> if rc_FullPath c = [] then 404 else 200)"

definition observe_http :: "'w prometheus \<Rightarrow> metrics \<Rightarrow> string \<Rightarrow> string \<Rightarrow> int \<Rightarrow> 'w \<Rightarrow> 'w option" where
  "observe_http pm m verb full_path status w =
     (if \<not> mt_enabled m then Some w
      else (let route = (if full_path = [] then ''unmatched'' else full_path) in
        count_and_time pm (mt_HTTPRequests m) [verb, route, show_int status] (mt_HTTPDuration m) [verb, route] w))"

text \<open>
  \<open>HTTPMetrics\<close> over handlers whose state holds the registry: it counts when the handlers behind it
  return, and a panic of theirs, or of the client library, passes it.
\<close>

definition http_metrics_mw :: "('w \<Rightarrow> 'r) \<Rightarrow> ('r \<Rightarrow> 'w \<Rightarrow> 'w) \<Rightarrow> 'r prometheus \<Rightarrow> metrics \<Rightarrow> ('w, 'b) middleware" where
  "http_metrics_mw get put pm m next c w = (case next c w of
      (Panicked hs, w1) \<Rightarrow> (Panicked hs, w1)
    | (r, w1) \<Rightarrow> (case observe_http pm m (rc_Method c) (rc_FullPath c) (writer_status c r) (get w1) of
          None \<Rightarrow> (Panicked (rc_out c), w1)
        | Some p \<Rightarrow> (r, put p w1)))"

section \<open>What the Prometheus client promises\<close>

text \<open>
  \<open>known w\<close> are the metric names a registry has, \<open>names c\<close> those of a collector and \<open>utf8\<close> tells which label
  values are valid: a collector whose names are new is accepted, and a vector takes as many valid values
  as it has labels.
\<close>

definition prometheus_law :: "'w prometheus \<Rightarrow> (collector \<Rightarrow> string set) \<Rightarrow> ('w \<Rightarrow> string set) \<Rightarrow> (string \<Rightarrow> bool) \<Rightarrow> bool" where
  "prometheus_law pm names known utf8 \<longleftrightarrow>
     (\<forall>c w. names c \<inter> known w = {} \<longrightarrow> (\<exists>w1. pm_register pm c w = (None, w1) \<and> known w1 = known w \<union> names c)) \<and>
     (\<forall>name labels values w. length values = length labels \<and> list_all utf8 values \<longrightarrow>
        pm_count pm (CounterVec name labels) values w \<noteq> None \<and> pm_observe pm (HistogramVec name labels) values w \<noteq> None) \<and>
     (\<forall>name labels. names (CounterVec name labels) = {name} \<and> names (HistogramVec name labels) = {name} \<and> names (GaugeFunc name) = {name}) \<and>
     (\<forall>n \<in> names GoCollector. has_prefix n ''go_'' \<and> \<not> has_prefix n ''go_sql_'') \<and>
     (\<forall>n \<in> names ProcessCollector. has_prefix n ''process_'') \<and>
     (\<forall>db. \<forall>n \<in> names (DBStatsCollector db). has_prefix n ''go_sql_'') \<and>
     (\<forall>s. is_ascii s \<longrightarrow> utf8 s)"

fun apart :: "(collector \<Rightarrow> string set) \<Rightarrow> collector list \<Rightarrow> bool" where
  "apart names [] \<longleftrightarrow> True"
| "apart names (c # cs) \<longleftrightarrow> (\<forall>d \<in> set cs. names c \<inter> names d = {}) \<and> apart names cs"

lemma must_register_fresh:
  assumes "prometheus_law pm names known utf8"
  shows "apart names cs \<Longrightarrow> \<forall>c \<in> set cs. names c \<inter> known w = {} \<Longrightarrow> must_register pm cs w \<noteq> None"
proof (induction cs arbitrary: w)
  case (Cons c cs)
  from assms Cons.prems(2) obtain w1 where w1: "pm_register pm c w = (None, w1)" "known w1 = known w \<union> names c"
    unfolding prometheus_law_def by (metis list.set_intros(1))
  with Cons.prems have "\<forall>d \<in> set cs. names d \<inter> known w1 = {}" by auto
  with Cons w1(1) show ?case by simp
qed simp

lemma must_register_append:
  "must_register pm (cs @ ds) w = Option.bind (must_register pm cs w) (must_register pm ds)"
  by (induction cs arbitrary: w) (auto split: prod.splits option.splits)

text \<open>All the service registers, and that no two of it share a name.\<close>

definition service_collectors :: "metrics \<Rightarrow> bool \<Rightarrow> bool \<Rightarrow> collector list" where
  "service_collectors m db client = ([GoCollector, ProcessCollector] @ metric_vectors m)
     @ (if db then [DBStatsCollector ''primary''] else []) @ (if client then map GaugeFunc redis_gauges else [])"

lemma new_metrics_registers:
  "new_metrics pm on db client w = map_option (Pair (service_metrics on)) (must_register pm (service_collectors (service_metrics on) db client) w)"
proof -
  define base where "base = [GoCollector, ProcessCollector] @ metric_vectors (service_metrics on)"
  have new: "new_metrics pm on db client w = (case must_register pm base w of
        None \<Rightarrow> None
      | Some w1 \<Rightarrow>
          (case (if db then must_register pm [DBStatsCollector ''primary''] w1 else Some w1) of
             None \<Rightarrow> None
           | Some w2 \<Rightarrow> map_option (Pair (service_metrics on)) (if client then must_register pm (map GaugeFunc redis_gauges) w2 else Some w2)))"
    by (simp only: new_metrics_def base_def register_redis_metrics_def Let_def)
  have all: "service_collectors (service_metrics on) db client
      = base @ (if db then [DBStatsCollector ''primary''] else []) @ (if client then map GaugeFunc redis_gauges else [])"
    by (simp add: service_collectors_def base_def)
  show ?thesis unfolding new all must_register_append
    by (cases "must_register pm base w"; cases db; cases client) (auto split: option.splits prod.splits)
qed

lemma service_collectors_apart:
  assumes "prometheus_law pm names known utf8"
  shows "apart names (service_collectors (service_metrics on) db client)"
proof -
  have vec: "names (CounterVec n ls) = {n}" "names (HistogramVec n ls) = {n}" "names (GaugeFunc n) = {n}" for n ls
    using assms unfolding prometheus_law_def by blast+
  have lib: "n \<in> names GoCollector \<Longrightarrow> has_prefix n ''go_'' \<and> \<not> has_prefix n ''go_sql_''" "n \<in> names ProcessCollector \<Longrightarrow> has_prefix n ''process_''"
    "n \<in> names (DBStatsCollector d) \<Longrightarrow> has_prefix n ''go_sql_''" for n d
    using assms unfolding prometheus_law_def by blast+
  have own: "n \<notin> names GoCollector" "n \<notin> names ProcessCollector" "n \<notin> names (DBStatsCollector d)"
    if "n \<in> set [''http_requests_total'', ''http_request_duration_seconds'', ''cron_runs_total'', ''cron_run_duration_seconds'',
      ''grpc_server_requests_total'', ''grpc_server_duration_seconds'', ''outbound_requests_total'', ''outbound_request_duration_seconds'',
      ''route_policy_refresh_total'', ''route_policy_refresh_duration_seconds''] \<or> n \<in> set redis_gauges" for n d
  proof -
    from that have "\<not> has_prefix n ''go_''" "\<not> has_prefix n ''process_''" "\<not> has_prefix n ''go_sql_''"
      by (auto simp: redis_gauges_def has_prefix_def)
    with lib show "n \<notin> names GoCollector" "n \<notin> names ProcessCollector" "n \<notin> names (DBStatsCollector d)" by blast+
  qed
  have go: "has_prefix n ''go_sql_'' \<Longrightarrow> \<not> has_prefix n ''process_''" "has_prefix n ''go_'' \<Longrightarrow> \<not> has_prefix n ''process_''" for n
    by (cases n; auto simp: has_prefix_def)+
  have between: "names GoCollector \<inter> names ProcessCollector = {}" "names GoCollector \<inter> names (DBStatsCollector d) = {}"
    "names ProcessCollector \<inter> names (DBStatsCollector d) = {}" for d
    using lib go by blast+
  show ?thesis
    by (cases db; cases client; simp add: service_collectors_def metric_vectors_def service_metrics_def redis_gauges_def vec between own)
qed

lemma registering_fits:
  assumes "prometheus_law pm names known utf8" "known w = {}"
  shows "\<exists>w1. new_metrics pm on db client w = Some (service_metrics on, w1)"
proof -
  have "must_register pm (service_collectors (service_metrics on) db client) w \<noteq> None"
    using assms(2) by (intro must_register_fresh [OF assms(1) service_collectors_apart [OF assms(1)]]) simp
  then show ?thesis by (auto simp: new_metrics_registers)
qed

lemma count_and_time_fits:
  assumes "prometheus_law pm names known utf8" "length values = length ls" "length timed = length ts" "list_all utf8 values" "list_all utf8 timed"
  shows "\<exists>w1. count_and_time pm (CounterVec n ls) values (HistogramVec k ts) timed w = Some w1"
proof -
  have "\<forall>name labels values w. length values = length labels \<and> list_all utf8 values \<longrightarrow>
      pm_count pm (CounterVec name labels) values w \<noteq> None \<and> pm_observe pm (HistogramVec name labels) values w \<noteq> None"
    using assms(1) unfolding prometheus_law_def by (elim conjE)
  with assms(2-5) have "pm_count pm (CounterVec n ls) values w \<noteq> None" "pm_observe pm (HistogramVec k ts) timed w1 \<noteq> None" for w1
    by blast+
  then show ?thesis by (auto simp: count_and_time_def split: option.splits)
qed

lemma ascii_utf8: "prometheus_law pm names known utf8 \<Longrightarrow> is_ascii s \<Longrightarrow> utf8 s"
  unfolding prometheus_law_def by blast

lemma allowed_ascii: "allowed_character c \<Longrightarrow> of_char c < (128 :: nat)"
  by (auto simp: allowed_character_def char_between_def less_eq_char_def)

lemma show_nat_ascii: "is_ascii (show_nat n)"
  using show_nat_allowed [of n] allowed_ascii by (auto simp: is_ascii_def list_all_iff)

text \<open>
  C95. No metric panics: on a fresh registry \<open>NewMetrics\<close> is accepted whatever the process has, since no two
  collectors of the service share a name, and every place that observes a metric, the HTTP and gRPC servers,
  the outbound clients, the jobs and the policy refresh, passes as many label values as the metric has labels.
\<close>

lemma metrics_never_panic:
  assumes "prometheus_law pm names known utf8" "known w = {}" "utf8 name" "utf8 verb" "utf8 path" "utf8 status"
  shows "\<exists>m w1. new_metrics pm on db client w = Some (m, w1) \<and> mt_enabled m = on \<and>
    observe_http pm m verb path code w2 \<noteq> None \<and> observe_grpc pm m path grpc w2 \<noteq> None \<and>
    observe_outbound pm m ''http'' name status w2 \<noteq> None \<and> observe_outbound pm m ''grpc'' name (code_name grpc) w2 \<noteq> None \<and>
    observe_cron_run pm m name status w2 \<noteq> None \<and> observe_route_policy_refresh pm m name status w2 \<noteq> None"
proof -
  obtain w1 where new: "new_metrics pm on db client w = Some (service_metrics on, w1)" using registering_fits [OF assms(1,2)] by blast
  note ascii = ascii_utf8 [OF assms(1)]
  have "is_ascii (show_int code)" using show_nat_ascii by (auto simp: show_int_def is_ascii_def)
  moreover have "is_ascii (code_name grpc)" by (cases grpc) (simp_all add: code_name_def is_ascii_def)
  moreover have "utf8 ''unmatched''" "utf8 ''http''" "utf8 ''grpc''" by (auto intro!: ascii simp: is_ascii_def)
  ultimately show ?thesis using assms(3-6) ascii
    by (intro exI [of _ "service_metrics on"] exI [of _ w1] conjI new)
      (auto simp: observe_http_def observe_grpc_def observe_outbound_def observe_cron_run_def observe_route_policy_refresh_def
        service_metrics_def Let_def intro!: count_and_time_fits [OF assms(1)])
qed

text \<open>A registry that keeps the names it has, and checks the label values it is given.\<close>

definition ex_names :: "collector \<Rightarrow> string set" where
  "ex_names c = (case c of GoCollector \<Rightarrow> {''go_goroutines'', ''go_threads''} | ProcessCollector \<Rightarrow> {''process_open_fds''}
     | DBStatsCollector db \<Rightarrow> {''go_sql_open_connections''} | CounterVec n ls \<Rightarrow> {n} | HistogramVec n ls \<Rightarrow> {n} | GaugeFunc n \<Rightarrow> {n})"

definition ex_prometheus :: "string set prometheus" where
  "ex_prometheus = \<lparr>
     pm_register = (\<lambda>c w. if ex_names c \<inter> w = {} then (None, w \<union> ex_names c) else (Some (ErrText ''duplicate metrics collector registration attempted''), w)),
     pm_count = (\<lambda>c values w. if length values = length (label_names c) \<and> list_all is_ascii values then Some w else None),
     pm_observe = (\<lambda>c values w. if length values = length (label_names c) \<and> list_all is_ascii values then Some w else None)\<rparr>"

lemma ex_prometheus_law: "prometheus_law ex_prometheus ex_names id is_ascii"
  by (auto simp: prometheus_law_def ex_prometheus_def ex_names_def has_prefix_def split: collector.splits)

lemma metrics_never_panic_witness:
  "\<exists>m w1. new_metrics ex_prometheus True True True {} = Some (m, w1) \<and> mt_enabled m \<and>
     observe_http ex_prometheus m ''POST'' [] 404 w1 \<noteq> None \<and> observe_grpc ex_prometheus m [] Unavailable w1 \<noteq> None"
proof -
  obtain m w1 where new: "new_metrics ex_prometheus True True True {} = Some (m, w1)"
    using registering_fits [OF ex_prometheus_law, of "{}" True True True] by auto
  have "is_ascii ''POST''" "is_ascii []" by (simp_all add: is_ascii_def)
  with metrics_never_panic [OF ex_prometheus_law, of "{}" "[]" "''POST''" "[]" "[]" True True True 404 w1 Unavailable] new
  show ?thesis by auto
qed

end
