(* ===== verification/Runtime_Parts.thy ===== *)
theory Runtime_Parts
  imports Http_Context Config
begin

text \<open>
  What every part of the process is given: the values of a context (\<open>internal/environment\<close>,
  \<open>internal/requestid\<close>), the build (\<open>internal/buildinfo\<close>), the logger (\<open>internal/logging\<close>), the tracing
  (\<open>internal/observability\<close>) and the settings of the platform's idempotency manager and operation log.
\<close>

section \<open>Contexts\<close>

text \<open>Each package has a key type of its own, so no two packages share a key.\<close>

datatype context_key = EnvironmentKey | RequestIDKey | ForeignKey string
datatype context_value = ContextString string | ContextOther

type_synonym go_context = "context_key \<Rightarrow> context_value option"

definition context_with_value :: "go_context \<Rightarrow> context_key \<Rightarrow> context_value \<Rightarrow> go_context" where
  "context_with_value ctx k v = ctx(k \<mapsto> v)"

definition context_string :: "go_context \<Rightarrow> context_key \<Rightarrow> string \<times> bool" where
  "context_string ctx k = (case ctx k of Some (ContextString s) \<Rightarrow> (s, True) | _ \<Rightarrow> ([], False))"

definition environment_with_context :: "go_context \<Rightarrow> string \<Rightarrow> go_context" where
  "environment_with_context ctx profile = context_with_value ctx EnvironmentKey (ContextString profile)"

definition environment_from_context :: "go_context \<Rightarrow> string \<times> bool" where
  "environment_from_context ctx = context_string ctx EnvironmentKey"

definition request_id_with_context :: "go_context \<Rightarrow> string \<Rightarrow> go_context" where
  "request_id_with_context ctx i = context_with_value ctx RequestIDKey (ContextString i)"

definition request_id_from_context :: "go_context \<Rightarrow> string \<times> bool" where
  "request_id_from_context ctx = (case context_string ctx RequestIDKey of (i, ok) \<Rightarrow> (i, ok \<and> i \<noteq> []))"

lemma context_reads:
  "environment_from_context (environment_with_context ctx p) = (p, True)"
  "request_id_from_context (request_id_with_context ctx i) = (i, i \<noteq> [])"
  "environment_from_context (request_id_with_context ctx i) = environment_from_context ctx"
  "request_id_from_context (environment_with_context ctx p) = request_id_from_context ctx"
  by (simp_all add: environment_from_context_def environment_with_context_def request_id_from_context_def
      request_id_with_context_def context_with_value_def context_string_def)

section \<open>The build\<close>

record build_info =
  bi_Version :: string
  bi_Commit :: string
  bi_BuildTime :: string
  bi_StartedAt :: time
  bi_Uptime :: string

text \<open>The four variables are set when the binary is linked; \<open>round_seconds\<close> prints a duration rounded to seconds.\<close>

definition current_build :: "(duration \<Rightarrow> string) \<Rightarrow> string \<Rightarrow> string \<Rightarrow> string \<Rightarrow> time \<Rightarrow> time \<Rightarrow> build_info" where
  "current_build round_seconds version commit build_time started now =
     \<lparr>bi_Version = version, bi_Commit = commit, bi_BuildTime = build_time, bi_StartedAt = started,
      bi_Uptime = round_seconds (now - started)\<rparr>"

section \<open>The logger\<close>

text \<open>\<open>Level.UnmarshalText\<close> of \<open>log/slog\<close>: a name in any case, then an offset with its sign.\<close>

definition decimal :: "string \<Rightarrow> int" where
  "decimal ds = foldl (\<lambda>n c. n * 10 + (of_char c - 48)) 0 ds"

definition parse_offset :: "string \<Rightarrow> goerr + int" where
  "parse_offset s = (case s of
      [] \<Rightarrow> Inr 0
    | sign # ds \<Rightarrow>
        (let n = (if sign = CHR ''-'' then - decimal ds else decimal ds) in
         if ds = [] \<or> \<not> list_all digit ds then Inl (ErrVar ''strconv.ErrSyntax'')
         else if n < - (2 ^ 63) \<or> 2 ^ 63 \<le> n then Inl (ErrVar ''strconv.ErrRange'')
         else Inr n))"

definition level_bases :: "(string \<times> int) list" where
  "level_bases = [(''DEBUG'', - 4), (''INFO'', 0), (''WARN'', 4), (''ERROR'', 8)]"

definition parse_level :: "(string \<Rightarrow> string) \<Rightarrow> string \<Rightarrow> goerr + int" where
  "parse_level to_upper s =
     (let signed = (\<lambda>c. c \<noteq> CHR ''+'' \<and> c \<noteq> CHR ''-'') in
      case parse_offset (dropWhile signed s) of
        Inl err \<Rightarrow> Inl (ErrWrap ''slog: level string'' err)
      | Inr offset \<Rightarrow>
          (case map_of level_bases (to_upper (takeWhile signed s)) of
             None \<Rightarrow> Inl (ErrWrap ''slog: level string'' (ErrText ''unknown name''))
           | Some base \<Rightarrow> Inr (wrap64 (base + offset))))"

record logger =
  lg_Filename :: string
  lg_MaxSize :: int
  lg_MaxBackups :: int
  lg_MaxAge :: int
  lg_Compress :: bool
  lg_level :: int
  lg_text :: bool
  lg_attributes :: "(string \<times> string) list"

text \<open>\<open>make_dir\<close> is \<open>MkdirAll\<close> of the directory of the file.\<close>

definition new_log :: "(string \<Rightarrow> goerr option) \<Rightarrow> (string \<Rightarrow> string) \<Rightarrow> (string \<Rightarrow> string) \<Rightarrow> cLog \<Rightarrow> goerr + logger" where
  "new_log make_dir uni to_upper cfg = (case make_dir (Log_File cfg) of
      Some err \<Rightarrow> Inl (ErrWrap ''create log directory'' err)
    | None \<Rightarrow>
        (case parse_level to_upper (to_lower uni (Log_Level cfg)) of
           Inl err \<Rightarrow> Inl (ErrWrap ''parse log level'' err)
         | Inr level \<Rightarrow> Inr \<lparr>lg_Filename = Log_File cfg, lg_MaxSize = Log_MaxSizeMB cfg, lg_MaxBackups = Log_MaxBackups cfg,
             lg_MaxAge = Log_MaxAgeDays cfg, lg_Compress = Log_Compress cfg, lg_level = level,
             lg_text = (Log_Format cfg = ''text''), lg_attributes = []\<rparr>))"

definition new_logger :: "(string \<Rightarrow> goerr option) \<Rightarrow> (string \<Rightarrow> string) \<Rightarrow> (string \<Rightarrow> string) \<Rightarrow> cConfig \<Rightarrow> goerr + logger" where
  "new_logger make_dir uni to_upper cfg = (case new_log make_dir uni to_upper (Config_Log cfg) of
      Inl err \<Rightarrow> Inl err
    | Inr logger \<Rightarrow> Inr (logger\<lparr>lg_attributes := [(''service'', App_Name (Config_App cfg)),
        (''environment'', Runtime_ActiveProfile (Config_Runtime cfg))]\<rparr>))"

section \<open>Tracing\<close>

record 'e trace_provider =
  tp_exporter :: 'e
  tp_service :: string
  tp_version :: string
  tp_ratio :: float64

record 'e tracing =
  tr_enabled :: bool
  tr_provider :: "'e trace_provider option"

text \<open>What \<open>NewTracing\<close> installs for the process: the provider and the propagation of trace contexts.\<close>

record 'e telemetry =
  tm_provider :: "'e trace_provider option"
  tm_propagates :: bool
  tm_stops :: nat

definition new_tracing :: "(string \<Rightarrow> goerr + 'e) \<Rightarrow> string \<Rightarrow> cConfig \<Rightarrow> 'e telemetry \<Rightarrow> (goerr + 'e tracing) \<times> 'e telemetry" where
  "new_tracing new_exporter version cfg w =
     (let ob = Config_Observability cfg; tracing = \<lparr>tr_enabled = Observability_TracingEnabled ob, tr_provider = None\<rparr> in
      if \<not> tr_enabled tracing then (Inr tracing, w)
      else (case new_exporter (Observability_TracingEndpoint ob) of
          Inl err \<Rightarrow> (Inl (ErrWrap ''create OTLP trace exporter'' err), w)
        | Inr exporter \<Rightarrow>
            (let provider = \<lparr>tp_exporter = exporter, tp_service = App_Name (Config_App cfg), tp_version = version,
               tp_ratio = Observability_TracingSampleRatio ob\<rparr> in
             (Inr (tracing\<lparr>tr_provider := Some provider\<rparr>),
              w\<lparr>tm_provider := Some provider, tm_propagates := True, tm_stops := tm_stops w + 1\<rparr>))))"

lemma new_tracing_Inr:
  assumes "new_tracing new_exporter version cfg w = (Inr t, w1)"
  shows "tr_enabled t = Observability_TracingEnabled (Config_Observability cfg) \<and> (tr_enabled t \<longleftrightarrow> tr_provider t \<noteq> None) \<and>
    (if tr_enabled t then tm_provider w1 = tr_provider t \<and> tm_propagates w1 else w1 = w)"
  using assms by (auto simp: new_tracing_def Let_def split: if_splits sum.splits)

section \<open>Settings handed to the platform\<close>

record idempotency_config =
  ic_Enabled :: bool
  ic_Service :: string
  ic_ProcessingTTL :: duration
  ic_ResultTTL :: duration
  ic_FailureTTL :: duration

definition new_idempotency_config :: "cConfig \<Rightarrow> idempotency_config" where
  "new_idempotency_config cfg = (let i = Config_Idempotency cfg in
     \<lparr>ic_Enabled = Idempotency_Enabled i, ic_Service = App_Name (Config_App cfg), ic_ProcessingTTL = Idempotency_ProcessingTTL i,
      ic_ResultTTL = Idempotency_ResultTTL i, ic_FailureTTL = Idempotency_FailureTTL i\<rparr>)"

record operation_log_config =
  oc_Enabled :: bool
  oc_Subject :: string
  oc_MaxPayloadBytes :: int

definition new_operation_log_config :: "cConfig \<Rightarrow> operation_log_config" where
  "new_operation_log_config cfg = (let l = Config_OperationLog cfg in
     \<lparr>oc_Enabled = OperationLog_Enabled l, oc_Subject = OperationLog_Subject l, oc_MaxPayloadBytes = OperationLog_MaxPayloadBytes l\<rparr>)"

section \<open>Which levels the logger takes\<close>

text \<open>A name alone is one of the four, whatever its case.\<close>

lemma parse_level_names:
  assumes "list_all (\<lambda>c. c \<noteq> CHR ''+'' \<and> c \<noteq> CHR ''-'') s"
  shows "parse_level to_upper s = (case map_of level_bases (to_upper s) of
    None \<Rightarrow> Inl (ErrWrap ''slog: level string'' (ErrText ''unknown name'')) | Some base \<Rightarrow> Inr base)"
proof -
  let ?name = "\<lambda>c. c \<noteq> CHR ''+'' \<and> c \<noteq> CHR ''-''"
  have rest: "dropWhile ?name s = []" and name: "takeWhile ?name s = s"
    using assms by (auto simp: list_all_iff)
  show ?thesis unfolding parse_level_def Let_def rest name parse_offset_def 
    by (auto simp: level_bases_def wrap64_def split: option.splits if_splits)
qed

end
