(* ===== verification/Spec2Isabelle.thy ===== *)
theory Spec2Isabelle
  imports Audit_Record_Facts Audit_Export_Facts Policy_Facts Config_Facts Http_Facts Grpc_Facts
    Outbound_Grpc_Facts Event_Facts Startup_Facts Server_Start Grpc_Whole Locks_Facts Observability Runtime_Parts
begin

text \<open>
  The audit service.  It stores audit records, which never change once stored, and lets users of a tenant
  read, search and export those of their own tenant and of the applications granted to it.  Records come
  in over HTTP, over gRPC and as events of the platform; who may call what is decided by route policies
  kept in the same database.

  \<^bold>\<open>The parts and how they interact.\<close>  A request passes the middlewares of the HTTP server or the
  interceptors of the gRPC server (\<open>internal/transport\<close>): they give it an identifier, authenticate it
  (\<open>internal/auth\<close>), ask the policy manager (\<open>internal/routepolicy\<close>) whether it is allowed, limit its rate
  (\<open>internal/ratelimit\<close>), run it once per idempotency key and log reads.  The handler calls the audit
  service (\<open>internal/audit\<close>), which works on two tables through a transaction that carries the acting
  principal into the database (\<open>internal/database/transaction.go\<close>), where triggers stamp the rows.  Events
  reach the same service through \<open>internal/app/audit_eventbus.go\<close>.  The configuration
  (\<open>internal/config\<close>) is loaded and checked first; migrations, the database, Redis, the outbound clients
  and the servers are made from it (\<open>internal/app\<close>, \<open>cmd\<close>).

  \<^bold>\<open>Theories.\<close>  A theory models the files named, with one record per struct, one datatype per
  enumeration and one definition per function under its name in lower case; the theory of the same name
  with \<open>Facts\<close> has its properties.

  \<^item> \<open>Go_Prelude\<close>, \<open>Go_Path\<close>: Go's strings, integers and \<open>path.Match\<close>, on bytes.
  \<^item> \<open>App_Error\<close>: Go's errors and \<open>internal/apperror/error.go\<close>.
  \<^item> \<open>Sql_Database\<close>: \<open>internal/database/transaction.go\<close> on a database that others use as well.  A database
    is its tables, a session and a script: each statement takes the next step of the script, which says what
    others do to the tables before it, how much time passes and whether it succeeds, fails, or is carried out
    and its answer lost.  When the script is empty the database is quiet.  The properties that do not ask for
    an empty script hold for every script, that is for every interleaving and every failure.
  \<^item> \<open>Audit_Model\<close>, \<open>Audit_Repository\<close>, \<open>Audit_Store\<close>: \<open>model.go\<close> and \<open>repository.go\<close> of
    \<open>internal/audit\<close>, the tables and triggers of the PostgreSQL migrations, and the abstract store they implement.
    A row holds what its columns make of a record: the canonical form of the identifier (\<open>UUID\<close>), the
    summaries as \<open>JSONB\<close> gives them back, the time of the event to the microsecond (\<open>TIMESTAMPTZ\<close>), texts
    as given; a column refuses what it cannot hold.  The properties say what is kept with \<open>kept_as\<close> and
    \<open>stored_as\<close>, never that a row equals what was sent.  (Under MySQL the columns are \<open>CHAR(36)\<close>, \<open>JSON\<close> and
    \<open>DATETIME(6)\<close>, which rounds.)
  \<^item> \<open>Audit_Service\<close>, \<open>Audit_Export\<close>: \<open>service.go\<close>.  A service is a record of the interfaces it was built
    with.  \<open>Audit_Laws\<close> states as locales what it relies on; \<open>Audit_World\<close> builds the service on the SQL
    repository and interprets them.  \<open>Audit_Examples\<close> is a concrete instance.
  \<^item> \<open>Audit_Record_Facts\<close>, \<open>Audit_Query_Facts\<close>, \<open>Audit_Export_Facts\<close>, \<open>Audit_Progress\<close>: what the operations
    guarantee.
  \<^item> \<open>Policy_Repository\<close>, \<open>Policy_Store\<close>, \<open>Policy_Service\<close>, \<open>Policy_Facts\<close>: \<open>internal/routepolicy\<close>.
  \<^item> \<open>Config\<close>, \<open>Config_Facts\<close>: \<open>internal/config/config.go\<close>.  \<open>Auth\<close>: \<open>internal/auth\<close>.  \<open>Health\<close>:
    \<open>internal/health\<close>.
  \<^item> \<open>Http_Context\<close>, \<open>Http_Middleware\<close>, \<open>Http_Server\<close>: \<open>internal/transport/http\<close>, \<open>internal/requestid\<close> and
    \<open>internal/ratelimit\<close>.  A middleware is a function from handlers to handlers, the chain their composition
    in the order of the code.  \<open>Http_Gates\<close> shows that nothing gets past them, \<open>Http_Facts\<close> the rest.
    \<open>Http_Whole\<close> carries the guarantees of the audit service to what a client of the API is answered.  A
    replay is the only answer that is not made by a handler, and \<open>replays\<close> ties it to what \<open>Begin\<close> of the store
    of keys decides for the key and the fingerprint of that very request in the state it arrived in.
  \<^item> \<open>Grpc_Status\<close>, \<open>Grpc_Server\<close>, \<open>Grpc_Facts\<close>: \<open>internal/transport/grpc\<close>, and how the two transports agree;
    \<open>Grpc_Whole\<close>: what a client of the calls is answered, with replays (\<open>call_replays\<close>) tied to the key, the
    caller, the call and the state as over HTTP.
  \<^item> \<open>Outbound_Base\<close>, \<open>Outbound_Http\<close>, \<open>Outbound_Grpc\<close>, \<open>Outbound_Registry\<close>: \<open>internal/outbound\<close> and
    \<open>internal/grpcclient\<close>; a world notes what is sent and what is waited for.
  \<^item> \<open>Event_Consumer\<close>, \<open>Event_Facts\<close>: \<open>internal/app/audit_eventbus.go\<close>.
  \<^item> \<open>Database_Open\<close>, \<open>Locks\<close>, \<open>Migration\<close>, \<open>Migration_Facts\<close>: \<open>internal/database/database.go\<close>,
    \<open>internal/cache\<close> with \<open>internal/scheduler\<close>, and \<open>internal/migration\<close>, whose world notes each call to the
    migrator with its answer.  \<open>Locks_Facts\<close> runs the job on many instances as a step relation over the parts of
    a run (lock, execution, unlock), with Redis or, as by default, without it.
  \<^item> \<open>Startup\<close>, \<open>Startup_Facts\<close>, \<open>Server_Start\<close>: the rest of \<open>internal/app\<close>, \<open>internal/authorization\<close>, \<open>cmd\<close>,
    and the making and the start hooks of the servers.
  \<^item> \<open>Observability\<close>: \<open>metrics.go\<close> of \<open>internal/observability\<close> and every place that observes a metric.
    \<open>Runtime_Parts\<close>: its \<open>tracing.go\<close>, \<open>internal/logging\<close>, \<open>internal/environment\<close>, \<open>internal/buildinfo\<close>, the
    contexts of \<open>internal/requestid\<close> and the settings \<open>internal/idempotency\<close> hands on.

  \<^bold>\<open>What is shown.\<close>  Of the audit log: a reported record is stored, durable and unchangeable under every
  interleaving, a failed call leaves nothing half written, and on a quiet database recording is one operation
  of an abstract store; users read, search and export only what is theirs, the SQL binds every value, the
  exported text reads back and is inert in a spreadsheet.  Of the policies: a change is all or nothing, a
  stale writer is refused, what was set is loaded and enforced, discovery replaces exactly its own routes,
  and the one race the manager has is exhibited.  Of the transports: no effect and no disclosure without
  the authorization of the route, reads are logged, a key runs its request once, and both transports
  authenticate, answer and report alike up to the exceptions stated.  Of the outbound clients: every call
  ends within the configured attempts, and its result is explained by what was sent.  Of the whole: an event
  is recorded exactly once in the end, a serving process is guarded as its configuration asks, its
  transactions have a known actor, no server listens before its policies are loaded, what either server shows a
  user is of their tenant and what it reports recorded is stored, the scheduled job runs on one instance at
  a time where Redis is configured, and no metric can panic.

  \<^bold>\<open>Contracts.\<close>  \<open>table_order\<close> (what every writer of a table keeps), \<open>audit_reader\<close>, \<open>audit_world\<close> and
  \<open>audit_reads\<close> (what the audit service relies on), \<open>gate_states\<close> (what the middlewares in front of the
  handlers may do to the state) and \<open>retry_loop\<close> (the loops of both outbound clients) are locales, each interpreted on the model of the code that provides it.  The properties rest on the
  interpretations and stand outside them.

  \<^bold>\<open>Bounds.\<close>  No definition uses fuel: loops are recursions on the data or functions with a measure (the
  export loop by the records still wanted, the retry loops by the attempts left, the pattern matcher by the
  length of what is left of the pattern and the name).  A time and a duration are nanoseconds in \<open>int\<close>; where
  the code computes with numbers a caller supplies, the wrap-around at 64 bits is written out.

  \<^bold>\<open>Parameters.\<close>  Code outside the repository is an argument of the definitions that use it, a field of a
  record of functions: the database server beyond the statements used, Redis and \<open>redsync\<close>, Prometheus, the platform's
  policy compiler, idempotency store, operation recorder, application and authorization clients, JWT and
  JSON libraries, protobuf, \<open>net/url\<close>, \<open>net/http\<close>, grpc-go, gobreaker, golang-migrate, cron and the event bus.
  What a property needs of one is a named hypothesis, and its witness instantiates it.

  \<^bold>\<open>Not modelled.\<close>  The lines that are logged; the counting of metrics inside the chains of the two servers,
  which changes nothing that is answered or stored; dependency injection itself, whose order of constructors
  is taken as given; the goroutines that serve connections; the generated API document (\<open>docs/docs.go\<close>);
  the context functions of \<open>internal/idempotency\<close>, which only call the platform's.  Texts of errors leave out the
  values they quote, or the quotes around them, where no code reads them.
\<close>

end
